theory Spec2Isabelle
  imports Complex_Main
begin

section \<open>JavaScript numbers\<close>

text \<open>
  The analyzers compute with JavaScript numbers. A number is modelled as an exact real
  or one of the three special values of IEEE arithmetic, so that a division by zero is
  a value of the model (\<open>PInf\<close>, \<open>NInf\<close> or \<open>NaN\<close>) and not the \<open>0\<close> that HOL's
  division returns. The sign of zero is not modelled. Finite results are the exact
  reals, without rounding or overflow, except where the rounding decides what a
  statement says: the arithmetic of the multi-timeframe aggregator rounds to double
  precision (see below).
\<close>

datatype jsnum = Fin real | PInf | NInf | NaN

fun jneg :: "jsnum \<Rightarrow> jsnum" where
  "jneg (Fin a) = Fin (- a)"
| "jneg PInf = NInf"
| "jneg NInf = PInf"
| "jneg NaN = NaN"

fun jadd :: "jsnum \<Rightarrow> jsnum \<Rightarrow> jsnum" where
  "jadd (Fin a) (Fin b) = Fin (a + b)"
| "jadd NaN y = NaN"
| "jadd x NaN = NaN"
| "jadd PInf NInf = NaN"
| "jadd NInf PInf = NaN"
| "jadd PInf y = PInf"
| "jadd x PInf = PInf"
| "jadd NInf y = NInf"
| "jadd x NInf = NInf"

definition jsub :: "jsnum \<Rightarrow> jsnum \<Rightarrow> jsnum" where
  "jsub x y = jadd x (jneg y)"

fun jmul :: "jsnum \<Rightarrow> jsnum \<Rightarrow> jsnum" where
  "jmul (Fin a) (Fin b) = Fin (a * b)"
| "jmul NaN y = NaN"
| "jmul x NaN = NaN"
| "jmul PInf (Fin b) = (if b = 0 then NaN else if 0 < b then PInf else NInf)"
| "jmul NInf (Fin b) = (if b = 0 then NaN else if 0 < b then NInf else PInf)"
| "jmul (Fin a) PInf = (if a = 0 then NaN else if 0 < a then PInf else NInf)"
| "jmul (Fin a) NInf = (if a = 0 then NaN else if 0 < a then NInf else PInf)"
| "jmul PInf PInf = PInf"
| "jmul NInf NInf = PInf"
| "jmul PInf NInf = NInf"
| "jmul NInf PInf = NInf"

fun jdiv :: "jsnum \<Rightarrow> jsnum \<Rightarrow> jsnum" where
  "jdiv (Fin a) (Fin b) =
     (if b \<noteq> 0 then Fin (a / b)
      else if a = 0 then NaN else if 0 < a then PInf else NInf)"
| "jdiv NaN y = NaN"
| "jdiv x NaN = NaN"
| "jdiv (Fin a) PInf = Fin 0"
| "jdiv (Fin a) NInf = Fin 0"
| "jdiv PInf (Fin b) = (if 0 \<le> b then PInf else NInf)"
| "jdiv NInf (Fin b) = (if 0 \<le> b then NInf else PInf)"
| "jdiv PInf PInf = NaN"
| "jdiv PInf NInf = NaN"
| "jdiv NInf PInf = NaN"
| "jdiv NInf NInf = NaN"

text \<open>The comparisons: every comparison with \<open>NaN\<close> is false.\<close>

fun jlt :: "jsnum \<Rightarrow> jsnum \<Rightarrow> bool" where
  "jlt (Fin a) (Fin b) = (a < b)"
| "jlt NaN y = False"
| "jlt x NaN = False"
| "jlt x NInf = False"
| "jlt PInf y = False"
| "jlt NInf y = True"
| "jlt x PInf = True"

definition jgt :: "jsnum \<Rightarrow> jsnum \<Rightarrow> bool" where
  "jgt x y = jlt y x"

fun jle :: "jsnum \<Rightarrow> jsnum \<Rightarrow> bool" where
  "jle (Fin a) (Fin b) = (a \<le> b)"
| "jle NaN y = False"
| "jle x NaN = False"
| "jle NInf y = True"
| "jle x PInf = True"
| "jle x NInf = False"
| "jle PInf y = False"

definition jge :: "jsnum \<Rightarrow> jsnum \<Rightarrow> bool" where
  "jge x y = jle y x"

fun jabs :: "jsnum \<Rightarrow> jsnum" where
  "jabs (Fin a) = Fin \<bar>a\<bar>"
| "jabs PInf = PInf"
| "jabs NInf = PInf"
| "jabs NaN = NaN"

text \<open>\<open>Math.max(a, b)\<close> and \<open>Math.min(a, b)\<close>: \<open>NaN\<close> when an argument is \<open>NaN\<close>.\<close>

definition jmax :: "jsnum \<Rightarrow> jsnum \<Rightarrow> jsnum" where
  "jmax x y = (if x = NaN \<or> y = NaN then NaN else if jlt x y then y else x)"



text \<open>\<open>xs.reduce((a, b) => a + b, 0)\<close>, and \<open>xs.slice(-n)\<close>.\<close>

definition reduce_sum :: "jsnum list \<Rightarrow> jsnum" where
  "reduce_sum xs = foldl jadd (Fin 0) xs"

definition slice_last :: "nat \<Rightarrow> 'a list \<Rightarrow> 'a list" where
  "slice_last n xs = drop (length xs - n) xs"

text \<open>An array read \<open>xs[i]\<close> used as a number: out of range it is \<open>undefined\<close>,
  which every arithmetic operation and comparison treats as \<open>NaN\<close>.\<close>

definition aget :: "jsnum list \<Rightarrow> int \<Rightarrow> jsnum" where
  "aget xs i = (if 0 \<le> i \<and> i < int (length xs) then xs ! nat i else NaN)"

fun jsqrt :: "jsnum \<Rightarrow> jsnum" where
  "jsqrt (Fin a) = (if 0 \<le> a then Fin (sqrt a) else NaN)"
| "jsqrt PInf = PInf"
| "jsqrt NInf = NaN"
| "jsqrt NaN = NaN"

fun jlog :: "jsnum \<Rightarrow> jsnum" where
  "jlog (Fin a) = (if 0 < a then Fin (ln a) else if a = 0 then NInf else NaN)"
| "jlog PInf = PInf"
| "jlog NInf = NaN"
| "jlog NaN = NaN"

text \<open>\<open>Math.pow(x, n)\<close> for the exponents \<open>3\<close> and \<open>4\<close> the analyzers use.\<close>

fun jpow :: "jsnum \<Rightarrow> nat \<Rightarrow> jsnum" where
  "jpow x 0 = Fin 1"
| "jpow x (Suc n) = jmul x (jpow x n)"

text \<open>\<open>Math.max(...xs)\<close>: \<open>-Infinity\<close> for no argument.\<close>

definition jmax_list :: "jsnum list \<Rightarrow> jsnum" where
  "jmax_list xs = foldl jmax NInf xs"

subsection \<open>Double precision\<close>

text \<open>
  Where a computed number is compared with a threshold that it can meet, the rounding
  of the arithmetic decides: the multi-timeframe aggregator is therefore modelled with
  the rounding of IEEE 754 double precision. \<open>dbl x\<close> is the double nearest to the
  real \<open>x\<close>, a tie going to the even significand: a significand of 53 bits with the
  exponent of \<open>x\<close>, at least \<open>-1022\<close> (below, the spacing stays \<open>2^-1074\<close>), and
  an infinity when the rounded magnitude reaches \<open>2^1024\<close>. An arithmetic operation
  on doubles returns the double nearest to the exact result.
\<close>

definition round_even :: "real \<Rightarrow> int" where
  "round_even y =
     (let f = \<lfloor>y\<rfloor>; r = y - of_int f
      in if r < 1 / 2 then f else if 1 / 2 < r then f + 1
         else if even f then f else f + 1)"

definition dbl :: "real \<Rightarrow> jsnum" where
  "dbl x =
     (if x = 0 then Fin 0
      else
        let e = max \<lfloor>log 2 \<bar>x\<bar>\<rfloor> (- 1022);
            q = 2 powr (of_int e - 52);
            r = of_int (round_even (x / q)) * q
        in if 2 ^ 1024 \<le> \<bar>r\<bar> then (if 0 < x then PInf else NInf) else Fin r)"

fun jround :: "jsnum \<Rightarrow> jsnum" where
  "jround (Fin a) = dbl a"
| "jround x = x"

text \<open>\<open>x + y\<close>, \<open>x - y\<close> and \<open>x / y\<close> on doubles, and
  \<open>xs.reduce((a, b) => a + b, 0)\<close> on doubles.\<close>

definition dadd :: "jsnum \<Rightarrow> jsnum \<Rightarrow> jsnum" where
  "dadd x y = jround (jadd x y)"

definition dsub :: "jsnum \<Rightarrow> jsnum \<Rightarrow> jsnum" where
  "dsub x y = jround (jsub x y)"

definition ddiv :: "jsnum \<Rightarrow> jsnum \<Rightarrow> jsnum" where
  "ddiv x y = jround (jdiv x y)"

definition reduce_dsum :: "jsnum list \<Rightarrow> jsnum" where
  "reduce_dsum xs = foldl dadd (Fin 0) xs"

section \<open>Candles\<close>

text \<open>
  A candle of the OHLCV series; its prices and volume are finite numbers. The field
  \<open>open\<close> is \<open>c_open\<close> here. Where several objects of the source have a field of the
  same name (\<open>confidence\<close>, \<open>iterations\<close>, \<open>strength\<close>, \<open>volumeRatio\<close>, ...), the
  fields of the records below carry a prefix of their record.
\<close>

record candle =
  timestamp :: int
  c_open :: real
  high :: real
  low :: real
  close :: real
  volume :: real

section \<open>Errors\<close>

text \<open>
  What the analyzers and their libraries throw. \<open>InsufficientData need got\<close> is the
  error of \<open>trainModel\<close>, an \<open>Error\<close> with the message "Insufficient data for HMM
  training. Need \<open>need\<close>, got \<open>got\<close>"; \<open>StatsError\<close> is thrown by simple-statistics on an empty array,
  \<open>KMeansError\<close> by ml-kmeans and \<open>MatrixError\<close> by an access to a row that a matrix
  does not have.
\<close>

datatype error = InsufficientData nat nat | StatsError | KMeansError | MatrixError

definition ebind :: "error + 'a \<Rightarrow> ('a \<Rightarrow> error + 'b) \<Rightarrow> error + 'b" where
  "ebind r f = (case r of Inl e \<Rightarrow> Inl e | Inr x \<Rightarrow> f x)"

fun emap :: "('a \<Rightarrow> error + 'b) \<Rightarrow> 'a list \<Rightarrow> error + 'b list" where
  "emap f [] = Inr []"
| "emap f (x # xs) = ebind (f x) (\<lambda>y. ebind (emap f xs) (\<lambda>ys. Inr (y # ys)))"

section \<open>The statistics library (simple-statistics)\<close>

text \<open>
  \<open>ss.mean\<close> and \<open>ss.standardDeviation\<close> are functions of the library
  simple-statistics, as it documents them: the mean is the sum divided by the length,
  the standard deviation is the square root of the population variance (\<open>0\<close> for a
  single value), and both throw on an empty array.

  The sum of the library carries a running compensation (Kahan-Babuska):
  \<open>transition = sum + x[i]\<close>, then \<open>correction += sum - transition + x[i]\<close> when
  \<open>|sum| >= |x[i]|\<close> and \<open>correction += x[i] - transition + sum\<close> otherwise, and
  the result is \<open>sum + correction\<close> (the running \<open>sum\<close> is \<open>acc\<close> below). On exact finite numbers the compensation is
  \<open>0\<close> and the result is the plain sum; an infinity among two or more entries makes
  the compensation, and so the result, \<open>NaN\<close>.
\<close>

fun ss_sum_loop :: "jsnum \<Rightarrow> jsnum \<Rightarrow> jsnum list \<Rightarrow> jsnum" where
  "ss_sum_loop acc correction [] = jadd acc correction"
| "ss_sum_loop acc correction (x # xs) =
     (let transition = jadd acc x;
          correction' = (if jge (jabs acc) (jabs x)
                         then jadd correction (jadd (jsub acc transition) x)
                         else jadd correction (jadd (jsub x transition) acc))
      in ss_sum_loop transition correction' xs)"

definition ss_sum :: "jsnum list \<Rightarrow> jsnum" where
  "ss_sum x = (case x of [] \<Rightarrow> Fin 0 | x0 # xs \<Rightarrow> ss_sum_loop x0 (Fin 0) xs)"

definition ss_mean :: "jsnum list \<Rightarrow> error + jsnum" where
  "ss_mean x = (if x = [] then Inl StatsError
                else Inr (jdiv (ss_sum x) (Fin (real (length x)))))"

definition ss_variance :: "jsnum list \<Rightarrow> error + jsnum" where
  "ss_variance x =
     ebind (ss_mean x) (\<lambda>m.
       Inr (jdiv (foldl (\<lambda>s v. jadd s (jmul (jsub v m) (jsub v m))) (Fin 0) x)
                 (Fin (real (length x)))))"

definition ss_standardDeviation :: "jsnum list \<Rightarrow> error + jsnum" where
  "ss_standardDeviation x =
     (if length x = 1 then Inr (Fin 0)
      else ebind (ss_variance x) (\<lambda>v. Inr (jsqrt v)))"

section \<open>The regime model (HMMAnalyzer)\<close>

subsection \<open>State and configuration\<close>

definition states :: "string list" where
  "states = [''BULL'', ''BEAR'', ''SIDEWAYS'', ''HIGH_VOLATILITY'']"

definition numStates :: nat where
  "numStates = length states"

definition windowSize :: nat where
  "windowSize = 20"

definition minTrainingData :: nat where
  "minTrainingData = 100"

definition maxIterations :: nat where
  "maxIterations = 50"

definition convergenceThreshold :: jsnum where
  "convergenceThreshold = Fin (1 / 1000000)"

text \<open>\<open>this.states[i]\<close>, and \<open>this.states.indexOf(r)\<close> (\<open>-1\<close> when absent).\<close>

definition state_name :: "nat \<Rightarrow> string" where
  "state_name i = (if i < length states then states ! i else ''undefined'')"

fun index_from :: "string list \<Rightarrow> string \<Rightarrow> int \<Rightarrow> int" where
  "index_from [] r i = - 1"
| "index_from (s # ss) r i = (if s = r then i else index_from ss r (i + 1))"

definition indexOf :: "string list \<Rightarrow> string \<Rightarrow> int" where
  "indexOf ss r = index_from ss r 0"

record history_entry =
  he_dataPoints :: nat
  he_iterations :: nat
  he_finalLikelihood :: jsnum
  he_convergence :: bool

text \<open>
  The fields of an \<open>HMMAnalyzer\<close>. A matrix is the list of its rows; the matrices and
  \<open>initialProbs\<close>, \<open>null\<close> in a new analyzer, are then the empty list: they are read
  only after \<open>initializeParameters\<close> has set them.
\<close>

record hmm =
  transitionMatrix :: "jsnum list list"
  emissionMatrix :: "jsnum list list"
  initialProbs :: "jsnum list"
  numSymbols :: nat
  clusterCenters :: "jsnum list list"
  isTrained :: bool
  trainingHistory :: "history_entry list"

definition new_hmm :: hmm where
  "new_hmm = \<lparr>transitionMatrix = [], emissionMatrix = [], initialProbs = [],
     numSymbols = 0, clusterCenters = [], isTrained = False, trainingHistory = []\<rparr>"

text \<open>\<open>m.get(i, j)\<close> of ml-matrix is \<open>m.data[i][j]\<close>: beyond the row's last column
  it is \<open>undefined\<close>. Every row index of the model is a loop index below the number
  of rows.\<close>

definition mget :: "jsnum list list \<Rightarrow> nat \<Rightarrow> nat \<Rightarrow> jsnum" where
  "mget m i j = aget (m ! i) (int j)"

text \<open>\<open>let s = 0; for (let i = 0; i < n; i++) s += f(i)\<close>.\<close>

definition sum_loop :: "nat \<Rightarrow> (nat \<Rightarrow> jsnum) \<Rightarrow> jsnum" where
  "sum_loop n f = foldl (\<lambda>s i. jadd s (f i)) (Fin 0) [0..<n]"

subsection \<open>Feature extraction\<close>

record feature =
  meanReturn :: jsnum
  returnVolatility :: jsnum
  returnSkewness :: jsnum
  returnKurtosis :: jsnum
  priceChange :: jsnum
  priceVolatility :: jsnum
  volumeRatio :: jsnum
  volumeVolatility :: jsnum
  highLowRatio :: jsnum
  averageRange :: jsnum
  momentum :: jsnum
  rsi :: jsnum
  f_timestamp :: int

text \<open>The simple returns \<open>(closes[j] - closes[j-1]) / closes[j-1]\<close> for
  \<open>j = 1, ..., closes.length - 1\<close>.\<close>

definition simple_returns :: "jsnum list \<Rightarrow> jsnum list" where
  "simple_returns closes =
     map (\<lambda>j. jdiv (jsub (aget closes (int j)) (aget closes (int j - 1)))
                    (aget closes (int j - 1)))
         [1..<length closes]"

definition calculateSkewness :: "jsnum list \<Rightarrow> error + jsnum" where
  "calculateSkewness xs =
     ebind (ss_mean xs) (\<lambda>mean.
     ebind (ss_standardDeviation xs) (\<lambda>std.
       Inr (jdiv (foldl (\<lambda>s x. jadd s (jpow (jdiv (jsub x mean) std) 3)) (Fin 0) xs)
                 (Fin (real (length xs))))))"

definition calculateKurtosis :: "jsnum list \<Rightarrow> error + jsnum" where
  "calculateKurtosis xs =
     ebind (ss_mean xs) (\<lambda>mean.
     ebind (ss_standardDeviation xs) (\<lambda>std.
       Inr (jsub (jdiv (foldl (\<lambda>s x. jadd s (jpow (jdiv (jsub x mean) std) 4)) (Fin 0) xs)
                       (Fin (real (length xs))))
                 (Fin 3))))"

text \<open>\<open>calculateMomentum(prices)\<close> of the HMM analyzer, with its period
  \<open>Math.min(10, prices.length - 1)\<close>.\<close>

definition hmm_calculateMomentum :: "jsnum list \<Rightarrow> jsnum" where
  "hmm_calculateMomentum prices =
     (let n = int (length prices); period = min 10 (n - 1)
      in if n < period + 1 then Fin 0
         else jdiv (jsub (aget prices (n - 1)) (aget prices (n - 1 - period)))
                   (aget prices (n - 1 - period)))"

text \<open>\<open>calculateSimpleRSI(prices, period = 14)\<close>: the pairs of gain and loss for
  \<open>i = 1, ..., period\<close>.\<close>

definition rsi_change :: "jsnum list \<Rightarrow> nat \<Rightarrow> jsnum" where
  "rsi_change prices i =
     jsub (aget prices (int (length prices) - int i))
          (aget prices (int (length prices) - int i - 1))"

definition calculateSimpleRSI :: "jsnum list \<Rightarrow> error + jsnum" where
  "calculateSimpleRSI prices =
     (let period = 14 in
      if length prices < period + 1 then Inr (Fin 50)
      else
        let changes = map (rsi_change prices) [1..<period + 1];
            gains = map (\<lambda>c. if jgt c (Fin 0) then c else Fin 0) changes;
            losses = map (\<lambda>c. if jgt c (Fin 0) then Fin 0 else jneg c) changes
        in ebind (ss_mean gains) (\<lambda>avgGain.
           ebind (ss_mean losses) (\<lambda>avgLoss.
             if avgLoss = Fin 0 then Inr (Fin 100)
             else let rs = jdiv avgGain avgLoss
                  in Inr (jsub (Fin 100) (jdiv (Fin 100) (jadd (Fin 1) rs))))))"

text \<open>The feature vector of step \<open>i\<close>, from the window
  \<open>priceData.slice(i - windowSize, i)\<close>.\<close>

definition feature_at :: "candle list \<Rightarrow> nat \<Rightarrow> error + feature" where
  "feature_at priceData i =
     (let window = take windowSize (drop (i - windowSize) priceData);
          closes = map (\<lambda>d. Fin (close d)) window;
          volumes = map (\<lambda>d. Fin (volume d)) window;
          highs = map (\<lambda>d. Fin (high d)) window;
          lows = map (\<lambda>d. Fin (low d)) window;
          returns = simple_returns closes;
          n = int (length window)
      in ebind (ss_mean returns) (\<lambda>mr.
         ebind (ss_standardDeviation returns) (\<lambda>rv.
         ebind (calculateSkewness returns) (\<lambda>sk.
         ebind (calculateKurtosis returns) (\<lambda>ku.
         ebind (ss_standardDeviation closes) (\<lambda>sdc.
         ebind (ss_mean closes) (\<lambda>mc.
         ebind (ss_mean volumes) (\<lambda>mv.
         ebind (ss_standardDeviation volumes) (\<lambda>sdv.
         ebind (ss_mean volumes) (\<lambda>mv2.
         ebind (ss_mean (map (\<lambda>idx. jdiv (jsub (aget highs (int idx)) (aget lows (int idx)))
                                         (aget closes (int idx))) [0..<length highs])) (\<lambda>ar.
         ebind (calculateSimpleRSI closes) (\<lambda>r.
           Inr \<lparr>meanReturn = mr,
                returnVolatility = rv,
                returnSkewness = sk,
                returnKurtosis = ku,
                priceChange = jdiv (jsub (aget closes (n - 1)) (aget closes 0)) (aget closes 0),
                priceVolatility = jdiv sdc mc,
                volumeRatio = jdiv (aget volumes (n - 1)) mv,
                volumeVolatility = jdiv sdv mv2,
                highLowRatio = jdiv (aget highs (n - 1)) (aget lows (n - 1)),
                averageRange = ar,
                momentum = hmm_calculateMomentum closes,
                rsi = r,
                f_timestamp = timestamp (priceData ! i)\<rparr>))))))))))))"

definition extractHMMFeatures :: "candle list \<Rightarrow> error + feature list" where
  "extractHMMFeatures priceData =
     emap (feature_at priceData) [windowSize..<length priceData]"

subsection \<open>Discretization and initialization\<close>

text \<open>
  \<open>kmeans\<close> is the clustering function of the library ml-kmeans: a parameter of the
  model. Given the points and the number of clusters it returns the centroids and one
  cluster index for each point, or throws (\<open>None\<close>).
\<close>

record kmeans_result =
  centroids :: "jsnum list list"
  clusters :: "nat list"

type_synonym kmeans = "jsnum list list \<Rightarrow> nat \<Rightarrow> kmeans_result option"

definition discretizeObservations :: "kmeans \<Rightarrow> hmm \<Rightarrow> feature list \<Rightarrow> hmm \<times> (error + nat list)" where
  "discretizeObservations km st fs =
     (let featureMatrix =
            map (\<lambda>f. [meanReturn f, returnVolatility f, priceChange f, volumeRatio f, momentum f]) fs;
          numSymbols = 8
      in case km featureMatrix numSymbols of
           None \<Rightarrow> (st, Inl KMeansError)
         | Some kmResult \<Rightarrow> (st\<lparr>clusterCenters := centroids kmResult\<rparr>, Inr (clusters kmResult)))"

text \<open>
  \<open>initializeParameters(observations)\<close>. With no observation \<open>Math.max()\<close> is
  \<open>-Infinity\<close>: the transition matrix is assigned and \<open>Matrix.ones\<close> then throws on
  the number of columns.
\<close>

definition initializeParameters :: "hmm \<Rightarrow> nat list \<Rightarrow> hmm \<times> error option" where
  "initializeParameters st observations =
     (let tm = replicate numStates
                 (replicate numStates (jmul (Fin 1) (jdiv (Fin 1) (Fin (real numStates)))))
      in if observations = [] then (st\<lparr>transitionMatrix := tm\<rparr>, Some MatrixError)
         else
           let nSym = Max (set observations) + 1
           in (st\<lparr>transitionMatrix := tm,
                   emissionMatrix := replicate numStates
                     (replicate nSym (jmul (Fin 1) (jdiv (Fin 1) (Fin (real nSym))))),
                   initialProbs := replicate numStates (jdiv (Fin 1) (Fin (real numStates))),
                   numSymbols := nSym\<rparr>, None))"

subsection \<open>Forward-backward\<close>

text \<open>Row \<open>0\<close> of \<open>alpha\<close>, and row \<open>t\<close> from row \<open>t - 1\<close> and \<open>observations[t]\<close>.\<close>

definition forward_init :: "hmm \<Rightarrow> nat \<Rightarrow> jsnum list" where
  "forward_init st ob =
     map (\<lambda>i. jmul (aget (initialProbs st) (int i)) (mget (emissionMatrix st) i ob))
         [0..<numStates]"

definition forward_step :: "hmm \<Rightarrow> jsnum list \<Rightarrow> nat \<Rightarrow> jsnum list" where
  "forward_step st prev ob =
     map (\<lambda>j. jmul (sum_loop numStates
                      (\<lambda>i. jmul (aget prev (int i)) (mget (transitionMatrix st) i j)))
                    (mget (emissionMatrix st) j ob))
         [0..<numStates]"

fun forward_pass :: "hmm \<Rightarrow> jsnum list \<Rightarrow> nat list \<Rightarrow> jsnum list list" where
  "forward_pass st prev [] = []"
| "forward_pass st prev (ob # obs) =
     (let row = forward_step st prev ob in row # forward_pass st row obs)"

definition forward_rows :: "hmm \<Rightarrow> nat list \<Rightarrow> jsnum list list" where
  "forward_rows st observations =
     (case observations of
        [] \<Rightarrow> []
      | ob # obs \<Rightarrow> (let row0 = forward_init st ob in row0 # forward_pass st row0 obs))"

text \<open>Row \<open>t\<close> of \<open>beta\<close> from row \<open>t + 1\<close> and \<open>observations[t + 1]\<close>; the last row
  is all ones.\<close>

definition backward_step :: "hmm \<Rightarrow> nat \<Rightarrow> jsnum list \<Rightarrow> jsnum list" where
  "backward_step st ob_next next =
     map (\<lambda>i. sum_loop numStates
                 (\<lambda>j. jmul (jmul (mget (transitionMatrix st) i j)
                                  (mget (emissionMatrix st) j ob_next))
                            (aget next (int j))))
         [0..<numStates]"

fun backward_rows :: "hmm \<Rightarrow> nat list \<Rightarrow> jsnum list list" where
  "backward_rows st [] = []"
| "backward_rows st [ob] = [replicate numStates (Fin 1)]"
| "backward_rows st (ob # ob' # obs) =
     (let rest = backward_rows st (ob' # obs)
      in backward_step st ob' (hd rest) # rest)"

record fb_result =
  fb_alpha :: "jsnum list list"
  fb_beta :: "jsnum list list"
  fb_likelihood :: jsnum

text \<open>\<open>forwardBackward(observations)\<close>. With no observation the matrices have no
  row and the first \<open>alpha.set(0, i, ...)\<close> throws. The entries of \<open>alpha\<close> are
  products of one probability for each observation; they are exact numbers here,
  while the doubles of the code underflow to \<open>0\<close> on a sequence of some hundreds of
  observations, after which the likelihood is \<open>0\<close> and the re-estimated parameters
  are \<open>NaN\<close>.\<close>

definition forwardBackward :: "hmm \<Rightarrow> nat list \<Rightarrow> error + fb_result" where
  "forwardBackward st observations =
     (if observations = [] then Inl MatrixError
      else
        let T = length observations;
            alpha = forward_rows st observations;
            beta = backward_rows st observations;
            likelihood = sum_loop numStates (\<lambda>i. mget alpha (T - 1) i)
        in Inr \<lparr>fb_alpha = alpha, fb_beta = beta, fb_likelihood = jlog likelihood\<rparr>)"

subsection \<open>Re-estimation\<close>

definition gamma_rows :: "nat \<Rightarrow> jsnum list list \<Rightarrow> jsnum list list \<Rightarrow> jsnum list list" where
  "gamma_rows T alpha beta =
     map (\<lambda>t. let normalizer = sum_loop numStates (\<lambda>i. jmul (mget alpha t i) (mget beta t i))
              in map (\<lambda>i. jdiv (jmul (mget alpha t i) (mget beta t i)) normalizer)
                     [0..<numStates])
         [0..<T]"

definition xi :: "hmm \<Rightarrow> nat list \<Rightarrow> jsnum list list \<Rightarrow> jsnum list list \<Rightarrow> nat \<Rightarrow> nat \<Rightarrow> nat \<Rightarrow> jsnum" where
  "xi st observations alpha beta i j t =
     jdiv (jmul (jmul (jmul (mget alpha t i) (mget (transitionMatrix st) i j))
                      (mget (emissionMatrix st) j (observations ! (t + 1))))
                (mget beta (t + 1) j))
          (jmul (mget alpha t i) (mget beta t i))"

text \<open>
  \<open>updateParameters(observations, alpha, beta)\<close>. Each entry of the transition matrix
  is read before it is written and the emission matrix is written last, so the new
  matrices are functions of the old ones.
\<close>

definition updateParameters :: "hmm \<Rightarrow> nat list \<Rightarrow> jsnum list list \<Rightarrow> jsnum list list \<Rightarrow> hmm" where
  "updateParameters st observations alpha beta =
     (let T = length observations;
          N = numStates;
          gamma = gamma_rows T alpha beta;
          newInitial = map (\<lambda>i. mget gamma 0 i) [0..<N];
          newTransition =
            map (\<lambda>i. let denominator = sum_loop (T - 1) (\<lambda>t. mget gamma t i)
                     in map (\<lambda>j. let numerator = sum_loop (T - 1) (xi st observations alpha beta i j)
                                  in jdiv numerator denominator)
                            [0..<N])
                [0..<N];
          newEmission =
            map (\<lambda>i. let denominator = sum_loop T (\<lambda>t. mget gamma t i)
                     in map (\<lambda>k. let numerator =
                                        foldl (\<lambda>s t. if observations ! t = k
                                                      then jadd s (mget gamma t i) else s)
                                              (Fin 0) [0..<T]
                                  in jdiv numerator denominator)
                            [0..<numSymbols st])
                [0..<N]
      in st\<lparr>initialProbs := newInitial,
            transitionMatrix := newTransition,
            emissionMatrix := newEmission\<rparr>)"

subsection \<open>Baum-Welch training\<close>

record bw_result =
  bw_iterations :: nat
  bw_likelihood :: jsnum
  bw_converged :: bool

text \<open>
  The loop of \<open>baumWelchTraining\<close>, entered at \<open>iteration\<close> with the likelihood of
  the iteration before in \<open>prevLikelihood\<close>. It returns the analyzer as the loop has
  left it.
\<close>

function bw_loop :: "hmm \<Rightarrow> nat list \<Rightarrow> jsnum \<Rightarrow> nat \<Rightarrow> hmm \<times> (error + bw_result)" where
  "bw_loop st observations prevLikelihood iteration =
     (if iteration < maxIterations then
        (case forwardBackward st observations of
           Inl e \<Rightarrow> (st, Inl e)
         | Inr fb \<Rightarrow>
             let st' = updateParameters st observations (fb_alpha fb) (fb_beta fb);
                 likelihood = fb_likelihood fb
             in if jlt (jabs (jsub likelihood prevLikelihood)) convergenceThreshold
                then (st', Inr \<lparr>bw_iterations = iteration + 1, bw_likelihood = likelihood,
                                bw_converged = True\<rparr>)
                else bw_loop st' observations likelihood (iteration + 1))
      else (st, Inr \<lparr>bw_iterations = iteration, bw_likelihood = prevLikelihood,
                     bw_converged = False\<rparr>))"
  by pat_completeness auto
termination
  by (relation "measure (\<lambda>(st, obs, prev, it). maxIterations - it)") auto

definition baumWelchTraining :: "hmm \<Rightarrow> nat list \<Rightarrow> hmm \<times> (error + bw_result)" where
  "baumWelchTraining st observations = bw_loop st observations NInf 0"

record train_result =
  tr_success :: bool
  tr_iterations :: nat
  tr_likelihood :: jsnum
  tr_converged :: bool
  tr_states :: "string list"

text \<open>\<open>trainModel(priceData)\<close>: the analyzer after the call, and what the call
  returns or throws.\<close>

definition trainModel :: "kmeans \<Rightarrow> hmm \<Rightarrow> candle list \<Rightarrow> hmm \<times> (error + train_result)" where
  "trainModel km st priceData =
     (if length priceData < minTrainingData
      then (st, Inl (InsufficientData minTrainingData (length priceData)))
      else
        case extractHMMFeatures priceData of
          Inl e \<Rightarrow> (st, Inl e)
        | Inr fs \<Rightarrow>
            (case discretizeObservations km st fs of
               (st1, Inl e) \<Rightarrow> (st1, Inl e)
             | (st1, Inr observations) \<Rightarrow>
                 (case initializeParameters st1 observations of
                    (st2, Some e) \<Rightarrow> (st2, Inl e)
                  | (st2, None) \<Rightarrow>
                      (case baumWelchTraining st2 observations of
                         (st3, Inl e) \<Rightarrow> (st3, Inl e)
                       | (st3, Inr trainingResult) \<Rightarrow>
                           (st3\<lparr>isTrained := True,
                                trainingHistory := trainingHistory st3 @
                                  [\<lparr>he_dataPoints = length priceData,
                                    he_iterations = bw_iterations trainingResult,
                                    he_finalLikelihood = bw_likelihood trainingResult,
                                    he_convergence = bw_converged trainingResult\<rparr>]\<rparr>,
                            Inr \<lparr>tr_success = True,
                                 tr_iterations = bw_iterations trainingResult,
                                 tr_likelihood = bw_likelihood trainingResult,
                                 tr_converged = bw_converged trainingResult,
                                 tr_states = states\<rparr>)))))"

subsection \<open>Viterbi decoding\<close>

text \<open>\<open>let maxValue = -Infinity; let maxIndex = 0; for (i ...) if (f(i) > maxValue)
  \<open>{ maxValue = f(i); maxIndex = i }\<close>\<close>.\<close>

definition argmax_loop :: "nat \<Rightarrow> (nat \<Rightarrow> jsnum) \<Rightarrow> jsnum \<times> nat" where
  "argmax_loop n f =
     foldl (\<lambda>(maxValue, maxIndex) i. if jgt (f i) maxValue then (f i, i) else (maxValue, maxIndex))
           (NInf, 0) [0..<n]"

definition viterbi_init :: "hmm \<Rightarrow> nat \<Rightarrow> jsnum list" where
  "viterbi_init st ob =
     map (\<lambda>i. jadd (jlog (aget (initialProbs st) (int i)))
                    (jlog (mget (emissionMatrix st) i ob)))
         [0..<numStates]"

text \<open>Row \<open>t\<close> of \<open>delta\<close> and of \<open>psi\<close> from row \<open>t - 1\<close> of \<open>delta\<close>.\<close>

definition viterbi_step :: "hmm \<Rightarrow> jsnum list \<Rightarrow> nat \<Rightarrow> jsnum list \<times> nat list" where
  "viterbi_step st prev ob =
     (let best = (\<lambda>j. argmax_loop numStates
                        (\<lambda>i. jadd (aget prev (int i)) (jlog (mget (transitionMatrix st) i j))))
      in (map (\<lambda>j. jadd (fst (best j)) (jlog (mget (emissionMatrix st) j ob))) [0..<numStates],
          map (\<lambda>j. snd (best j)) [0..<numStates]))"

text \<open>The last row of \<open>delta\<close> and the rows \<open>1, ..., T - 1\<close> of \<open>psi\<close>, the latest
  first.\<close>

fun viterbi_pass :: "hmm \<Rightarrow> jsnum list \<Rightarrow> nat list list \<Rightarrow> nat list \<Rightarrow> jsnum list \<times> nat list list" where
  "viterbi_pass st prev psis [] = (prev, psis)"
| "viterbi_pass st prev psis (ob # obs) =
     (let (row, psi) = viterbi_step st prev ob in viterbi_pass st row (psi # psis) obs)"

text \<open>The traceback \<open>stateSequence[t] = psi.get(t + 1, stateSequence[t + 1])\<close>: every
  entry of \<open>psi\<close> is a loop index below \<open>numStates\<close>.\<close>

fun traceback :: "nat list list \<Rightarrow> nat \<Rightarrow> nat list \<Rightarrow> nat list" where
  "traceback [] s acc = s # acc"
| "traceback (psi # psis) s acc = traceback psis (psi ! s) (s # acc)"

definition viterbiDecode :: "hmm \<Rightarrow> nat list \<Rightarrow> error + nat list" where
  "viterbiDecode st observations =
     (case observations of
        [] \<Rightarrow> Inl MatrixError
      | ob # obs \<Rightarrow>
          let (lastDelta, psis) = viterbi_pass st (viterbi_init st ob) [] obs;
              maxIndex = snd (argmax_loop numStates (\<lambda>i. aget lastDelta (int i)))
          in Inr (traceback psis maxIndex []))"

subsection \<open>Prediction\<close>

definition calculateStateProbabilities :: "hmm \<Rightarrow> nat list \<Rightarrow> error + jsnum list list" where
  "calculateStateProbabilities st observations =
     ebind (forwardBackward st observations) (\<lambda>fb.
       let alpha = fb_alpha fb
       in Inr (map (\<lambda>t. let normalizer = sum_loop numStates (\<lambda>i. mget alpha t i)
                         in map (\<lambda>i. jdiv (mget alpha t i) normalizer) [0..<numStates])
                   [0..<length observations]))"

definition predictNextState :: "hmm \<Rightarrow> nat \<Rightarrow> jsnum list" where
  "predictNextState st currentState =
     map (\<lambda>i. mget (transitionMatrix st) currentState i) [0..<numStates]"

record persistence =
  consecutivePeriods :: nat
  expectedDuration :: jsnum
  probabilityOfContinuation :: jsnum
  stabilityScore :: jsnum

definition calculateRegimePersistence :: "hmm \<Rightarrow> nat list \<Rightarrow> persistence" where
  "calculateRegimePersistence st stateSequence =
     (let currentState = last stateSequence;
          consecutive = length (takeWhile (\<lambda>s. s = currentState) (rev stateSequence));
          selfTransitionProb = mget (transitionMatrix st) currentState currentState;
          expected = jdiv (Fin 1) (jsub (Fin 1) selfTransitionProb)
      in \<lparr>consecutivePeriods = consecutive,
          expectedDuration = expected,
          probabilityOfContinuation = selfTransitionProb,
          stabilityScore = jdiv (Fin (real consecutive)) expected\<rparr>)"

record recommendation =
  rec_regime :: string
  rec_confidence :: jsnum
  action :: string
  reasoning :: string
  riskLevel :: string
  positionSizing :: string

definition generateRegimeBasedRecommendation :: "int \<Rightarrow> jsnum list \<Rightarrow> recommendation" where
  "generateRegimeBasedRecommendation currentState stateProbs =
     (let regimeName = (if 0 \<le> currentState then state_name (nat currentState) else ''undefined'');
          conf = aget stateProbs currentState;
          r = \<lparr>rec_regime = regimeName, rec_confidence = conf, action = ''HOLD'',
               reasoning = '''', riskLevel = ''MEDIUM'', positionSizing = ''NORMAL''\<rparr>
      in if regimeName = ''BULL'' then
           r\<lparr>action := (if jgt conf (Fin (7 / 10)) then ''BUY'' else ''WEAK_BUY''),
             reasoning := ''Bull market regime detected - favorable for long positions'',
             riskLevel := ''LOW'',
             positionSizing := (if jgt conf (Fin (8 / 10)) then ''LARGE'' else ''NORMAL'')\<rparr>
         else if regimeName = ''BEAR'' then
           r\<lparr>action := (if jgt conf (Fin (7 / 10)) then ''SELL'' else ''WEAK_SELL''),
             reasoning := ''Bear market regime detected - avoid long positions'',
             riskLevel := ''HIGH'',
             positionSizing := ''SMALL''\<rparr>
         else if regimeName = ''SIDEWAYS'' then
           r\<lparr>action := ''HOLD'',
             reasoning := ''Sideways/consolidation regime - wait for breakout'',
             riskLevel := ''MEDIUM'',
             positionSizing := ''SMALL''\<rparr>
         else if regimeName = ''HIGH_VOLATILITY'' then
           r\<lparr>action := ''CAUTION'',
             reasoning := ''High volatility regime - reduce position sizes'',
             riskLevel := ''VERY_HIGH'',
             positionSizing := ''MINIMAL''\<rparr>
         else r)"

text \<open>
  What \<open>predictMarketRegime\<close> returns. The heuristic classification has the fields
  \<open>currentRegime\<close>, \<open>confidence\<close>, \<open>stateProbabilities\<close>, \<open>method\<close> and
  \<open>recommendation\<close> only; the trained path has no \<open>method\<close> (the field
  \<open>pr_method\<close>). An object from regime to
  probability is the list of its entries.
\<close>

record prediction =
  currentRegime :: string
  confidence :: jsnum
  stateProbabilities :: "(string \<times> jsnum) list"
  nextStateProbabilities :: "(string \<times> jsnum) list option"
  persistence :: "persistence option"
  stateSequence :: "string list option"
  features :: "feature list option"
  pr_method :: "string option"
  recommendation :: recommendation

definition heuristicClassification :: "candle list \<Rightarrow> error + prediction" where
  "heuristicClassification recentData =
     (let closes = map (\<lambda>d. Fin (close d)) recentData;
          returns = simple_returns closes
      in ebind (ss_mean returns) (\<lambda>avgReturn.
         ebind (ss_standardDeviation returns) (\<lambda>volatility.
           let pc = jdiv (jsub (aget closes (int (length closes) - 1)) (aget closes 0))
                         (aget closes 0);
               (regime, conf) =
                 (if jgt avgReturn (Fin (1 / 100)) \<and> jgt pc (Fin (5 / 100))
                  then (''BULL'', Fin (7 / 10))
                  else if jlt avgReturn (Fin (- (1 / 100))) \<and> jlt pc (Fin (- (5 / 100)))
                  then (''BEAR'', Fin (7 / 10))
                  else if jgt volatility (Fin (5 / 100))
                  then (''HIGH_VOLATILITY'', Fin (8 / 10))
                  else (''SIDEWAYS'', Fin (6 / 10)))
           in Inr \<lparr>currentRegime = regime,
                   confidence = conf,
                   stateProbabilities = [(regime, conf)],
                   nextStateProbabilities = None,
                   persistence = None,
                   stateSequence = None,
                   features = None,
                   pr_method = Some ''HEURISTIC'',
                   recommendation =
                     generateRegimeBasedRecommendation (indexOf states regime)
                       (map (\<lambda>s. if s = regime then conf
                                  else jdiv (jsub (Fin 1) conf) (Fin 3)) states)\<rparr>)))"

text \<open>The body of the \<open>try\<close> of \<open>predictMarketRegime\<close> behind the test of
  \<open>isTrained\<close>: the analyzer it leaves, and what it returns or throws.\<close>

definition trained_prediction :: "kmeans \<Rightarrow> hmm \<Rightarrow> candle list \<Rightarrow> hmm \<times> (error + prediction)" where
  "trained_prediction km st recentData =
     (case extractHMMFeatures recentData of
        Inl e \<Rightarrow> (st, Inl e)
      | Inr fs \<Rightarrow>
          (case discretizeObservations km st fs of
             (st1, Inl e) \<Rightarrow> (st1, Inl e)
           | (st1, Inr observations) \<Rightarrow>
               (st1,
                ebind (viterbiDecode st1 observations) (\<lambda>sseq.
                ebind (calculateStateProbabilities st1 observations) (\<lambda>stateProbs.
                  let currentState = last sseq;
                      lastProbs = last stateProbs;
                      nextStateProbs = predictNextState st1 currentState
                  in Inr \<lparr>currentRegime = state_name currentState,
                          confidence = jmax_list lastProbs,
                          stateProbabilities =
                            map (\<lambda>i. (states ! i, aget lastProbs (int i))) [0..<length states],
                          nextStateProbabilities =
                            Some (map (\<lambda>i. (states ! i, aget nextStateProbs (int i)))
                                      [0..<length states]),
                          persistence = Some (calculateRegimePersistence st1 sseq),
                          stateSequence = Some (map state_name (slice_last 10 sseq)),
                          features = Some (slice_last 5 fs),
                          pr_method = None,
                          recommendation =
                            generateRegimeBasedRecommendation (int currentState) lastProbs\<rparr>)))))"

text \<open>\<open>predictMarketRegime(recentData)\<close>: an error of the \<open>try\<close> body, the heuristic
  classification of the untrained analyzer included, is caught and answered by the
  heuristic classification.\<close>

definition predictMarketRegime :: "kmeans \<Rightarrow> hmm \<Rightarrow> candle list \<Rightarrow> hmm \<times> (error + prediction)" where
  "predictMarketRegime km st recentData =
     (let (st', r) = (if \<not> isTrained st then (st, heuristicClassification recentData)
                      else trained_prediction km st recentData)
      in case r of
           Inl e \<Rightarrow> (st', heuristicClassification recentData)
         | Inr p \<Rightarrow> (st', Inr p))"

section \<open>The ML technical analyzer (MLTechnicalAnalyzer)\<close>

subsection \<open>Volume features\<close>

definition calculatePVT :: "candle list \<Rightarrow> jsnum" where
  "calculatePVT data =
     foldl (\<lambda>pvt i.
              let change = jdiv (jsub (Fin (close (data ! i))) (Fin (close (data ! (i - 1)))))
                                (Fin (close (data ! (i - 1))))
              in jadd pvt (jmul change (Fin (volume (data ! i)))))
           (Fin 0) [1..<length data]"

definition calculateVWAP :: "candle list \<Rightarrow> jsnum" where
  "calculateVWAP data =
     (let (totalVolume, totalVolumePrice) =
            foldl (\<lambda>(tv, tvp) d.
                     let typicalPrice = jdiv (jadd (jadd (Fin (high d)) (Fin (low d))) (Fin (close d)))
                                             (Fin 3)
                     in (jadd tv (Fin (volume d)), jadd tvp (jmul typicalPrice (Fin (volume d)))))
                  (Fin 0, Fin 0) data
      in if jgt totalVolume (Fin 0) then jdiv totalVolumePrice totalVolume else Fin 0)"

definition calculateCorrelation :: "jsnum list \<Rightarrow> jsnum list \<Rightarrow> jsnum" where
  "calculateCorrelation x y =
     (if length x \<noteq> length y \<or> length x < 2 then Fin 0
      else
        let n = Fin (real (length x));
            sumX = reduce_sum x;
            sumY = reduce_sum y;
            sumXY = foldl (\<lambda>s i. jadd s (jmul (x ! i) (aget y (int i)))) (Fin 0) [0..<length x];
            sumXX = foldl (\<lambda>s xi. jadd s (jmul xi xi)) (Fin 0) x;
            sumYY = foldl (\<lambda>s yi. jadd s (jmul yi yi)) (Fin 0) y;
            numerator = jsub (jmul n sumXY) (jmul sumX sumY);
            denominator = jsqrt (jmul (jsub (jmul n sumXX) (jmul sumX sumX))
                                      (jsub (jmul n sumYY) (jmul sumY sumY)))
        in if denominator \<noteq> Fin 0 then jdiv numerator denominator else Fin 0)"

record volume_features =
  vf_volumeRatio :: jsnum
  vf_volumeMA :: jsnum
  vf_volumeStd :: jsnum
  vf_priceVolumeCorr :: jsnum
  vf_pvt :: jsnum
  vf_vwap :: jsnum
  vf_currentVolume :: jsnum

definition extractVolumeFeatures :: "candle list \<Rightarrow> error + volume_features" where
  "extractVolumeFeatures data =
     (let volumes = map (\<lambda>d. Fin (volume d)) data;
          prices = map (\<lambda>d. Fin (close d)) data
      in ebind (ss_mean (slice_last 20 volumes)) (\<lambda>avgVolume20.
           let currentVolume = aget volumes (int (length volumes) - 1);
               pvt = calculatePVT data;
               vwap = calculateVWAP (slice_last 20 data)
           in ebind (ss_standardDeviation (slice_last 20 volumes)) (\<lambda>sd.
                Inr \<lparr>vf_volumeRatio = jdiv currentVolume avgVolume20,
                     vf_volumeMA = avgVolume20,
                     vf_volumeStd = sd,
                     vf_priceVolumeCorr =
                       calculateCorrelation (slice_last 20 prices) (slice_last 20 volumes),
                     vf_pvt = pvt,
                     vf_vwap = vwap,
                     vf_currentVolume = currentVolume\<rparr>)))"

subsection \<open>The multi-timeframe aggregator\<close>

text \<open>\<open>identifyTrend(data)\<close>: the averages of the first and of the last five closes,
  and their relative change against \<open>0.02\<close>, each operation on doubles.\<close>

definition identifyTrend :: "candle list \<Rightarrow> string" where
  "identifyTrend data =
     (if length data < 10 then ''NEUTRAL''
      else
        let closes = map (\<lambda>d. Fin (close d)) data;
            first5 = ddiv (reduce_dsum (take 5 closes)) (Fin 5);
            last5 = ddiv (reduce_dsum (slice_last 5 closes)) (Fin 5);
            change = ddiv (dsub last5 first5) first5
        in if jgt change (dbl (2 / 100)) then ''BULLISH''
           else if jlt change (jneg (dbl (2 / 100))) then ''BEARISH''
           else ''NEUTRAL'')"

text \<open>\<open>calculateMomentum(prices, period)\<close> of the ML technical analyzer.\<close>

definition calculateMomentum :: "jsnum list \<Rightarrow> nat \<Rightarrow> jsnum" where
  "calculateMomentum prices period =
     (if length prices < period + 1 then Fin 0
      else
        let n = int (length prices)
        in ddiv (dsub (aget prices (n - 1)) (aget prices (n - 1 - int period)))
                (aget prices (n - 1 - int period)))"

definition calculateTrendStrength :: "candle list \<Rightarrow> jsnum" where
  "calculateTrendStrength data = Fin (5 / 10)"

text \<open>The price data of one timeframe, \<open>priceData[tf]\<close>; its \<open>data\<close> may be
  \<open>null\<close>. The result of one timeframe, without its empty volume profile.\<close>

record tf_series =
  success :: bool
  data :: "candle list option"

record tf_result =
  tf_trend :: string
  tf_momentum :: jsnum
  tf_strength :: jsnum

record mtf_analysis =
  individual :: "(string \<times> tf_result) list"
  consensus :: string
  mtf_strength :: jsnum
  alignment :: string

definition timeframes :: "string list" where
  "timeframes = [''5m'', ''15m'', ''1h'', ''4h'', ''1d'']"

text \<open>The entry that the loop over the timeframes adds to \<open>results\<close> for \<open>tf\<close>,
  if any.\<close>

definition tf_entry :: "(string \<rightharpoonup> tf_series) \<Rightarrow> string \<Rightarrow> (string \<times> tf_result) list" where
  "tf_entry priceData tf =
     (case priceData tf of
        None \<Rightarrow> []
      | Some s \<Rightarrow>
          if success s then
            (case data s of
               None \<Rightarrow> []
             | Some d \<Rightarrow>
                 if 20 \<le> length d then
                   [(tf, \<lparr>tf_trend = identifyTrend d,
                          tf_momentum = calculateMomentum (map (\<lambda>c. Fin (close c)) d) 10,
                          tf_strength = calculateTrendStrength d\<rparr>)]
                 else [])
          else [])"

definition analyzeMultiTimeframe :: "(string \<rightharpoonup> tf_series) \<Rightarrow> mtf_analysis" where
  "analyzeMultiTimeframe priceData =
     (let results = concat (map (tf_entry priceData) timeframes);
          trends = map (\<lambda>r. tf_trend (snd r)) results;
          bullishCount = length (filter (\<lambda>t. t = ''BULLISH'') trends);
          bearishCount = length (filter (\<lambda>t. t = ''BEARISH'') trends);
          cons = (if bearishCount + 2 \<le> bullishCount then ''BULLISH''
                  else if bullishCount + 2 \<le> bearishCount then ''BEARISH''
                  else ''NEUTRAL'')
      in \<lparr>individual = results,
          consensus = cons,
          mtf_strength = ddiv (jabs (dsub (Fin (real bullishCount)) (Fin (real bearishCount))))
                              (Fin (real (length timeframes))),
          alignment = (if bullishCount = 0 \<and> bearishCount = 0 then ''NEUTRAL''
                       else if bearishCount * 2 < bullishCount then ''STRONG_BULLISH''
                       else if bullishCount * 2 < bearishCount then ''STRONG_BEARISH''
                       else ''MIXED'')\<rparr>)"

subsection \<open>The signal combiner\<close>




record regime_summary =
  rs_currentRegime :: string
  rs_confidence :: jsnum

record hmm_analysis =
  regime :: "regime_summary option"








text \<open>\<open>determineOverallSignal(score, analyses)\<close>; the second argument is not read.\<close>

definition determineOverallSignal :: "jsnum \<Rightarrow> string" where
  "determineOverallSignal score =
     (if jge score (Fin 75) then ''STRONG_BUY''
      else if jge score (Fin 60) then ''BUY''
      else if jge score (Fin 55) then ''WEAK_BUY''
      else if jge score (Fin 45) then ''NEUTRAL''
      else if jge score (Fin 40) then ''WEAK_SELL''
      else if jge score (Fin 25) then ''SELL''
      else ''STRONG_SELL'')"




section \<open>Notions for the statements, and example inputs\<close>

text \<open>The averages of the first five and of the last five closes of a series, as
  exact numbers.\<close>

definition first5_average :: "candle list \<Rightarrow> real" where
  "first5_average cs = sum_list (map close (take 5 cs)) / 5"

definition last5_average :: "candle list \<Rightarrow> real" where
  "last5_average cs = sum_list (map close (slice_last 5 cs)) / 5"

text \<open>The series with which a timeframe takes part in the consensus: the timeframe
  is in the price data, was fetched with success, and has at least 20 candles. The
  timeframes that take part, each with the trend of its series; and how many of them
  have a given trend.\<close>

definition reported_series :: "(string \<rightharpoonup> tf_series) \<Rightarrow> string \<Rightarrow> candle list option" where
  "reported_series pd tf =
     (case pd tf of
        None \<Rightarrow> None
      | Some s \<Rightarrow>
          if success s then
            (case data s of
               None \<Rightarrow> None
             | Some d \<Rightarrow> if 20 \<le> length d then Some d else None)
          else None)"

definition reported_trends :: "(string \<rightharpoonup> tf_series) \<Rightarrow> (string \<times> string) list" where
  "reported_trends pd =
     List.map_filter (\<lambda>tf. map_option (\<lambda>d. (tf, identifyTrend d)) (reported_series pd tf))
       [''5m'', ''15m'', ''1h'', ''4h'', ''1d'']"

definition count_trend :: "string \<Rightarrow> (string \<rightharpoonup> tf_series) \<Rightarrow> nat" where
  "count_trend t pd = length (filter (\<lambda>e. snd e = t) (reported_trends pd))"

text \<open>A candle with all prices equal and volume \<open>v\<close>.\<close>

definition flat_candle :: "real \<Rightarrow> real \<Rightarrow> candle" where
  "flat_candle c v = \<lparr>timestamp = 0, c_open = c, high = c, low = c, close = c, volume = v\<rparr>"

text \<open>A series of 20 candles that closes at 100 fifteen times and then at 110, and
  price data with this series in every timeframe.\<close>

definition rising_series :: "candle list" where
  "rising_series = replicate 15 (flat_candle 100 1) @ replicate 5 (flat_candle 110 1)"

definition rising_priceData :: "string \<rightharpoonup> tf_series" where
  "rising_priceData = (\<lambda>tf. Some \<lparr>success = True, data = Some rising_series\<rparr>)"

text \<open>Price data with the rising series in the timeframe \<open>1h\<close> and no other
  timeframe.\<close>

definition one_timeframe_priceData :: "string \<rightharpoonup> tf_series" where
  "one_timeframe_priceData =
     (\<lambda>tf. if tf = ''1h'' then Some \<lparr>success = True, data = Some rising_series\<rparr> else None)"

text \<open>Three series of ten candles. The first closes five times at 30, then four times
  at 30.5 and once at 31: the last five closes average 30.6, which is 2 percent above
  30. The second closes five times at \<open>2^1023\<close> and five times at \<open>1.5 * 2^1023\<close>,
  the third nine times at \<open>2^-1074\<close>, the least positive double, and once at twice
  that. All these closes are doubles.\<close>

definition boundary_series :: "candle list" where
  "boundary_series =
     map (\<lambda>c. flat_candle c 1) [30, 30, 30, 30, 30, 61 / 2, 61 / 2, 61 / 2, 61 / 2, 31]"

definition overflow_series :: "candle list" where
  "overflow_series =
     map (\<lambda>c. flat_candle c 1)
       [2 ^ 1023, 2 ^ 1023, 2 ^ 1023, 2 ^ 1023, 2 ^ 1023,
        3 * 2 ^ 1022, 3 * 2 ^ 1022, 3 * 2 ^ 1022, 3 * 2 ^ 1022, 3 * 2 ^ 1022]"

definition underflow_series :: "candle list" where
  "underflow_series =
     map (\<lambda>c. flat_candle c 1)
       [1 / 2 ^ 1074, 1 / 2 ^ 1074, 1 / 2 ^ 1074, 1 / 2 ^ 1074, 1 / 2 ^ 1074,
        1 / 2 ^ 1074, 1 / 2 ^ 1074, 1 / 2 ^ 1074, 1 / 2 ^ 1074, 2 * (1 / 2 ^ 1074)]"

text \<open>A clustering function for the examples: it throws when there are fewer points
  than clusters, and otherwise labels the points in turn.\<close>

definition km0 :: kmeans where
  "km0 points k =
     (if length points < k then None
      else Some \<lparr>centroids = take k points,
                 clusters = map (\<lambda>i. i mod k) [0..<length points]\<rparr>)"


text \<open>A series of 100 candles without any traded volume, and the analyzer after a
  training on 100 candles with volume.\<close>

definition zero_volume_series :: "candle list" where
  "zero_volume_series = replicate 100 (flat_candle 1 0)"

definition trained_example :: hmm where
  "trained_example = fst (trainModel km0 new_hmm (replicate 100 (flat_candle 1 1)))"

subsection \<open>Notions for the training\<close>

text \<open>An analyzer whose parameters do not depend on the state: every initial
  probability is \<open>p\<close>, every transition probability \<open>a\<close>, and every state emits
  symbol \<open>k\<close> with probability \<open>e ! k\<close>.\<close>

definition sym_hmm :: "hmm \<Rightarrow> real \<Rightarrow> real \<Rightarrow> real list \<Rightarrow> bool" where
  "sym_hmm st p a e =
     (initialProbs st = replicate numStates (Fin p) \<and>
      transitionMatrix st = replicate numStates (replicate numStates (Fin a)) \<and>
      emissionMatrix st = replicate numStates (map Fin e) \<and>
      numSymbols st = length e)"

text \<open>Every observed symbol has a positive emission probability.\<close>

definition pos_obs :: "real list \<Rightarrow> nat list \<Rightarrow> bool" where
  "pos_obs e observations = (\<forall>ob \<in> set observations. ob < length e \<and> 0 < e ! ob)"

text \<open>A row of \<open>alpha\<close> or \<open>beta\<close> with the same positive value for every state.\<close>

definition pos_row :: "jsnum list \<Rightarrow> bool" where
  "pos_row row = (\<exists>x. 0 < x \<and> row = replicate numStates (Fin x))"

text \<open>The analyzer with uniform initial probabilities, a transition matrix of ones
  and, for every state, the relative frequencies of the observed symbols as emission
  probabilities.\<close>

definition reestimated :: "hmm \<Rightarrow> nat list \<Rightarrow> hmm" where
  "reestimated st observations =
     st\<lparr>initialProbs := replicate numStates (Fin (1 / real numStates)),
        transitionMatrix := replicate numStates (replicate numStates (Fin 1)),
        emissionMatrix := replicate numStates
          (map (\<lambda>k. Fin (real (length (filter (\<lambda>t. observations ! t = k) [0..<length observations]))
                          / real (length observations)))
               [0..<numSymbols st])\<rparr>"

text \<open>The analyzer after \<open>k\<close> re-estimations on the observations, the
  log-likelihood that iteration \<open>k\<close> (counted from 0) computes, and what it means
  that two successive log-likelihoods differ by less than \<open>1e-6\<close> at iteration
  \<open>k\<close>: the log-likelihood of iteration \<open>k\<close> is compared with that of the
  iteration before, so there is no such pair at iteration 0. The bound is written
  out here; that the loop tests against the same bound is part of what is proved.\<close>

fun bw_state :: "hmm \<Rightarrow> nat list \<Rightarrow> nat \<Rightarrow> hmm" where
  "bw_state st observations 0 = st"
| "bw_state st observations (Suc k) =
     (case forwardBackward (bw_state st observations k) observations of
        Inl e \<Rightarrow> bw_state st observations k
      | Inr fb \<Rightarrow> updateParameters (bw_state st observations k) observations
                   (fb_alpha fb) (fb_beta fb))"


definition bw_lik :: "hmm \<Rightarrow> nat list \<Rightarrow> nat \<Rightarrow> jsnum" where
  "bw_lik st observations k =
     (case forwardBackward (bw_state st observations k) observations of
        Inl e \<Rightarrow> NaN
      | Inr fb \<Rightarrow> fb_likelihood fb)"


definition successive_close :: "hmm \<Rightarrow> nat list \<Rightarrow> nat \<Rightarrow> bool" where
  "successive_close st observations k =
     (0 < k \<and> jlt (jabs (jsub (bw_lik st observations k) (bw_lik st observations (k - 1))))
                  (Fin (1 / 1000000)))"

text \<open>The clustering returns one cluster index for each point.\<close>

definition labels_every_point :: "kmeans \<Rightarrow> bool" where
  "labels_every_point km =
     (\<forall>points k r. km points k = Some r \<longrightarrow> length (clusters r) = length points)"

text \<open>A sequence of 80 observations that takes the eight symbols in turn.\<close>

definition example_observations :: "nat list" where
  "example_observations = map (\<lambda>i. i mod 8) [0..<80]"

text \<open>\<open>Number.isFinite\<close>: neither \<open>NaN\<close> nor an infinity.\<close>

definition isFinite :: "jsnum \<Rightarrow> bool" where
  "isFinite x = (case x of Fin r \<Rightarrow> True | _ \<Rightarrow> False)"

section \<open>Basic facts\<close>

lemma ebind_Inr [simp]: "ebind (Inr x) f = f x"
  by (simp add: ebind_def)

lemma ebind_Inl [simp]: "ebind (Inl e) f = Inl e"
  by (simp add: ebind_def)

lemma foldl_jadd_Fin: "foldl jadd (Fin a) (map Fin xs) = Fin (a + sum_list xs)"
  by (induction xs arbitrary: a) (simp_all add: add.assoc)

lemma reduce_sum_Fin: "reduce_sum (map Fin xs) = Fin (sum_list xs)"
  by (simp add: reduce_sum_def foldl_jadd_Fin)

subsection \<open>Rounding to double precision\<close>

text \<open>Rounding moves a number by at most half a unit of its last place: by a
  relative \<open>2^-53\<close> in the normal range, by \<open>2^-1075\<close> below it. It keeps the sign,
  and it keeps every number that has a significand of 53 bits.\<close>

lemma round_even_bound: "\<bar>of_int (round_even y) - y\<bar> \<le> 1 / 2"
  unfolding round_even_def Let_def by (auto simp: abs_le_iff)

lemma round_even_of_int: "round_even (of_int n) = n"
  by (simp add: round_even_def)

lemma round_even_sign: "(0 \<le> y \<longrightarrow> 0 \<le> round_even y) \<and> (y \<le> 0 \<longrightarrow> round_even y \<le> 0)"
  unfolding round_even_def Let_def by (auto; linarith)

lemma dbl_unfold:
  assumes "x \<noteq> 0"
  shows "dbl x = (let q = (2::real) powr (of_int (max \<lfloor>log 2 \<bar>x\<bar>\<rfloor> (- 1022)) - 52);
                      r = of_int (round_even (x / q)) * q
                  in if 2 ^ 1024 \<le> \<bar>r\<bar> then (if 0 < x then PInf else NInf) else Fin r)"
  using assms by (simp add: dbl_def Let_def)

lemma dbl_error:
  assumes x: "\<bar>x\<bar> \<le> 2 ^ 1023"
  shows "\<exists>y. dbl x = Fin y
             \<and> \<bar>y - x\<bar> \<le> (if 1 / 2 ^ 1022 \<le> \<bar>x\<bar> then \<bar>x\<bar> / 2 ^ 53 else 1 / 2 ^ 1075)
             \<and> (0 \<le> x \<longrightarrow> 0 \<le> y) \<and> (x \<le> 0 \<longrightarrow> y \<le> 0)"
proof (cases "x = 0")
  case True
  then show ?thesis by (simp add: dbl_def)
next
  case False
  define e where "e = max \<lfloor>log 2 \<bar>x\<bar>\<rfloor> (- 1022)"
  define q :: real where "q = 2 powr (of_int e - 52)"
  define r where "r = of_int (round_even (x / q)) * q"
  have qpos: "0 < q" by (simp add: q_def)
  have "r - x = (of_int (round_even (x / q)) - x / q) * q"
    using qpos by (simp add: r_def field_simps)
  then have "\<bar>r - x\<bar> = \<bar>of_int (round_even (x / q)) - x / q\<bar> * q"
    using qpos by (simp add: abs_mult)
  also have "\<dots> \<le> 1 / 2 * q"
    using round_even_bound[of "x / q"] qpos by (intro mult_right_mono) simp_all
  finally have le: "\<bar>r - x\<bar> \<le> q / 2" by simp
  have q2: "q / 2 \<le> (if 1 / 2 ^ 1022 \<le> \<bar>x\<bar> then \<bar>x\<bar> / 2 ^ 53 else 1 / 2 ^ 1075)"
  proof (cases "- 1022 \<le> \<lfloor>log 2 \<bar>x\<bar>\<rfloor>")
    case True
    then have e: "e = \<lfloor>log 2 \<bar>x\<bar>\<rfloor>" by (simp add: e_def)
    have "of_int e \<le> log 2 \<bar>x\<bar>" unfolding e by simp
    then have "2 powr (of_int e) \<le> 2 powr (log 2 \<bar>x\<bar>)" by simp
    then have p: "2 powr (of_int e) \<le> \<bar>x\<bar>" using False by simp
    have "real_of_int (- 1022) \<le> real_of_int e"
      using True unfolding e by (simp only: of_int_le_iff)
    then have "(2::real) powr (- 1022) \<le> 2 powr (of_int e)"
      by (intro powr_mono) simp_all
    with p have n: "1 / 2 ^ 1022 \<le> \<bar>x\<bar>" by (simp add: powr_neg_numeral)
    have "q = 2 powr (of_int e) * 2 powr (- 52)"
      unfolding q_def by (simp add: powr_add[symmetric])
    then have "q / 2 = 2 powr (of_int e) / 2 ^ 53" by (simp add: powr_neg_numeral)
    also have "\<dots> \<le> \<bar>x\<bar> / 2 ^ 53" using p by (simp add: divide_right_mono)
    finally show ?thesis using n by simp
  next
    case c: False
    then have e: "e = - 1022" by (simp add: e_def)
    have "log 2 \<bar>x\<bar> < - 1022" using c by linarith
    then have "\<bar>x\<bar> < 2 powr (- 1022)" using False by (simp add: log_less_iff)
    then have n: "\<not> 1 / 2 ^ 1022 \<le> \<bar>x\<bar>" by (simp add: powr_neg_numeral)
    have "q = 2 powr (- 1074)" unfolding q_def e by simp
    then have "q / 2 = 1 / 2 ^ 1075" by (simp add: powr_neg_numeral)
    then show ?thesis using n by simp
  qed
  have "q / 2 \<le> \<bar>x\<bar> / 2 ^ 53 + 1 / 2 ^ 1075"
    using q2 by (simp split: if_splits)
  have "\<bar>r\<bar> \<le> \<bar>x\<bar> + \<bar>r - x\<bar>" by simp
  also have "\<dots> \<le> \<bar>x\<bar> + (\<bar>x\<bar> / 2 ^ 53 + 1 / 2 ^ 1075)"
    using le \<open>q / 2 \<le> \<bar>x\<bar> / 2 ^ 53 + 1 / 2 ^ 1075\<close> by simp
  also have "\<dots> \<le> 2 ^ 1023 + (2 ^ 1023 / 2 ^ 53 + 1 / 2 ^ 1075)"
    using x by (intro add_mono divide_right_mono) simp_all
  also have "\<dots> < (2 ^ 1024 :: real)" by simp
  finally have small: "\<not> 2 ^ 1024 \<le> \<bar>r\<bar>" by simp
  have d: "dbl x = Fin r"
    using small unfolding dbl_unfold[OF \<open>x \<noteq> 0\<close>] Let_def r_def q_def e_def by simp
  have sg: "(0 \<le> x \<longrightarrow> 0 \<le> r) \<and> (x \<le> 0 \<longrightarrow> r \<le> 0)"
    using round_even_sign[of "x / q"] qpos
    by (auto simp: r_def zero_le_mult_iff mult_le_0_iff zero_le_divide_iff divide_le_0_iff)
  from d le q2 sg show ?thesis by (intro exI[of _ r]) (simp only: simp_thms, linarith)
qed

lemma dbl_bounds:
  assumes x: "\<bar>x\<bar> \<le> 2 ^ 1023"
  shows "\<exists>y. dbl x = Fin y \<and> \<bar>y - x\<bar> \<le> \<bar>x\<bar> / 2 ^ 53 + 1 / 2 ^ 1075
             \<and> (0 \<le> x \<longrightarrow> 0 \<le> y) \<and> (x \<le> 0 \<longrightarrow> y \<le> 0)"
proof -
  obtain y where y: "dbl x = Fin y"
    "\<bar>y - x\<bar> \<le> (if 1 / 2 ^ 1022 \<le> \<bar>x\<bar> then \<bar>x\<bar> / 2 ^ 53 else 1 / 2 ^ 1075)"
    "0 \<le> x \<longrightarrow> 0 \<le> y" "x \<le> 0 \<longrightarrow> y \<le> 0"
    using dbl_error[OF x] by blast
  have n: "0 \<le> \<bar>x\<bar> / 2 ^ 53" "(0::real) \<le> 1 / 2 ^ 1075" by simp_all
  have "\<bar>y - x\<bar> \<le> \<bar>x\<bar> / 2 ^ 53 + 1 / 2 ^ 1075"
  proof (cases "1 / 2 ^ 1022 \<le> \<bar>x\<bar>")
    case True
    with y(2) have "\<bar>y - x\<bar> \<le> \<bar>x\<bar> / 2 ^ 53" by (simp only: if_True)
    with n(2) show ?thesis by linarith
  next
    case False
    with y(2) have "\<bar>y - x\<bar> \<le> 1 / 2 ^ 1075" by (simp only: if_False)
    with n(1) show ?thesis by linarith
  qed
  with y(1,3,4) show ?thesis by blast
qed

lemma dbl_normal:
  assumes "1 / 2 ^ 1022 \<le> x" "x \<le> 2 ^ 1023"
  shows "\<exists>y. dbl x = Fin y \<and> x - x / 2 ^ 53 \<le> y \<and> y \<le> x + x / 2 ^ 53"
proof -
  have "(0::real) < 1 / 2 ^ 1022" by simp
  then have p: "0 < x" using assms(1) by (rule less_le_trans)
  then have a: "\<bar>x\<bar> = x" by simp
  have "\<bar>x\<bar> \<le> 2 ^ 1023" using assms(2) by (simp only: a)
  from dbl_error[OF this] obtain y where y: "dbl x = Fin y"
    "\<bar>y - x\<bar> \<le> (if 1 / 2 ^ 1022 \<le> \<bar>x\<bar> then \<bar>x\<bar> / 2 ^ 53 else 1 / 2 ^ 1075)"
    by blast
  have "1 / 2 ^ 1022 \<le> \<bar>x\<bar>" using assms(1) by (simp only: a)
  with y(2) have "\<bar>y - x\<bar> \<le> \<bar>x\<bar> / 2 ^ 53" by (simp only: if_True)
  then have "\<bar>y - x\<bar> \<le> x / 2 ^ 53" by (simp only: a)
  then have "x - x / 2 ^ 53 \<le> y \<and> y \<le> x + x / 2 ^ 53" by linarith
  with y(1) show ?thesis by blast
qed

lemma floor_log2_eq:
  assumes "2 powr (of_int e) \<le> x" "x < 2 powr (of_int e + 1)"
  shows "\<lfloor>log 2 x\<rfloor> = e"
proof -
  have pos: "0 < x" using assms(1) powr_gt_zero[of 2 "of_int e"] by linarith
  have "of_int e \<le> log 2 x" using assms(1) pos by (simp add: le_log_iff)
  moreover have "log 2 x < of_int e + 1" using assms(2) pos by (simp add: log_less_iff)
  ultimately show ?thesis by linarith
qed

lemma dbl_Fin_value:
  assumes nz: "x \<noteq> 0" and x: "\<bar>x\<bar> \<le> 2 ^ 1023"
    and e: "max \<lfloor>log 2 \<bar>x\<bar>\<rfloor> (- 1022) = e"
  shows "dbl x = Fin (of_int (round_even (x / 2 powr (of_int e - 52))) * 2 powr (of_int e - 52))"
proof -
  obtain y where y: "dbl x = Fin y" using dbl_bounds[OF x] by blast
  show ?thesis
    using y unfolding dbl_unfold[OF nz] Let_def e
    by (simp split: if_splits)
qed

lemma dbl_eval:
  assumes lo: "2 powr (of_int e) \<le> \<bar>x\<bar>" and hi: "\<bar>x\<bar> < 2 powr (of_int e + 1)"
    and e: "- 1022 \<le> e" "e \<le> 1022"
  shows "dbl x = Fin (of_int (round_even (x / 2 powr (of_int e - 52))) * 2 powr (of_int e - 52))"
proof -
  have nz: "x \<noteq> 0" using lo powr_gt_zero[of 2 "of_int e"] by linarith
  have "(2::real) powr (of_int e + 1) \<le> 2 powr 1023"
    using e by (intro powr_mono) simp_all
  then have x: "\<bar>x\<bar> \<le> 2 ^ 1023" using hi by (simp add: powr_numeral)
  have "\<lfloor>log 2 \<bar>x\<bar>\<rfloor> = e" by (rule floor_log2_eq[OF lo hi])
  then have "max \<lfloor>log 2 \<bar>x\<bar>\<rfloor> (- 1022) = e" using e by simp
  from dbl_Fin_value[OF nz x this] show ?thesis .
qed

lemma dbl_exact:
  assumes xm: "x = of_int m * 2 powr (of_int k)" and m: "\<bar>m\<bar> < 2 ^ 53"
    and k: "- 1074 \<le> k" and x: "\<bar>x\<bar> < 2 ^ 1024"
  shows "dbl x = Fin x"
proof (cases "x = 0")
  case True
  then show ?thesis by (simp add: dbl_def)
next
  case False
  define e where "e = max \<lfloor>log 2 \<bar>x\<bar>\<rfloor> (- 1022)"
  define q :: real where "q = 2 powr (of_int e - 52)"
  have qpos: "0 < q" by (simp add: q_def)
  have ek: "e \<le> k + 52"
  proof (cases "- 1022 \<le> \<lfloor>log 2 \<bar>x\<bar>\<rfloor>")
    case True
    then have e: "e = \<lfloor>log 2 \<bar>x\<bar>\<rfloor>" by (simp add: e_def)
    have "\<bar>x\<bar> = \<bar>of_int m\<bar> * 2 powr (of_int k)" by (simp add: xm abs_mult)
    also have "\<dots> < 2 ^ 53 * 2 powr (of_int k)"
    proof -
      have "real_of_int \<bar>m\<bar> < real_of_int (2 ^ 53)" using m by (simp only: of_int_less_iff)
      then have "\<bar>real_of_int m\<bar> < 2 ^ 53" by simp
      then show ?thesis by (intro mult_strict_right_mono) simp_all
    qed
    also have "\<dots> = 2 powr (of_int (k + 53))"
      by (simp add: powr_add powr_numeral)
    finally have "log 2 \<bar>x\<bar> < of_int (k + 53)"
      using False by (simp add: log_less_iff)
    then have "\<lfloor>log 2 \<bar>x\<bar>\<rfloor> < k + 53" by linarith
    then show ?thesis by (simp add: e)
  next
    case False
    then have "e = - 1022" by (simp add: e_def)
    then show ?thesis using k by simp
  qed
  define n where "n = nat (k + 52 - e)"
  have n: "of_int k - (of_int e - 52) = (real n)"
    using ek by (simp add: n_def)
  have "x / q = of_int m * (2 powr (of_int k) / 2 powr (of_int e - 52))"
    by (simp add: xm q_def)
  also have "2 powr (of_int k) / 2 powr (of_int e - 52) = (2::real) powr (of_int k - (of_int e - 52))"
    by (simp add: powr_diff)
  also have "\<dots> = 2 ^ n" unfolding n by (simp add: powr_realpow)
  finally have xq: "x / q = of_int (m * 2 ^ n)" by simp
  have "of_int (round_even (x / q)) * q = x / q * q"
    unfolding xq round_even_of_int ..
  also have "\<dots> = x" using qpos by simp
  finally have r: "of_int (round_even (x / q)) * q = x" .
  have small: "\<not> 2 ^ 1024 \<le> \<bar>of_int (round_even (x / q)) * q\<bar>"
    unfolding r using x by simp
  show ?thesis
    unfolding dbl_unfold[OF \<open>x \<noteq> 0\<close>] Let_def e_def[symmetric] q_def[symmetric]
    using small r by simp
qed

lemma dbl_of_int: "\<bar>n\<bar> < 2 ^ 53 \<Longrightarrow> dbl (of_int n) = Fin (of_int n)"
proof -
  assume n: "\<bar>n\<bar> < 2 ^ 53"
  have "\<bar>real_of_int n\<bar> \<le> 2 ^ 53"
  proof -
    have "real_of_int \<bar>n\<bar> < real_of_int (2 ^ 53)" using n by (simp only: of_int_less_iff)
    then show ?thesis by simp
  qed
  also have "\<dots> < (2 ^ 1024 :: real)" by simp
  finally have "\<bar>real_of_int n\<bar> < 2 ^ 1024" .
  then show ?thesis
    using dbl_exact[of "of_int n" n 0] n by simp
qed

subsection \<open>The statistics never fail on a non-empty array\<close>

lemma ss_mean_nonempty: "x \<noteq> [] \<Longrightarrow> \<exists>m. ss_mean x = Inr m"
  by (simp add: ss_mean_def)

lemma ss_standardDeviation_nonempty: "x \<noteq> [] \<Longrightarrow> \<exists>s. ss_standardDeviation x = Inr s"
  by (simp add: ss_standardDeviation_def ss_variance_def ss_mean_def)

lemma calculateSkewness_nonempty: "x \<noteq> [] \<Longrightarrow> \<exists>s. calculateSkewness x = Inr s"
  using ss_mean_nonempty[of x] ss_standardDeviation_nonempty[of x]
  by (auto simp: calculateSkewness_def)

lemma calculateKurtosis_nonempty: "x \<noteq> [] \<Longrightarrow> \<exists>s. calculateKurtosis x = Inr s"
  using ss_mean_nonempty[of x] ss_standardDeviation_nonempty[of x]
  by (auto simp: calculateKurtosis_def)

lemma calculateSimpleRSI_total: "\<exists>r. calculateSimpleRSI x = Inr r"
  by (simp add: calculateSimpleRSI_def Let_def ss_mean_def)

lemma simple_returns_nonempty: "2 \<le> length x \<Longrightarrow> simple_returns x \<noteq> []"
  by (auto simp: simple_returns_def)

subsection \<open>Feature extraction returns one vector for each step from the window size on\<close>

lemma feature_at_ok:
  assumes "windowSize \<le> i" "i < length cs"
  shows "\<exists>f. feature_at cs i = Inr f"
proof -
  define window where "window = take windowSize (drop (i - windowSize) cs)"
  let ?closes = "map (\<lambda>d. Fin (close d)) window"
  let ?volumes = "map (\<lambda>d. Fin (volume d)) window"
  have len: "length window = 20"
    using assms by (simp add: window_def windowSize_def)
  have ne: "window \<noteq> []" using len by auto
  have r: "simple_returns ?closes \<noteq> []"
    by (rule simple_returns_nonempty) (simp add: len)
  obtain mr where mr: "ss_mean (simple_returns ?closes) = Inr mr"
    using ss_mean_nonempty[OF r] by blast
  obtain rv where rv: "ss_standardDeviation (simple_returns ?closes) = Inr rv"
    using ss_standardDeviation_nonempty[OF r] by blast
  obtain sk where sk: "calculateSkewness (simple_returns ?closes) = Inr sk"
    using calculateSkewness_nonempty[OF r] by blast
  obtain ku where ku: "calculateKurtosis (simple_returns ?closes) = Inr ku"
    using calculateKurtosis_nonempty[OF r] by blast
  obtain sdc where sdc: "ss_standardDeviation ?closes = Inr sdc"
    using ss_standardDeviation_nonempty[of ?closes] ne by auto
  obtain mc where mc: "ss_mean ?closes = Inr mc"
    using ss_mean_nonempty[of ?closes] ne by auto
  obtain mv where mv: "ss_mean ?volumes = Inr mv"
    using ss_mean_nonempty[of ?volumes] ne by auto
  obtain sdv where sdv: "ss_standardDeviation ?volumes = Inr sdv"
    using ss_standardDeviation_nonempty[of ?volumes] ne by auto
  obtain ar where ar:
    "ss_mean (map (\<lambda>idx. jdiv (jsub (aget (map (\<lambda>d. Fin (high d)) window) (int idx))
                                     (aget (map (\<lambda>d. Fin (low d)) window) (int idx)))
                               (aget ?closes (int idx)))
                  [0..<length (map (\<lambda>d. Fin (high d)) window)]) = Inr ar"
    using ne by (simp add: ss_mean_def)
  obtain rs where rs: "calculateSimpleRSI ?closes = Inr rs"
    using calculateSimpleRSI_total by blast
  show ?thesis
    unfolding feature_at_def Let_def window_def[symmetric]
    by (simp only: mr rv sk ku sdc mc mv sdv ar rs ebind_Inr) blast
qed

lemma emap_ok:
  "(\<And>x. x \<in> set xs \<Longrightarrow> \<exists>y. f x = Inr y)
   \<Longrightarrow> \<exists>ys. emap f xs = Inr ys \<and> length ys = length xs"
proof (induction xs)
  case Nil
  then show ?case by simp
next
  case (Cons a xs)
  then obtain y where y: "f a = Inr y" by auto
  from Cons obtain ys where "emap f xs = Inr ys" "length ys = length xs" by auto
  with y show ?case by simp
qed

lemma extractHMMFeatures_ok:
  "\<exists>fs. extractHMMFeatures cs = Inr fs \<and> length fs = length cs - windowSize"
proof -
  have "\<exists>ys. emap (feature_at cs) [windowSize..<length cs] = Inr ys
          \<and> length ys = length [windowSize..<length cs]"
    by (rule emap_ok) (simp add: feature_at_ok)
  then show ?thesis by (simp add: extractHMMFeatures_def)
qed

subsection \<open>The training loop returns on every non-empty observation sequence\<close>

lemma bw_loop_ok:
  "observations \<noteq> [] \<Longrightarrow> \<exists>st' r. bw_loop st observations prev it = (st', Inr r)"
proof (induction st observations prev it rule: bw_loop.induct)
  case (1 st observations prevLikelihood iteration)
  show ?case
  proof (cases "iteration < maxIterations")
    case False
    then show ?thesis by (subst bw_loop.simps) simp
  next
    case True
    obtain fb where fb: "forwardBackward st observations = Inr fb"
      using "1.prems" by (simp add: forwardBackward_def Let_def)
    show ?thesis
    proof (cases "jlt (jabs (jsub (fb_likelihood fb) prevLikelihood)) convergenceThreshold")
      case c: True
      show ?thesis using True fb c by (subst bw_loop.simps) (simp add: Let_def)
    next
      case c: False
      have "\<exists>st' r. bw_loop (updateParameters st observations (fb_alpha fb) (fb_beta fb))
               observations (fb_likelihood fb) (iteration + 1) = (st', Inr r)"
        using "1.IH"[OF True fb refl refl c] "1.prems" by simp
      then show ?thesis using True fb c by (subst bw_loop.simps) (simp add: Let_def)
    qed
  qed
qed

lemma baumWelchTraining_ok:
  "observations \<noteq> [] \<Longrightarrow> \<exists>st' r. baumWelchTraining st observations = (st', Inr r)"
  unfolding baumWelchTraining_def by (rule bw_loop_ok)

lemma trainModel_success:
  assumes len: "minTrainingData \<le> length cs"
    and fs: "extractHMMFeatures cs = Inr fs"
    and d: "discretizeObservations km st fs = (st1, Inr observations)"
    and ne: "observations \<noteq> []"
  shows "\<exists>st' res. trainModel km st cs = (st', Inr res) \<and> isTrained st'"
proof -
  obtain st2 where i: "initializeParameters st1 observations = (st2, None)"
    using ne by (simp add: initializeParameters_def Let_def)
  obtain st3 r where b: "baumWelchTraining st2 observations = (st3, Inr r)"
    using baumWelchTraining_ok[OF ne] by blast
  show ?thesis using len by (simp add: trainModel_def fs d i b)
qed

lemma trainModel_error_cases:
  assumes len: "minTrainingData \<le> length cs"
  shows "snd (trainModel km st cs) \<noteq> Inl (InsufficientData need got)"
proof -
  obtain fs where fs: "extractHMMFeatures cs = Inr fs"
    using extractHMMFeatures_ok by blast
  obtain st1 r1 where d: "discretizeObservations km st fs = (st1, r1)"
    by (cases "discretizeObservations km st fs")
  show ?thesis
  proof (cases r1)
    case (Inl e)
    then have "e = KMeansError"
      using d by (auto simp: discretizeObservations_def Let_def split: option.splits)
    then show ?thesis using len Inl by (simp add: trainModel_def fs d)
  next
    case (Inr observations)
    show ?thesis
    proof (cases "observations = []")
      case True
      then show ?thesis using len Inr
        by (simp add: trainModel_def fs d initializeParameters_def Let_def)
    next
      case False
      from trainModel_success[OF len fs d[unfolded Inr] False]
      show ?thesis by auto
    qed
  qed
qed

lemma km0_discretize:
  assumes "8 \<le> length fs"
  shows "\<exists>st1 observations. discretizeObservations km0 st fs = (st1, Inr observations)
     \<and> observations = map (\<lambda>i. i mod 8) [0..<length fs]"
  using assms by (simp add: discretizeObservations_def km0_def Let_def)

subsection \<open>The heuristic classification\<close>

lemma heuristicClassification_ok:
  assumes "2 \<le> length cs"
  shows "\<exists>p. heuristicClassification cs = Inr p \<and> pr_method p = Some ''HEURISTIC''
     \<and> nextStateProbabilities p = None
     \<and> stateProbabilities p = [(currentRegime p, confidence p)]
     \<and> confidence p \<in> {Fin (6 / 10), Fin (7 / 10), Fin (8 / 10)}"
proof -
  have r: "simple_returns (map (\<lambda>d. Fin (close d)) cs) \<noteq> []"
    by (rule simple_returns_nonempty) (simp add: assms)
  obtain m where m: "ss_mean (simple_returns (map (\<lambda>d. Fin (close d)) cs)) = Inr m"
    using ss_mean_nonempty[OF r] by blast
  obtain s where s: "ss_standardDeviation (simple_returns (map (\<lambda>d. Fin (close d)) cs)) = Inr s"
    using ss_standardDeviation_nonempty[OF r] by blast
  show ?thesis
    unfolding heuristicClassification_def Let_def
    by (simp add: m s split: prod.splits)
qed

lemma heuristicClassification_short:
  "length cs < 2 \<Longrightarrow> heuristicClassification cs = Inl StatsError"
  by (simp add: heuristicClassification_def Let_def simple_returns_def ss_mean_def)

subsection \<open>The multi-timeframe aggregator\<close>

text \<open>A sum of at most six numbers of the normal range, rounded after each addition,
  is the exact sum up to the factor \<open>(1 \<plusminus> 2^-53)\<close> for each addition; so the average
  of five closes between \<open>1e-100\<close> and \<open>1e100\<close> is the exact average up to a
  relative \<open>1e-15\<close>.\<close>

lemma dadd_Fin: "dadd (Fin a) (Fin b) = dbl (a + b)"
  by (simp add: dadd_def)

lemma foldl_dadd_bounds:
  assumes "\<forall>x \<in> set xs. 1 / 2 ^ 1022 \<le> x"
    and "0 \<le> A" "A * (1 - 1 / 2 ^ 53) ^ k \<le> s" "s \<le> A * (1 + 1 / 2 ^ 53) ^ k"
    and "k + length xs \<le> 6" and "A + sum_list xs \<le> 2 ^ 1021"
  shows "\<exists>s'. foldl dadd (Fin s) (map Fin xs) = Fin s'
           \<and> (A + sum_list xs) * (1 - 1 / 2 ^ 53) ^ (k + length xs) \<le> s'
           \<and> s' \<le> (A + sum_list xs) * (1 + 1 / 2 ^ 53) ^ (k + length xs)"
  using assms
proof (induction xs arbitrary: A s k)
  case Nil
  then show ?case by simp
next
  case (Cons x xs)
  define u :: real where "u = 1 / 2 ^ 53"
  have u: "0 \<le> u" "u \<le> 1" "0 \<le> 1 - u" by (simp_all add: u_def)
  define p where "p = (1 - u) ^ k"
  define P where "P = (1 + u) ^ k"
  have p: "0 \<le> p" "p \<le> 1" unfolding p_def using u by (simp_all add: power_le_one)
  have k6: "k \<le> 6" using Cons.prems(5) by simp
  have "P \<le> (1 + u) ^ 6" unfolding P_def using u k6 by (intro power_increasing) simp_all
  also have "\<dots> \<le> 2" unfolding u_def by (simp add: power_divide)
  finally have P2: "P \<le> 2" .
  have P1: "1 \<le> P" unfolding P_def using u by simp
  have x: "1 / 2 ^ 1022 \<le> x" using Cons.prems(1) by simp
  have "(0::real) < 1 / 2 ^ 1022" by simp
  then have x0: "0 < x" using x by (rule less_le_trans)
  have nn: "0 \<le> sum_list xs"
  proof (rule sum_list_nonneg)
    fix y assume "y \<in> set xs"
    then have "1 / 2 ^ 1022 \<le> y" using Cons.prems(1) by simp
    moreover have "(0::real) \<le> 1 / 2 ^ 1022" by simp
    ultimately show "0 \<le> y" by linarith
  qed
  have A: "0 \<le> A" by (rule Cons.prems(2))
  have lo: "A * p \<le> s" using Cons.prems(3) by (simp add: p_def u_def)
  have hi: "s \<le> A * P" using Cons.prems(4) by (simp add: P_def u_def)
  have s0: "0 \<le> s" using lo A p by (meson mult_nonneg_nonneg order_trans)
  have "A * P \<le> A * 2" using A P2 by (rule mult_left_mono[rotated])
  then have "s \<le> 2 * A" using hi by simp
  then have "s + x \<le> 2 * (A + x + sum_list xs)" using x0 nn by simp
  also have "\<dots> \<le> 2 * 2 ^ 1021" using Cons.prems(6) by simp
  also have "\<dots> \<le> (2 ^ 1023 :: real)" by simp
  finally have up: "s + x \<le> 2 ^ 1023" .
  have dn: "1 / 2 ^ 1022 \<le> s + x" using x s0 by linarith
  obtain s1 where s1: "dbl (s + x) = Fin s1" "(s + x) - (s + x) / 2 ^ 53 \<le> s1"
    "s1 \<le> (s + x) + (s + x) / 2 ^ 53"
    using dbl_normal[OF dn up] by blast
  have e1: "(s + x) * (1 - u) = (s + x) - (s + x) / 2 ^ 53"
    unfolding u_def by (simp only: right_diff_distrib mult_1_right times_divide_eq_right)
  have e2: "(s + x) * (1 + u) = (s + x) + (s + x) / 2 ^ 53"
    unfolding u_def by (simp only: distrib_left mult_1_right times_divide_eq_right)
  have s1lo: "(s + x) * (1 - u) \<le> s1" unfolding e1 by (rule s1(2))
  have s1hi: "s1 \<le> (s + x) * (1 + u)" unfolding e2 by (rule s1(3))
  have "x * p \<le> x * 1" using x0 p by (intro mult_left_mono) simp_all
  then have "(A + x) * p \<le> s + x" using lo by (simp add: algebra_simps)
  then have "(A + x) * p * (1 - u) \<le> (s + x) * (1 - u)"
    using u by (intro mult_right_mono) simp_all
  then have l1: "(A + x) * (1 - 1 / 2 ^ 53) ^ Suc k \<le> s1"
    using s1lo by (simp add: p_def u_def mult.assoc mult.commute)
  have "x * 1 \<le> x * P" using x0 P1 by (intro mult_left_mono) simp_all
  then have "s + x \<le> (A + x) * P" using hi by (simp add: algebra_simps)
  then have "(s + x) * (1 + u) \<le> (A + x) * P * (1 + u)"
    using u by (intro mult_right_mono) simp_all
  then have h1: "s1 \<le> (A + x) * (1 + 1 / 2 ^ 53) ^ Suc k"
    using s1hi by (simp add: P_def u_def mult.assoc mult.commute)
  have a1: "\<forall>x \<in> set xs. 1 / 2 ^ 1022 \<le> x" using Cons.prems(1) by simp
  have a2: "0 \<le> A + x" using A x0 by simp
  have a5: "Suc k + length xs \<le> 6" using Cons.prems(5) by simp
  have a6: "(A + x) + sum_list xs \<le> 2 ^ 1021" using Cons.prems(6) by (simp add: add.assoc)
  from Cons.IH[OF a1 a2 l1 h1 a5 a6]
  obtain s' where s': "foldl dadd (Fin s1) (map Fin xs) = Fin s'"
    "(A + x + sum_list xs) * (1 - 1 / 2 ^ 53) ^ (Suc k + length xs) \<le> s'"
    "s' \<le> (A + x + sum_list xs) * (1 + 1 / 2 ^ 53) ^ (Suc k + length xs)"
    by blast
  have "foldl dadd (Fin s) (map Fin (x # xs)) = Fin s'"
    by (simp add: dadd_Fin s1(1) s'(1))
  with s'(2,3) show ?case by (simp add: add.assoc)
qed

lemma sum_list_bounds:
  fixes xs :: "real list"
  assumes "\<forall>x \<in> set xs. a \<le> x \<and> x \<le> b"
  shows "real (length xs) * a \<le> sum_list xs \<and> sum_list xs \<le> real (length xs) * b"
  using assms by (induction xs) (auto simp: algebra_simps)

lemma ddiv_Fin: "b \<noteq> 0 \<Longrightarrow> ddiv (Fin a) (Fin b) = dbl (a / b)"
  by (simp add: ddiv_def)

lemma dsub_Fin: "dsub (Fin a) (Fin b) = dbl (a - b)"
  by (simp add: dsub_def jsub_def)

lemma chain_lo:
  fixes S :: real
  assumes "0 \<le> S" "S * c1 \<le> s" "s * c2 \<le> f" "0 \<le> c2" "e \<le> c1 * c2"
  shows "S * e \<le> f"
proof -
  have "S * e \<le> S * (c1 * c2)" using assms(1,5) by (rule mult_left_mono[rotated])
  also have "\<dots> = S * c1 * c2" by simp
  also have "\<dots> \<le> s * c2" using assms(2,4) by (rule mult_right_mono)
  also have "\<dots> \<le> f" by (rule assms(3))
  finally show ?thesis .
qed

lemma chain_hi:
  fixes S :: real
  assumes "0 \<le> S" "s \<le> S * c1" "f \<le> s * c2" "0 \<le> c2" "c1 * c2 \<le> e"
  shows "f \<le> S * e"
proof -
  have "f \<le> s * c2" by (rule assms(3))
  also have "\<dots> \<le> S * c1 * c2" using assms(2,4) by (rule mult_right_mono)
  also have "\<dots> = S * (c1 * c2)" by simp
  also have "\<dots> \<le> S * e" using assms(1,5) by (rule mult_left_mono[rotated])
  finally show ?thesis .
qed

lemma average_bounds:
  assumes l: "length xs = 5" and r: "\<forall>x \<in> set xs. 1 / 10 ^ 100 \<le> x \<and> x \<le> 10 ^ 100"
  shows "\<exists>f. ddiv (reduce_dsum (map Fin xs)) (Fin 5) = Fin f
           \<and> sum_list xs / 5 * (1 - 1 / 10 ^ 15) \<le> f
           \<and> f \<le> sum_list xs / 5 * (1 + 1 / 10 ^ 15)
           \<and> 1 / 10 ^ 100 \<le> sum_list xs / 5 \<and> sum_list xs / 5 \<le> 10 ^ 100"
proof -
  define S where "S = sum_list xs"
  have Sb: "5 * (1 / 10 ^ 100) \<le> S" "S \<le> 5 * 10 ^ 100"
    using sum_list_bounds[OF r] by (simp_all add: l S_def)
  have a1: "\<forall>x \<in> set xs. 1 / 2 ^ 1022 \<le> x"
  proof
    fix x assume "x \<in> set xs"
    then have "1 / 10 ^ 100 \<le> x" using r by simp
    moreover have "(1 / 2 ^ 1022 :: real) \<le> 1 / 10 ^ 100" by simp
    ultimately show "1 / 2 ^ 1022 \<le> x" by linarith
  qed
  have a6: "0 + sum_list xs \<le> 2 ^ 1021"
  proof -
    have "(5 * 10 ^ 100 :: real) \<le> 2 ^ 1021" by simp
    with Sb(2) show ?thesis by (simp add: S_def)
  qed
  obtain s where s: "foldl dadd (Fin 0) (map Fin xs) = Fin s"
    "(0 + sum_list xs) * (1 - 1 / 2 ^ 53) ^ (0 + length xs) \<le> s"
    "s \<le> (0 + sum_list xs) * (1 + 1 / 2 ^ 53) ^ (0 + length xs)"
    using foldl_dadd_bounds[OF a1, of 0 0 0] a6 l by auto
  have S0: "0 \<le> S" using Sb(1) by simp
  have p5: "1 - 6 / 10 ^ 16 \<le> (1 - 1 / 2 ^ 53 :: real) ^ 5"
    "(1 + 1 / 2 ^ 53 :: real) ^ 5 \<le> 1 + 6 / 10 ^ 16"
    by (simp_all add: power_divide)
  have "S * (1 - 6 / 10 ^ 16) \<le> S * (1 - 1 / 2 ^ 53) ^ 5"
    using S0 p5(1) by (rule mult_left_mono[rotated])
  then have slo: "S * (1 - 6 / 10 ^ 16) \<le> s" using s(2) by (simp add: S_def l)
  have "S * (1 + 1 / 2 ^ 53) ^ 5 \<le> S * (1 + 6 / 10 ^ 16)"
    using S0 p5(2) by (rule mult_left_mono[rotated])
  then have shi: "s \<le> S * (1 + 6 / 10 ^ 16)" using s(3) by (simp add: S_def l)
  have n1: "1 / 2 ^ 1022 \<le> s / 5"
  proof -
    have "(1 / 2 ^ 1022 :: real) \<le> (1 / 10 ^ 100) * (1 - 6 / 10 ^ 16)" by simp
    also have "\<dots> \<le> S / 5 * (1 - 6 / 10 ^ 16)"
      using Sb(1) by (intro mult_right_mono) simp_all
    also have "\<dots> \<le> s / 5" using slo by simp
    finally show ?thesis .
  qed
  have n2: "s / 5 \<le> 2 ^ 1023"
  proof -
    have "s / 5 \<le> S / 5 * (1 + 6 / 10 ^ 16)" using shi by simp
    also have "\<dots> \<le> 10 ^ 100 * (1 + 6 / 10 ^ 16)"
      using Sb(2) by (intro mult_right_mono) simp_all
    also have "\<dots> \<le> (2 ^ 1023 :: real)" by simp
    finally show ?thesis .
  qed
  obtain f where f: "dbl (s / 5) = Fin f" "s / 5 - s / 5 / 2 ^ 53 \<le> f"
    "f \<le> s / 5 + s / 5 / 2 ^ 53"
    using dbl_normal[OF n1 n2] by blast
  have d: "ddiv (reduce_dsum (map Fin xs)) (Fin 5) = Fin f"
    by (simp add: reduce_dsum_def s(1) ddiv_Fin f(1))
  have e1: "s / 5 * (1 - 1 / 2 ^ 53) = s / 5 - s / 5 / 2 ^ 53"
    by (simp only: right_diff_distrib mult_1_right times_divide_eq_right)
  have e2: "s / 5 * (1 + 1 / 2 ^ 53) = s / 5 + s / 5 / 2 ^ 53"
    by (simp only: distrib_left mult_1_right times_divide_eq_right)
  have f1: "S / 5 * (1 - 1 / 10 ^ 15) \<le> f"
  proof (rule chain_lo[where ?c1.0 = "1 - 6 / 10 ^ 16" and ?c2.0 = "1 - 1 / 2 ^ 53" and s = "s / 5"])
    show "0 \<le> S / 5" using S0 by simp
    show "S / 5 * (1 - 6 / 10 ^ 16) \<le> s / 5" using slo by simp
    show "s / 5 * (1 - 1 / 2 ^ 53) \<le> f" unfolding e1 by (rule f(2))
    show "(0::real) \<le> 1 - 1 / 2 ^ 53" by simp
    show "(1 - 1 / 10 ^ 15 :: real) \<le> (1 - 6 / 10 ^ 16) * (1 - 1 / 2 ^ 53)" by simp
  qed
  have f2: "f \<le> S / 5 * (1 + 1 / 10 ^ 15)"
  proof (rule chain_hi[where ?c1.0 = "1 + 6 / 10 ^ 16" and ?c2.0 = "1 + 1 / 2 ^ 53" and s = "s / 5"])
    show "0 \<le> S / 5" using S0 by simp
    show "s / 5 \<le> S / 5 * (1 + 6 / 10 ^ 16)" using shi by simp
    show "f \<le> s / 5 * (1 + 1 / 2 ^ 53)" unfolding e2 by (rule f(3))
    show "(0::real) \<le> 1 + 1 / 2 ^ 53" by simp
    show "((1 + 6 / 10 ^ 16) * (1 + 1 / 2 ^ 53) :: real) \<le> 1 + 1 / 10 ^ 15" by simp
  qed
  from d f1 f2 Sb show ?thesis unfolding S_def by (intro exI[of _ f]) simp
qed

text \<open>The comparison of the change with \<open>0.02\<close>, on the numbers alone: \<open>f\<close> and
  \<open>l\<close> are the rounded averages of \<open>F\<close> and \<open>L\<close>, \<open>d\<close> is their rounded
  difference, \<open>c\<close> the rounded quotient \<open>d / f\<close>, \<open>t\<close> the double of \<open>0.02\<close>, and
  \<open>a\<close> bounds the absolute error of a rounding below the normal range.\<close>

lemma trend_core:
  fixes F L f l d q c t a :: real
  assumes F: "0 < F" and L: "0 \<le> L"
    and f: "F * (1 - 1 / 1000000000000000) \<le> f" "f \<le> F * (1 + 1 / 1000000000000000)"
    and l: "L * (1 - 1 / 1000000000000000) \<le> l" "l \<le> L * (1 + 1 / 1000000000000000)"
    and d: "\<bar>d - (l - f)\<bar> \<le> \<bar>l - f\<bar> / 1000000000000000 + a"
      "0 \<le> l - f \<longrightarrow> 0 \<le> d" "l - f \<le> 0 \<longrightarrow> d \<le> 0"
    and q: "q = d / f"
    and c: "\<bar>c - q\<bar> \<le> \<bar>q\<bar> / 1000000000000000 + a"
      "0 \<le> q \<longrightarrow> 0 \<le> c" "q \<le> 0 \<longrightarrow> c \<le> 0"
    and t: "2 / 100 * (1 - 1 / 1000000000000000) \<le> t" "t \<le> 2 / 100 * (1 + 1 / 1000000000000000)"
    and a: "0 \<le> a" "a \<le> F / 1000000000000000000000000000000" "a \<le> 1 / 1000000000000000000000000000000"
  shows "(2 / 100 + 1 / 1000000000000) * F < L - F \<Longrightarrow> t < c"
    and "L - F < (2 / 100 - 1 / 1000000000000) * F \<Longrightarrow> \<not> t < c"
    and "L - F < - ((2 / 100 + 1 / 1000000000000) * F) \<Longrightarrow> c < - t"
    and "- ((2 / 100 - 1 / 1000000000000) * F) < L - F \<Longrightarrow> \<not> c < - t"
proof -
  have fp: "0 < f" using F f(1) by argo
  have tp: "0 < t" using t(1) by argo
  {
    assume h: "(2 / 100 + 1 / 1000000000000) * F < L - F"
    have "(2 / 100 + 1 / 2000000000000) * f \<le> d"
      using F f l d(1) a(1,2) h by argo
    then have "2 / 100 + 1 / 2000000000000 \<le> q"
      unfolding q using fp by (simp only: pos_le_divide_eq)
    then show "t < c" using c(1) t(2) a(1,3) by argo
  }
  {
    assume h: "L - F < (2 / 100 - 1 / 1000000000000) * F"
    show "\<not> t < c"
    proof (cases "l - f \<le> 0")
      case True
      then have "d \<le> 0" using d(3) by blast
      then have "q \<le> 0" unfolding q using fp by (simp add: divide_nonpos_pos)
      then have "c \<le> 0" using c(3) by blast
      then show ?thesis using tp by argo
    next
      case False
      then have d0: "0 \<le> d" using d(2) by argo
      have "d \<le> (2 / 100 - 1 / 2000000000000) * f"
        using False F L f l d(1) a(1,2) h by argo
      then have q1: "q \<le> 2 / 100 - 1 / 2000000000000"
        unfolding q using fp by (simp only: pos_divide_le_eq)
      have q0: "0 \<le> q" unfolding q using d0 fp by simp
      show ?thesis using q0 q1 c(1) t(1) a(1,3) by argo
    qed
  }
  {
    assume h: "L - F < - ((2 / 100 + 1 / 1000000000000) * F)"
    have "d \<le> - (2 / 100 + 1 / 2000000000000) * f"
      using F L f l d(1) a(1,2) h by argo
    then have "q \<le> - (2 / 100 + 1 / 2000000000000)"
      unfolding q using fp by (simp only: pos_divide_le_eq)
    then show "c < - t" using c(1) t(2) a(1,3) by argo
  }
  {
    assume h: "- ((2 / 100 - 1 / 1000000000000) * F) < L - F"
    show "\<not> c < - t"
    proof (cases "0 \<le> l - f")
      case True
      then have "0 \<le> d" using d(2) by blast
      then have "0 \<le> q" unfolding q using fp by simp
      then have "0 \<le> c" using c(2) by blast
      then show ?thesis using tp by argo
    next
      case False
      then have d0: "d \<le> 0" using d(3) by argo
      have "- (2 / 100 - 1 / 2000000000000) * f \<le> d"
        using False F L f l d(1) a(1,2) h by argo
      then have q1: "- (2 / 100 - 1 / 2000000000000) \<le> q"
        unfolding q using fp by (simp only: pos_le_divide_eq)
      have q0: "q \<le> 0" unfolding q using d0 fp by (simp add: divide_nonpos_pos)
      show ?thesis using q0 q1 c(1) t(1) a(1,3) by argo
    qed
  }
qed

lemma dbl_eps:
  assumes x: "\<bar>x\<bar> \<le> 2 ^ 1023"
  shows "\<exists>y. dbl x = Fin y \<and> \<bar>y - x\<bar> \<le> \<bar>x\<bar> / 1000000000000000 + 1 / 2 ^ 1075
             \<and> (0 \<le> x \<longrightarrow> 0 \<le> y) \<and> (x \<le> 0 \<longrightarrow> y \<le> 0)"
proof -
  obtain y where y: "dbl x = Fin y" "\<bar>y - x\<bar> \<le> \<bar>x\<bar> / 2 ^ 53 + 1 / 2 ^ 1075"
    "0 \<le> x \<longrightarrow> 0 \<le> y" "x \<le> 0 \<longrightarrow> y \<le> 0"
    using dbl_bounds[OF x] by blast
  have "\<bar>x\<bar> / 2 ^ 53 \<le> \<bar>x\<bar> / 1000000000000000"
    by (rule divide_left_mono) simp_all
  with y(2) have "\<bar>y - x\<bar> \<le> \<bar>x\<bar> / 1000000000000000 + 1 / 2 ^ 1075" by linarith
  with y(1,3,4) show ?thesis by blast
qed

lemma identifyTrend_values:
  assumes len: "10 \<le> length cs"
    and r: "\<forall>c \<in> set cs. 1 / 10 ^ 100 \<le> close c \<and> close c \<le> 10 ^ 100"
  defines "F \<equiv> sum_list (map close (take 5 cs)) / 5"
    and "L \<equiv> sum_list (map close (slice_last 5 cs)) / 5"
  shows "\<exists>(c::real) t. identifyTrend cs = (if t < c then ''BULLISH'' else if c < - t then ''BEARISH''
                                       else ''NEUTRAL'')
           \<and> ((2 / 100 + 1 / 1000000000000) * F < L - F \<longrightarrow> t < c)
           \<and> (L - F < (2 / 100 - 1 / 1000000000000) * F \<longrightarrow> \<not> t < c)
           \<and> (L - F < - ((2 / 100 + 1 / 1000000000000) * F) \<longrightarrow> c < - t)
           \<and> (- ((2 / 100 - 1 / 1000000000000) * F) < L - F \<longrightarrow> \<not> c < - t)
           \<and> 0 < t"
proof -
  let ?xs = "map close (take 5 cs)"
  let ?ys = "map close (slice_last 5 cs)"
  have lx: "length ?xs = 5" using len by simp
  have ly: "length ?ys = 5" using len by (simp add: slice_last_def)
  have rx: "\<forall>x \<in> set ?xs. 1 / 10 ^ 100 \<le> x \<and> x \<le> 10 ^ 100"
    using r by (auto dest: in_set_takeD)
  have ry: "\<forall>x \<in> set ?ys. 1 / 10 ^ 100 \<le> x \<and> x \<le> 10 ^ 100"
    using r by (auto simp: slice_last_def dest: in_set_dropD)
  obtain f where f: "ddiv (reduce_dsum (map Fin ?xs)) (Fin 5) = Fin f"
    "F * (1 - 1 / 10 ^ 15) \<le> f" "f \<le> F * (1 + 1 / 10 ^ 15)"
    "1 / 10 ^ 100 \<le> F" "F \<le> 10 ^ 100"
    using average_bounds[OF lx rx] unfolding F_def by blast
  obtain l where l: "ddiv (reduce_dsum (map Fin ?ys)) (Fin 5) = Fin l"
    "L * (1 - 1 / 10 ^ 15) \<le> l" "l \<le> L * (1 + 1 / 10 ^ 15)"
    "1 / 10 ^ 100 \<le> L" "L \<le> 10 ^ 100"
    using average_bounds[OF ly ry] unfolding L_def by blast
  have e15: "(10::real) ^ 15 = 1000000000000000" by simp
  have e100: "(10::real) ^ 100 = 10000000000000000000000000000000000000000000000000000000000000000000000000000000000000000000000000000" by simp
  note f' = f(2-5)[unfolded e15 e100]
  note l' = l(2-5)[unfolded e15 e100]
  have F0: "0 < F" using f'(3) by argo
  have L0: "0 \<le> L" using l'(3) by argo
  have fp: "0 < f" using f'(1) F0 by argo
  have b0: "\<bar>l - f\<bar> \<le> 3 * 10000000000000000000000000000000000000000000000000000000000000000000000000000000000000000000000000000" using f' l' by argo
  moreover have "(3 * 10000000000000000000000000000000000000000000000000000000000000000000000000000000000000000000000000000 :: real) \<le> 2 ^ 1023" by simp
  ultimately have b1: "\<bar>l - f\<bar> \<le> 2 ^ 1023" by (rule order_trans)
  define a :: real where "a = 1 / 2 ^ 1075"
  have a0: "0 \<le> a" by (simp add: a_def)
  have a130: "a \<le> 1 / 10000000000000000000000000000000000000000000000000000000000000000000000000000000000000000000000000000 / 1000000000000000000000000000000" unfolding a_def by simp
  have a2: "a \<le> 1 / 1000000000000000000000000000000" unfolding a_def by simp
  have a1: "a \<le> F / 1000000000000000000000000000000"
  proof -
    have "1 / 10000000000000000000000000000000000000000000000000000000000000000000000000000000000000000000000000000 / 1000000000000000000000000000000 \<le> F / 1000000000000000000000000000000"
      using f'(3) by (rule divide_right_mono) simp
    with a130 show ?thesis by (rule order_trans)
  qed
  obtain d where d: "dbl (l - f) = Fin d" "\<bar>d - (l - f)\<bar> \<le> \<bar>l - f\<bar> / 1000000000000000 + a"
    "0 \<le> l - f \<longrightarrow> 0 \<le> d" "l - f \<le> 0 \<longrightarrow> d \<le> 0"
    using dbl_eps[OF b1] unfolding a_def by blast
  have d4: "\<bar>d\<bar> \<le> 4 * 10000000000000000000000000000000000000000000000000000000000000000000000000000000000000000000000000000" using d(2) b0 a0 a2 by argo
  have "1 / 10000000000000000000000000000000000000000000000000000000000000000000000000000000000000000000000000000 / 2 \<le> f" using f'(1,3) by argo
  then have "4 * 10000000000000000000000000000000000000000000000000000000000000000000000000000000000000000000000000000 \<le> 800000000000000000000000000000000000000000000000000000000000000000000000000000000000000000000000000000000000000000000000000000000000000000000000000000000000000000000000000000000000000000000000000000000 * f" by argo
  with d4 have "\<bar>d\<bar> \<le> 800000000000000000000000000000000000000000000000000000000000000000000000000000000000000000000000000000000000000000000000000000000000000000000000000000000000000000000000000000000000000000000000000000000 * f" by (rule order_trans)
  then have "\<bar>d\<bar> / f \<le> 800000000000000000000000000000000000000000000000000000000000000000000000000000000000000000000000000000000000000000000000000000000000000000000000000000000000000000000000000000000000000000000000000000000" using fp by (simp only: pos_divide_le_eq)
  then have "\<bar>d / f\<bar> \<le> 800000000000000000000000000000000000000000000000000000000000000000000000000000000000000000000000000000000000000000000000000000000000000000000000000000000000000000000000000000000000000000000000000000000" using fp by (simp add: abs_divide)
  moreover have "(800000000000000000000000000000000000000000000000000000000000000000000000000000000000000000000000000000000000000000000000000000000000000000000000000000000000000000000000000000000000000000000000000000000 :: real) \<le> 2 ^ 1023" by simp
  ultimately have b2: "\<bar>d / f\<bar> \<le> 2 ^ 1023" by (rule order_trans)
  obtain c where c: "dbl (d / f) = Fin c" "\<bar>c - d / f\<bar> \<le> \<bar>d / f\<bar> / 1000000000000000 + a"
    "0 \<le> d / f \<longrightarrow> 0 \<le> c" "d / f \<le> 0 \<longrightarrow> c \<le> 0"
    using dbl_eps[OF b2] unfolding a_def by blast
  have "(1 / 2 ^ 1022 :: real) \<le> 2 / 100" "(2 / 100 :: real) \<le> 2 ^ 1023" by simp_all
  from dbl_normal[OF this]
  obtain t where t: "dbl (2 / 100) = Fin t" "2 / 100 - 2 / 100 / 2 ^ 53 \<le> t"
    "t \<le> 2 / 100 + 2 / 100 / 2 ^ 53"
    by blast
  have "(2 / 100 * (1 - 1 / 1000000000000000) :: real) \<le> 2 / 100 - 2 / 100 / 2 ^ 53" by simp
  with t(2) have t1: "2 / 100 * (1 - 1 / 1000000000000000) \<le> t" by (rule order_trans[rotated])
  have "(2 / 100 + 2 / 100 / 2 ^ 53 :: real) \<le> 2 / 100 * (1 + 1 / 1000000000000000)" by simp
  with t(3) have t2: "t \<le> 2 / 100 * (1 + 1 / 1000000000000000)" by (rule order_trans)
  have tp: "0 < t" using t1 by argo
  note core = trend_core[OF F0 L0 f'(1,2) l'(1,2) d(2,3,4) refl c(2,3,4) t1 t2 a0 a1 a2]
  have tk: "take 5 (map (\<lambda>d. Fin (close d)) cs) = map Fin ?xs"
    by (simp add: take_map)
  have sl: "slice_last 5 (map (\<lambda>d. Fin (close d)) cs) = map Fin ?ys"
    by (simp add: slice_last_def drop_map)
  have fne: "f \<noteq> 0" using fp by simp
  have idt: "identifyTrend cs = (if t < c then ''BULLISH'' else if c < - t then ''BEARISH''
                               else ''NEUTRAL'')"
    using len unfolding identifyTrend_def Let_def tk sl f(1) l(1) dsub_Fin d(1)
      ddiv_Fin[OF fne] c(1) t(1)
    by (simp add: jgt_def)
  show ?thesis
  proof (rule exI[of _ c], rule exI[of _ t], intro conjI impI)
    show "identifyTrend cs = (if t < c then ''BULLISH'' else if c < - t then ''BEARISH''
                               else ''NEUTRAL'')"
      by (rule idt)
    show "t < c" if "(2 / 100 + 1 / 1000000000000) * F < L - F" using core(1)[OF that] .
    show "\<not> t < c" if "L - F < (2 / 100 - 1 / 1000000000000) * F" using core(2)[OF that] .
    show "c < - t" if "L - F < - ((2 / 100 + 1 / 1000000000000) * F)" using core(3)[OF that] .
    show "\<not> c < - t" if "- ((2 / 100 - 1 / 1000000000000) * F) < L - F" using core(4)[OF that] .
    show "0 < t" by (rule tp)
  qed
qed

text \<open>The values of the rounding at the numbers of the examples.\<close>

lemma round_even_down: "of_int n \<le> y \<Longrightarrow> y < of_int n + 1 / 2 \<Longrightarrow> round_even y = n"
proof -
  assume a: "of_int n \<le> y" "y < of_int n + 1 / 2"
  then have "\<lfloor>y\<rfloor> = n" by linarith
  then show ?thesis using a by (simp add: round_even_def Let_def)
qed

lemma round_even_up: "of_int n - 1 / 2 < y \<Longrightarrow> y \<le> of_int n \<Longrightarrow> round_even y = n"
proof (cases "y = of_int n")
  case True
  then show ?thesis by (simp add: round_even_of_int)
next
  case False
  assume a: "of_int n - 1 / 2 < y" "y \<le> of_int n"
  then have "\<lfloor>y\<rfloor> = n - 1" using False by linarith
  then show ?thesis using a False by (simp add: round_even_def Let_def)
qed

lemma dbl_30: "dbl 30 = Fin 30" "dbl 60 = Fin 60" "dbl 90 = Fin 90" "dbl 120 = Fin 120"
  "dbl 150 = Fin 150" "dbl 61 = Fin 61" "dbl 122 = Fin 122" "dbl 153 = Fin 153"
  using dbl_of_int[of 30] dbl_of_int[of 60] dbl_of_int[of 90] dbl_of_int[of 120]
    dbl_of_int[of 150] dbl_of_int[of 61] dbl_of_int[of 122] dbl_of_int[of 153]
  by simp_all

lemma dbl_half: "dbl (61 / 2) = Fin (61 / 2)" "dbl (183 / 2) = Fin (183 / 2)"
  using dbl_exact[of "61 / 2" 61 "- 1"] dbl_exact[of "183 / 2" 183 "- 1"]
  by (simp_all add: powr_neg_numeral)

lemma dbl_round:
  assumes "2 powr (of_int e) \<le> \<bar>x\<bar>" "\<bar>x\<bar> < 2 powr (of_int e + 1)"
    and "- 1022 \<le> e" "e \<le> 1022"
    and q: "2 powr (of_int e - 52) = q" and n: "round_even (x / q) = n"
  shows "dbl x = Fin (of_int n * q)"
  using dbl_eval[OF assms(1-4)] unfolding q n .

lemma dbl_153_5: "dbl (153 / 5) = Fin (8613134287346074 / 2 ^ 48)"
proof -
  have "dbl (153 / 5) = Fin (of_int 8613134287346074 * (1 / 2 ^ 48))"
  proof (rule dbl_round[where e = 4])
    show "(2::real) powr (of_int 4 - 52) = 1 / 2 ^ 48" by (simp add: powr_neg_numeral)
    show "round_even (153 / 5 / (1 / 2 ^ 48)) = 8613134287346074"
      by (rule round_even_up) simp_all
  qed (simp_all add: powr_numeral)
  then show ?thesis by simp
qed

lemma dbl_diff: "dbl (8613134287346074 / 2 ^ 48 - 30) = Fin (168884986026394 / 2 ^ 48)"
proof -
  have e: "(8613134287346074 / 2 ^ 48 - 30 :: real) = 168884986026394 / 2 ^ 48" by simp
  have "dbl (168884986026394 / 2 ^ 48) = Fin (168884986026394 / 2 ^ 48)"
    by (rule dbl_exact[where m = 168884986026394 and k = "- 48"]) (simp_all add: powr_neg_numeral)
  then show ?thesis unfolding e .
qed

lemma dbl_change: "dbl (168884986026394 / 2 ^ 48 / 30) = Fin (5764607523034249 / 2 ^ 58)"
proof -
  have "dbl (168884986026394 / 2 ^ 48 / 30) = Fin (of_int 5764607523034249 * (1 / 2 ^ 58))"
  proof (rule dbl_round[where e = "- 6"])
    show "(2::real) powr (of_int (- 6) - 52) = 1 / 2 ^ 58" by (simp add: powr_neg_numeral)
    show "round_even (168884986026394 / 2 ^ 48 / 30 / (1 / 2 ^ 58)) = 5764607523034249"
      by (rule round_even_up) simp_all
  qed (simp_all add: powr_neg_numeral)
  then show ?thesis by simp
qed

lemma dbl_threshold: "dbl (2 / 100) = Fin (5764607523034235 / 2 ^ 58)"
proof -
  have "dbl (2 / 100) = Fin (of_int 5764607523034235 * (1 / 2 ^ 58))"
  proof (rule dbl_round[where e = "- 6"])
    show "(2::real) powr (of_int (- 6) - 52) = 1 / 2 ^ 58" by (simp add: powr_neg_numeral)
    show "round_even (2 / 100 / (1 / 2 ^ 58)) = 5764607523034235"
      by (rule round_even_up) simp_all
  qed (simp_all add: powr_neg_numeral)
  then show ?thesis by simp
qed

lemma identifyTrend_boundary:
  "identifyTrend boundary_series = ''BULLISH''"
proof -
  have f: "ddiv (reduce_dsum (map Fin [30, 30, 30, 30, 30])) (Fin 5) = Fin 30"
    by (simp add: reduce_dsum_def dadd_Fin ddiv_Fin dbl_30)
  have l: "ddiv (reduce_dsum (map Fin [61 / 2, 61 / 2, 61 / 2, 61 / 2, 31])) (Fin 5)
             = Fin (8613134287346074 / 2 ^ 48)"
    by (simp add: reduce_dsum_def dadd_Fin ddiv_Fin dbl_30 dbl_half dbl_153_5)
  have c: "ddiv (dsub (Fin (8613134287346074 / 2 ^ 48)) (Fin 30)) (Fin 30)
             = Fin (5764607523034249 / 2 ^ 58)"
    by (simp only: dsub_Fin dbl_diff ddiv_Fin[of 30, simplified] dbl_change)
  have cl: "map (\<lambda>d. Fin (close d)) boundary_series
              = map Fin [30, 30, 30, 30, 30, 61 / 2, 61 / 2, 61 / 2, 61 / 2, 31]"
    by (simp add: boundary_series_def flat_candle_def)
  have tk: "take 5 (map Fin [30, 30, 30, 30, 30, 61 / 2, 61 / 2, 61 / 2, 61 / 2, 31 :: real])
              = map Fin [30, 30, 30, 30, 30]"
    by simp
  have sl: "slice_last 5 (map Fin [30, 30, 30, 30, 30, 61 / 2, 61 / 2, 61 / 2, 61 / 2, 31 :: real])
              = map Fin [61 / 2, 61 / 2, 61 / 2, 61 / 2, 31]"
    by (simp add: slice_last_def)
  have len: "\<not> length boundary_series < 10" by (simp add: boundary_series_def)
  show ?thesis
    unfolding identifyTrend_def Let_def cl tk sl f l c dbl_threshold
    using len by (simp add: jgt_def)
qed

lemma boundary_change:
  "sum_list (map close (slice_last 5 boundary_series)) / 5
     - sum_list (map close (take 5 boundary_series)) / 5
   = 2 / 100 * (sum_list (map close (take 5 boundary_series)) / 5)"
  by (simp add: boundary_series_def flat_candle_def slice_last_def)

lemma round_even_ge: "of_int n \<le> y \<Longrightarrow> n \<le> round_even y"
proof -
  assume "of_int n \<le> y"
  then have "n \<le> \<lfloor>y\<rfloor>" by linarith
  then show ?thesis by (simp add: round_even_def Let_def)
qed

lemma dbl_overflow:
  assumes x: "2 ^ 1024 \<le> x"
  shows "dbl x = PInf"
proof -
  have "(0::real) < 2 ^ 1024" by simp
  then have x0: "0 < x" using x by (rule less_le_trans)
  then have ax: "\<bar>x\<bar> = x" by simp
  define e where "e = \<lfloor>log 2 x\<rfloor>"
  define q :: real where "q = 2 powr (of_int e - 52)"
  have qpos: "0 < q" by (simp add: q_def)
  have "(2::real) powr 1024 \<le> x" using x by (simp add: powr_numeral)
  then have "1024 \<le> log 2 x" using x0 by (simp add: le_log_iff)
  then have e1024: "1024 \<le> e" unfolding e_def by linarith
  then have m: "max \<lfloor>log 2 \<bar>x\<bar>\<rfloor> (- 1022) = e" by (simp add: ax e_def)
  have "of_int e \<le> log 2 x" unfolding e_def by simp
  then have "2 powr (of_int e) \<le> 2 powr (log 2 x)" by simp
  then have p: "2 powr (of_int e) \<le> x" using x0 by simp
  have qe: "q * 2 ^ 52 = 2 powr (of_int e)"
  proof -
    have a: "(2::real) powr 52 = 2 ^ 52" by (simp add: powr_numeral)
    have "q * 2 powr 52 = 2 powr (of_int e - 52 + 52)" unfolding q_def by (simp only: powr_add)
    then have "q * 2 powr 52 = 2 powr (of_int e)" by (simp only: diff_add_cancel)
    then show ?thesis unfolding a .
  qed
  have "real_of_int (2 ^ 52) * q \<le> x" using p qe by (simp add: mult.commute)
  then have "real_of_int (2 ^ 52) \<le> x / q" using qpos by (simp only: pos_le_divide_eq)
  then have "2 ^ 52 \<le> round_even (x / q)" by (rule round_even_ge)
  then have "real_of_int (2 ^ 52) \<le> of_int (round_even (x / q))" by (simp only: of_int_le_iff)
  then have "real_of_int (2 ^ 52) * q \<le> of_int (round_even (x / q)) * q"
    using qpos by (intro mult_right_mono) simp_all
  then have "2 powr (of_int e) \<le> of_int (round_even (x / q)) * q"
    using qe by (simp add: mult.commute)
  moreover have "(2::real) powr 1024 \<le> 2 powr (of_int e)"
    using e1024 by (intro powr_mono) simp_all
  ultimately have "2 powr 1024 \<le> of_int (round_even (x / q)) * q" by linarith
  then have big: "2 ^ 1024 \<le> \<bar>of_int (round_even (x / q)) * q\<bar>"
    by (simp add: powr_numeral)
  have nz: "x \<noteq> 0" using x0 by simp
  show ?thesis
    unfolding dbl_unfold[OF nz] Let_def m q_def[symmetric]
    using big x0 by simp
qed

lemma dbl_subnormal:
  assumes nz: "x \<noteq> 0" and x: "\<bar>x\<bar> < 1 / 2 ^ 1022"
  shows "dbl x = Fin (of_int (round_even (x * 2 ^ 1074)) / 2 ^ 1074)"
proof -
  have "\<bar>x\<bar> < 2 powr (- 1022)" using x by (simp add: powr_neg_numeral)
  then have "log 2 \<bar>x\<bar> < - 1022" using nz by (simp add: log_less_iff)
  then have "\<lfloor>log 2 \<bar>x\<bar>\<rfloor> < - 1022" by linarith
  then have m: "max \<lfloor>log 2 \<bar>x\<bar>\<rfloor> (- 1022) = - 1022" by simp
  have "(1 / 2 ^ 1022 :: real) \<le> 2 ^ 1023" by simp
  with x have x': "\<bar>x\<bar> \<le> 2 ^ 1023" by linarith
  have q: "(2::real) powr (of_int (- 1022) - 52) = 1 / 2 ^ 1074"
    by (simp add: powr_neg_numeral)
  from dbl_Fin_value[OF nz x' m] show ?thesis
    unfolding q by simp
qed

lemma jlt_NaN_right: "jlt x NaN = False"
  by (cases x) simp_all

lemma identifyTrend_overflow_gen:
  assumes "dbl a = Fin a" "dbl (a + a) = PInf" "dbl b = Fin b" "dbl (b + b) = PInf"
  shows "identifyTrend (map (\<lambda>c. flat_candle c 1) [a, a, a, a, a, b, b, b, b, b]) = ''NEUTRAL''"
proof -
  have p: "dadd PInf (Fin x) = PInf" for x by (simp add: dadd_def)
  have f: "reduce_dsum (map Fin [a, a, a, a, a]) = PInf"
    by (simp only: reduce_dsum_def list.map foldl.simps dadd_Fin add_0 assms p)
  have l: "reduce_dsum (map Fin [b, b, b, b, b]) = PInf"
    by (simp only: reduce_dsum_def list.map foldl.simps dadd_Fin add_0 assms p)
  have cl: "map (\<lambda>d. Fin (close d)) (map (\<lambda>c. flat_candle c 1) [a, a, a, a, a, b, b, b, b, b])
              = map Fin [a, a, a, a, a, b, b, b, b, b]"
    by (simp add: flat_candle_def)
  have tk: "take 5 (map Fin [a, a, a, a, a, b, b, b, b, b]) = map Fin [a, a, a, a, a]"
    by simp
  have sl: "slice_last 5 (map Fin [a, a, a, a, a, b, b, b, b, b]) = map Fin [b, b, b, b, b]"
    by (simp add: slice_last_def)
  have c: "ddiv (dsub (ddiv PInf (Fin 5)) (ddiv PInf (Fin 5))) (ddiv PInf (Fin 5)) = NaN"
    by (simp add: ddiv_def dsub_def jsub_def)
  show ?thesis
    unfolding identifyTrend_def Let_def cl tk sl f l c
    by (simp add: jgt_def jlt_NaN_right)
qed

lemma identifyTrend_overflow: "identifyTrend overflow_series = ''NEUTRAL''"
  unfolding overflow_series_def
proof (rule identifyTrend_overflow_gen)
  show "dbl (2 ^ 1023) = Fin (2 ^ 1023)"
    by (rule dbl_exact[where m = 1 and k = 1023]) (simp_all add: powr_numeral)
  show "dbl (3 * 2 ^ 1022) = Fin (3 * 2 ^ 1022)"
    by (rule dbl_exact[where m = 3 and k = 1022]) (simp_all add: powr_numeral)
  show "dbl (2 ^ 1023 + 2 ^ 1023) = PInf" by (rule dbl_overflow) simp
  show "dbl (3 * 2 ^ 1022 + 3 * 2 ^ 1022) = PInf" by (rule dbl_overflow) simp
qed

lemma overflow_change:
  "sum_list (map close (slice_last 5 overflow_series)) / 5
     - sum_list (map close (take 5 overflow_series)) / 5
   = 50 / 100 * (sum_list (map close (take 5 overflow_series)) / 5)"
  by (simp add: overflow_series_def flat_candle_def slice_last_def)

lemma identifyTrend_underflow_gen:
  assumes u: "0 < u"
    and s: "dbl u = Fin u" "dbl (u + u) = Fin (2 * u)" "dbl (2 * u + u) = Fin (3 * u)"
      "dbl (3 * u + u) = Fin (4 * u)" "dbl (4 * u + u) = Fin (5 * u)"
      "dbl (4 * u + 2 * u) = Fin (6 * u)"
    and d: "dbl (5 * u / 5) = Fin u" "dbl (6 * u / 5) = Fin u"
    and t: "dbl (2 / 100) = Fin t" "0 < t"
  shows "identifyTrend (map (\<lambda>c. flat_candle c 1) [u, u, u, u, u, u, u, u, u, 2 * u]) = ''NEUTRAL''"
proof -
  have z: "dbl 0 = Fin 0" by (simp add: dbl_def)
  have n5: "(5::real) \<noteq> 0" by simp
  have f: "ddiv (reduce_dsum (map Fin [u, u, u, u, u])) (Fin 5) = Fin u"
    by (simp only: reduce_dsum_def list.map foldl.simps dadd_Fin add_0 s ddiv_Fin[OF n5] d)
  have l: "ddiv (reduce_dsum (map Fin [u, u, u, u, 2 * u])) (Fin 5) = Fin u"
    by (simp only: reduce_dsum_def list.map foldl.simps dadd_Fin add_0 s ddiv_Fin[OF n5] d)
  have c: "ddiv (dsub (Fin u) (Fin u)) (Fin u) = Fin 0"
    using u by (simp add: dsub_Fin z ddiv_Fin)
  have cl: "map (\<lambda>d. Fin (close d)) (map (\<lambda>c. flat_candle c 1) [u, u, u, u, u, u, u, u, u, 2 * u])
              = map Fin [u, u, u, u, u, u, u, u, u, 2 * u]"
    by (simp add: flat_candle_def)
  have tk: "take 5 (map Fin [u, u, u, u, u, u, u, u, u, 2 * u]) = map Fin [u, u, u, u, u]"
    by simp
  have sl: "slice_last 5 (map Fin [u, u, u, u, u, u, u, u, u, 2 * u]) = map Fin [u, u, u, u, 2 * u]"
    by (simp add: slice_last_def)
  show ?thesis
    unfolding identifyTrend_def Let_def cl tk sl f l c t(1)
    using t(2) by (simp add: jgt_def)
qed

lemma identifyTrend_underflow: "identifyTrend underflow_series = ''NEUTRAL''"
  unfolding underflow_series_def
proof (rule identifyTrend_underflow_gen)
  have e: "dbl (real_of_int n / 2 ^ 1074) = Fin (real_of_int n / 2 ^ 1074)" if "\<bar>n\<bar> < 10" for n
  proof (rule dbl_exact[where m = n and k = "- 1074"])
    show "real_of_int n / 2 ^ 1074 = real_of_int n * 2 powr real_of_int (- 1074)"
      by (simp add: powr_neg_numeral)
    show "\<bar>n\<bar> < 2 ^ 53" using that by simp
    have "\<bar>real_of_int n\<bar> < 10" using that by linarith
    then have "\<bar>real_of_int n\<bar> / 2 ^ 1074 < 10 / 2 ^ 1074" by (simp add: divide_strict_right_mono)
    also have "\<dots> < (2 ^ 1024 :: real)" by simp
    finally show "\<bar>real_of_int n / 2 ^ 1074\<bar> < 2 ^ 1024" by simp
  qed simp
  show "(0::real) < 1 / 2 ^ 1074" by simp
  show "dbl (1 / 2 ^ 1074) = Fin (1 / 2 ^ 1074)" using e[of 1] by simp
  show "dbl (1 / 2 ^ 1074 + 1 / 2 ^ 1074) = Fin (2 * (1 / 2 ^ 1074))" using e[of 2] by simp
  show "dbl (2 * (1 / 2 ^ 1074) + 1 / 2 ^ 1074) = Fin (3 * (1 / 2 ^ 1074))" using e[of 3] by simp
  show "dbl (3 * (1 / 2 ^ 1074) + 1 / 2 ^ 1074) = Fin (4 * (1 / 2 ^ 1074))" using e[of 4] by simp
  show "dbl (4 * (1 / 2 ^ 1074) + 1 / 2 ^ 1074) = Fin (5 * (1 / 2 ^ 1074))" using e[of 5] by simp
  show "dbl (4 * (1 / 2 ^ 1074) + 2 * (1 / 2 ^ 1074)) = Fin (6 * (1 / 2 ^ 1074))" using e[of 6] by simp
  show "dbl (5 * (1 / 2 ^ 1074) / 5) = Fin (1 / 2 ^ 1074)" using e[of 1] by simp
  show "dbl (6 * (1 / 2 ^ 1074) / 5) = Fin (1 / 2 ^ 1074)"
  proof -
    have "dbl (6 * (1 / 2 ^ 1074) / 5)
            = Fin (of_int (round_even (6 * (1 / 2 ^ 1074) / 5 * 2 ^ 1074)) / 2 ^ 1074)"
      by (rule dbl_subnormal) simp_all
    moreover have "round_even (6 * (1 / 2 ^ 1074) / 5 * 2 ^ 1074) = 1"
      by (rule round_even_down) simp_all
    ultimately show ?thesis by simp
  qed
  show "dbl (2 / 100) = Fin (5764607523034235 / 2 ^ 58)" by (rule dbl_threshold)
  show "(0::real) < 5764607523034235 / 2 ^ 58" by simp
qed

lemma underflow_change:
  "sum_list (map close (slice_last 5 underflow_series)) / 5
     - sum_list (map close (take 5 underflow_series)) / 5
   = 20 / 100 * (sum_list (map close (take 5 underflow_series)) / 5)"
  by (simp add: underflow_series_def flat_candle_def slice_last_def)

text \<open>The trend of a series, up to the margin at the threshold.\<close>

lemma identifyTrend_rule:
  assumes len: "10 \<le> length cs"
    and r: "\<forall>c \<in> set cs. 1 / 10 ^ 100 \<le> close c \<and> close c \<le> 10 ^ 100"
  shows "(2 / 100 + 1 / 10 ^ 12) * first5_average cs < last5_average cs - first5_average cs
           \<longrightarrow> identifyTrend cs = ''BULLISH''"
    and "last5_average cs - first5_average cs < - ((2 / 100 + 1 / 10 ^ 12) * first5_average cs)
           \<longrightarrow> identifyTrend cs = ''BEARISH''"
    and "\<bar>last5_average cs - first5_average cs\<bar> < (2 / 100 - 1 / 10 ^ 12) * first5_average cs
           \<longrightarrow> identifyTrend cs = ''NEUTRAL''"
    and "identifyTrend cs = ''BULLISH''
           \<longrightarrow> (2 / 100 - 1 / 10 ^ 12) * first5_average cs \<le> last5_average cs - first5_average cs"
    and "identifyTrend cs = ''BEARISH''
           \<longrightarrow> last5_average cs - first5_average cs \<le> - ((2 / 100 - 1 / 10 ^ 12) * first5_average cs)"
    and "identifyTrend cs \<in> {''BULLISH'', ''BEARISH'', ''NEUTRAL''}"
proof -
  define F where "F = first5_average cs"
  define L where "L = last5_average cs"
  have e12: "(10::real) ^ 12 = 1000000000000" by simp
  obtain c t :: real where
    i: "identifyTrend cs = (if t < c then ''BULLISH'' else if c < - t then ''BEARISH'' else ''NEUTRAL'')"
    and a: "(2 / 100 + 1 / 10 ^ 12) * F < L - F \<longrightarrow> t < c"
    and b: "L - F < (2 / 100 - 1 / 10 ^ 12) * F \<longrightarrow> \<not> t < c"
    and c: "L - F < - ((2 / 100 + 1 / 10 ^ 12) * F) \<longrightarrow> c < - t"
    and d: "- ((2 / 100 - 1 / 10 ^ 12) * F) < L - F \<longrightarrow> \<not> c < - t"
    and t: "0 < t"
    using identifyTrend_values[OF len r]
    unfolding F_def L_def first5_average_def last5_average_def e12 by blast
  show "(2 / 100 + 1 / 10 ^ 12) * first5_average cs < last5_average cs - first5_average cs
           \<longrightarrow> identifyTrend cs = ''BULLISH''"
    using a i unfolding F_def L_def by simp
  show "last5_average cs - first5_average cs < - ((2 / 100 + 1 / 10 ^ 12) * first5_average cs)
           \<longrightarrow> identifyTrend cs = ''BEARISH''"
  proof
    assume "last5_average cs - first5_average cs < - ((2 / 100 + 1 / 10 ^ 12) * first5_average cs)"
    then have "c < - t" using c unfolding F_def L_def by blast
    moreover from this have "\<not> t < c" using t by linarith
    ultimately show "identifyTrend cs = ''BEARISH''" using i by simp
  qed
  show "\<bar>last5_average cs - first5_average cs\<bar> < (2 / 100 - 1 / 10 ^ 12) * first5_average cs
           \<longrightarrow> identifyTrend cs = ''NEUTRAL''"
  proof
    assume h: "\<bar>last5_average cs - first5_average cs\<bar> < (2 / 100 - 1 / 10 ^ 12) * first5_average cs"
    then have "L - F < (2 / 100 - 1 / 10 ^ 12) * F" "- ((2 / 100 - 1 / 10 ^ 12) * F) < L - F"
      unfolding F_def L_def by linarith+
    then have "\<not> t < c" "\<not> c < - t" using b d by blast+
    then show "identifyTrend cs = ''NEUTRAL''" using i by simp
  qed
  show "identifyTrend cs = ''BULLISH''
           \<longrightarrow> (2 / 100 - 1 / 10 ^ 12) * first5_average cs \<le> last5_average cs - first5_average cs"
  proof
    assume "identifyTrend cs = ''BULLISH''"
    then have "t < c" using i by (simp split: if_splits)
    then have "\<not> L - F < (2 / 100 - 1 / 10 ^ 12) * F" using b by blast
    then show "(2 / 100 - 1 / 10 ^ 12) * first5_average cs \<le> last5_average cs - first5_average cs"
      unfolding F_def L_def by linarith
  qed
  show "identifyTrend cs = ''BEARISH''
           \<longrightarrow> last5_average cs - first5_average cs \<le> - ((2 / 100 - 1 / 10 ^ 12) * first5_average cs)"
  proof
    assume "identifyTrend cs = ''BEARISH''"
    then have "c < - t" using i by (simp split: if_splits)
    then have "\<not> - ((2 / 100 - 1 / 10 ^ 12) * F) < L - F" using d by blast
    then show "last5_average cs - first5_average cs \<le> - ((2 / 100 - 1 / 10 ^ 12) * first5_average cs)"
      unfolding F_def L_def by linarith
  qed
  show "identifyTrend cs \<in> {''BULLISH'', ''BEARISH'', ''NEUTRAL''}"
    using i by simp
qed

text \<open>The result of the aggregator in terms of the timeframes that report.\<close>

lemma tf_entry_trend:
  "map (\<lambda>e. (fst e, tf_trend (snd e))) (tf_entry pd tf)
     = (case reported_series pd tf of None \<Rightarrow> [] | Some d \<Rightarrow> [(tf, identifyTrend d)])"
  by (simp add: tf_entry_def reported_series_def split: option.splits)

lemma individual_trends:
  "map (\<lambda>e. (fst e, tf_trend (snd e))) (individual (analyzeMultiTimeframe pd)) = reported_trends pd"
  by (simp add: analyzeMultiTimeframe_def Let_def timeframes_def reported_trends_def
        tf_entry_trend List.map_filter_simps split: option.splits)

lemma count_trend_individual:
  "length (filter (\<lambda>t. t = x) (map (\<lambda>r. tf_trend (snd r)) (concat (map (tf_entry pd) timeframes))))
     = count_trend x pd"
proof -
  have "count_trend x pd
          = length (filter (\<lambda>e. snd e = x)
              (map (\<lambda>e. (fst e, tf_trend (snd e))) (individual (analyzeMultiTimeframe pd))))"
    by (simp only: count_trend_def individual_trends)
  also have "\<dots> = length (filter (\<lambda>t. t = x)
                       (map (\<lambda>r. tf_trend (snd r)) (concat (map (tf_entry pd) timeframes))))"
    by (simp add: analyzeMultiTimeframe_def Let_def filter_map o_def)
  finally show ?thesis by simp
qed

lemma analyzeMultiTimeframe_counts:
  "analyzeMultiTimeframe pd =
     \<lparr>individual = concat (map (tf_entry pd) timeframes),
      consensus = (if count_trend ''BEARISH'' pd + 2 \<le> count_trend ''BULLISH'' pd then ''BULLISH''
                   else if count_trend ''BULLISH'' pd + 2 \<le> count_trend ''BEARISH'' pd then ''BEARISH''
                   else ''NEUTRAL''),
      mtf_strength = ddiv (jabs (dsub (Fin (real (count_trend ''BULLISH'' pd)))
                                       (Fin (real (count_trend ''BEARISH'' pd)))))
                          (Fin 5),
      alignment = (if count_trend ''BULLISH'' pd = 0 \<and> count_trend ''BEARISH'' pd = 0 then ''NEUTRAL''
                   else if count_trend ''BEARISH'' pd * 2 < count_trend ''BULLISH'' pd then ''STRONG_BULLISH''
                   else if count_trend ''BULLISH'' pd * 2 < count_trend ''BEARISH'' pd then ''STRONG_BEARISH''
                   else ''MIXED'')\<rparr>"
  unfolding analyzeMultiTimeframe_def Let_def count_trend_individual
  by (simp add: timeframes_def)

lemma length_map_filter_le: "length (List.map_filter f xs) \<le> length xs"
  by (induction xs) (auto simp: List.map_filter_simps split: option.splits)

lemma count_trend_le: "count_trend t pd \<le> 5"
proof -
  have "count_trend t pd \<le> length (reported_trends pd)"
    unfolding count_trend_def by (rule length_filter_le)
  also have "\<dots> \<le> length [''5m'', ''15m'', ''1h'', ''4h'', ''1d'']"
    unfolding reported_trends_def by (rule length_map_filter_le)
  also have "\<dots> = 5" by simp
  finally show ?thesis .
qed

lemma mtf_strength_formula:
  "mtf_strength (analyzeMultiTimeframe pd)
     = dbl (\<bar>real (count_trend ''BULLISH'' pd) - real (count_trend ''BEARISH'' pd)\<bar> / 5)"
proof -
  define b where "b = count_trend ''BULLISH'' pd"
  define s where "s = count_trend ''BEARISH'' pd"
  have le: "b \<le> 5" "s \<le> 5" unfolding b_def s_def by (rule count_trend_le)+
  have "\<bar>int b - int s\<bar> < 2 ^ 53" using le by simp
  from dbl_of_int[OF this]
  have d: "dbl (real b - real s) = Fin (real b - real s)" by simp
  have "mtf_strength (analyzeMultiTimeframe pd)
          = ddiv (jabs (dsub (Fin (real b)) (Fin (real s)))) (Fin 5)"
    by (simp add: analyzeMultiTimeframe_counts b_def s_def)
  also have "\<dots> = dbl (\<bar>real b - real s\<bar> / 5)"
    by (simp add: dsub_Fin d ddiv_Fin)
  finally show ?thesis unfolding b_def s_def .
qed

lemma consensus_counts:
  "(consensus (analyzeMultiTimeframe pd) = ''BULLISH''
      \<longleftrightarrow> count_trend ''BEARISH'' pd + 2 \<le> count_trend ''BULLISH'' pd)"
  "(consensus (analyzeMultiTimeframe pd) = ''BEARISH''
      \<longleftrightarrow> count_trend ''BULLISH'' pd + 2 \<le> count_trend ''BEARISH'' pd)"
  "consensus (analyzeMultiTimeframe pd) \<in> {''BULLISH'', ''BEARISH'', ''NEUTRAL''}"
  by (simp_all add: analyzeMultiTimeframe_counts)

lemma count_trend_snd:
  "count_trend t pd = length (filter (\<lambda>x. x = t) (map snd (reported_trends pd)))"
  by (simp add: count_trend_def filter_map o_def)

lemma all_five_bullish:
  assumes "map snd (reported_trends pd) = replicate 5 ''BULLISH''"
  shows "consensus (analyzeMultiTimeframe pd) = ''BULLISH''"
    and "mtf_strength (analyzeMultiTimeframe pd) = Fin 1"
    and "alignment (analyzeMultiTimeframe pd) = ''STRONG_BULLISH''"
proof -
  have b: "count_trend ''BULLISH'' pd = 5" by (simp add: count_trend_snd assms)
  have s: "count_trend ''BEARISH'' pd = 0" by (simp add: count_trend_snd assms)
  show "consensus (analyzeMultiTimeframe pd) = ''BULLISH''"
    by (simp add: analyzeMultiTimeframe_counts b s)
  show "alignment (analyzeMultiTimeframe pd) = ''STRONG_BULLISH''"
    by (simp add: analyzeMultiTimeframe_counts b s)
  have "dbl 1 = Fin 1" using dbl_of_int[of 1] by simp
  then show "mtf_strength (analyzeMultiTimeframe pd) = Fin 1"
    by (simp add: mtf_strength_formula b s)
qed

lemma rising_series_facts:
  "10 \<le> length rising_series"
  "\<forall>c \<in> set rising_series. 1 / 10 ^ 100 \<le> close c \<and> close c \<le> 10 ^ 100"
  "first5_average rising_series = 100" "last5_average rising_series = 110"
  by (auto simp: rising_series_def flat_candle_def first5_average_def last5_average_def
        slice_last_def sum_list_replicate)

lemma rising_series_bullish: "identifyTrend rising_series = ''BULLISH''"
  using identifyTrend_rule(1)[OF rising_series_facts(1,2)]
  by (simp add: rising_series_facts(3,4))

lemma reported_rising:
  "reported_trends rising_priceData
     = [(''5m'', ''BULLISH''), (''15m'', ''BULLISH''), (''1h'', ''BULLISH''),
        (''4h'', ''BULLISH''), (''1d'', ''BULLISH'')]"
  by (simp add: reported_trends_def reported_series_def rising_priceData_def
        List.map_filter_simps rising_series_bullish)
     (simp add: rising_series_def)

lemma reported_one_timeframe:
  "reported_trends one_timeframe_priceData = [(''1h'', ''BULLISH'')]"
  by (simp add: reported_trends_def reported_series_def one_timeframe_priceData_def
        List.map_filter_simps rising_series_bullish)
     (simp add: rising_series_def)

subsection \<open>Examples and zero volume\<close>

lemma trained_example_isTrained: "isTrained trained_example"
proof -
  let ?c100 = "replicate 100 (flat_candle 1 1)"
  obtain fs where fs: "extractHMMFeatures ?c100 = Inr fs" and lfs: "length fs = 80"
    using extractHMMFeatures_ok[of ?c100] by (auto simp: windowSize_def)
  obtain st1 observations where d: "discretizeObservations km0 new_hmm fs = (st1, Inr observations)"
    and o: "observations = map (\<lambda>i. i mod 8) [0..<length fs]"
    using km0_discretize[of fs new_hmm] lfs by auto
  have ne: "observations \<noteq> []" using o lfs by auto
  have "minTrainingData \<le> length ?c100" by (simp add: minTrainingData_def)
  from trainModel_success[OF this fs d ne] show ?thesis
    by (auto simp: trained_example_def)
qed

lemma emap_all2: "emap f xs = Inr ys \<Longrightarrow> list_all2 (\<lambda>x y. f x = Inr y) xs ys"
proof (induction xs arbitrary: ys)
  case Nil
  then show ?case by simp
next
  case (Cons a xs)
  then show ?case
    by (cases "f a"; cases "emap f xs") auto
qed

lemma ss_sum_loop_Fin: "ss_sum_loop (Fin a) (Fin 0) (map Fin xs) = Fin (a + sum_list xs)"
  by (induction xs arbitrary: a) (simp_all add: Let_def jsub_def add.assoc)

lemma ss_sum_Fin: "ss_sum (map Fin xs) = Fin (sum_list xs)"
  by (cases xs) (simp_all add: ss_sum_def ss_sum_loop_Fin)

lemma sum_zero_volumes:
  "\<forall>c \<in> set w. volume c = 0 \<Longrightarrow> ss_sum (map (\<lambda>d. Fin (volume d)) w) = Fin 0"
proof -
  assume a: "\<forall>c \<in> set w. volume c = 0"
  have "map (\<lambda>d. Fin (volume d)) w = map Fin (map volume w)" by simp
  moreover have "sum_list (map volume w) = 0" using a by (induction w) auto
  ultimately show ?thesis by (simp only: ss_sum_Fin)
qed

lemma feature_at_zero_volume:
  assumes i: "windowSize \<le> i" "i < length cs"
    and z: "\<forall>c \<in> set cs. volume c = 0"
    and f: "feature_at cs i = Inr f"
  shows "volumeRatio f = NaN"
proof -
  define window where "window = take windowSize (drop (i - windowSize) cs)"
  let ?closes = "map (\<lambda>d. Fin (close d)) window"
  let ?volumes = "map (\<lambda>d. Fin (volume d)) window"
  have len: "length window = 20"
    using i by (simp add: window_def windowSize_def)
  have ne: "window \<noteq> []" using len by auto
  have zw: "\<forall>c \<in> set window. volume c = 0"
    using z unfolding window_def by (meson in_set_dropD in_set_takeD)
  have mv: "ss_mean ?volumes = Inr (Fin 0)"
    using ne by (simp add: ss_mean_def sum_zero_volumes[OF zw])
  have lastv: "aget ?volumes (int (length window) - 1) = Fin 0"
    using zw len by (simp add: aget_def)
  have r: "simple_returns ?closes \<noteq> []"
    by (rule simple_returns_nonempty) (simp add: len)
  obtain mr where mr: "ss_mean (simple_returns ?closes) = Inr mr"
    using ss_mean_nonempty[OF r] by blast
  obtain rv where rv: "ss_standardDeviation (simple_returns ?closes) = Inr rv"
    using ss_standardDeviation_nonempty[OF r] by blast
  obtain sk where sk: "calculateSkewness (simple_returns ?closes) = Inr sk"
    using calculateSkewness_nonempty[OF r] by blast
  obtain ku where ku: "calculateKurtosis (simple_returns ?closes) = Inr ku"
    using calculateKurtosis_nonempty[OF r] by blast
  obtain sdc where sdc: "ss_standardDeviation ?closes = Inr sdc"
    using ss_standardDeviation_nonempty[of ?closes] ne by auto
  obtain mc where mc: "ss_mean ?closes = Inr mc"
    using ss_mean_nonempty[of ?closes] ne by auto
  obtain sdv where sdv: "ss_standardDeviation ?volumes = Inr sdv"
    using ss_standardDeviation_nonempty[of ?volumes] ne by auto
  obtain ar where ar:
    "ss_mean (map (\<lambda>idx. jdiv (jsub (aget (map (\<lambda>d. Fin (high d)) window) (int idx))
                                     (aget (map (\<lambda>d. Fin (low d)) window) (int idx)))
                               (aget ?closes (int idx)))
                  [0..<length (map (\<lambda>d. Fin (high d)) window)]) = Inr ar"
    using ne by (simp add: ss_mean_def)
  obtain rs where rs: "calculateSimpleRSI ?closes = Inr rs"
    using calculateSimpleRSI_total by blast
  have "volumeRatio f = jdiv (aget ?volumes (int (length window) - 1)) (Fin 0)"
    using f unfolding feature_at_def Let_def window_def[symmetric]
    by (simp only: mr rv sk ku sdc mc mv sdv ar rs ebind_Inr) auto
  then show ?thesis by (simp add: lastv)
qed

lemma extractHMMFeatures_zero_volume:
  assumes z: "\<forall>c \<in> set cs. volume c = 0"
    and fs: "extractHMMFeatures cs = Inr fs"
  shows "map volumeRatio fs = replicate (length cs - windowSize) NaN"
proof -
  have a: "list_all2 (\<lambda>i f. feature_at cs i = Inr f) [windowSize..<length cs] fs"
    using fs unfolding extractHMMFeatures_def by (rule emap_all2)
  then have l: "length fs = length cs - windowSize"
    by (auto dest: list_all2_lengthD)
  have "volumeRatio (fs ! k) = NaN" if "k < length fs" for k
  proof -
    have "feature_at cs (windowSize + k) = Inr (fs ! k)"
      using a that l by (simp add: list_all2_conv_all_nth)
    then show ?thesis
      using feature_at_zero_volume[of "windowSize + k" cs "fs ! k"] z that l by simp
  qed
  then show ?thesis
    by (simp add: list_eq_iff_nth_eq l)
qed

lemma extractVolumeFeatures_zero_volume:
  assumes ne: "cs \<noteq> []" and z: "\<forall>c \<in> set cs. volume c = 0"
  shows "\<exists>vf. extractVolumeFeatures cs = Inr vf \<and> vf_volumeRatio vf = NaN"
proof -
  let ?volumes = "map (\<lambda>d. Fin (volume d)) cs"
  have s: "slice_last 20 ?volumes = map (\<lambda>d. Fin (volume d)) (slice_last 20 cs)"
    by (simp add: slice_last_def drop_map)
  have sne: "slice_last 20 cs \<noteq> []"
    using ne by (cases cs) (auto simp: slice_last_def)
  have zs: "\<forall>c \<in> set (slice_last 20 cs). volume c = 0"
    using z by (auto simp: slice_last_def dest: in_set_dropD)
  have m: "ss_mean (slice_last 20 ?volumes) = Inr (Fin 0)"
    unfolding s using sne by (simp add: ss_mean_def sum_zero_volumes[OF zs])
  obtain sd where sd: "ss_standardDeviation (slice_last 20 ?volumes) = Inr sd"
    using ss_standardDeviation_nonempty[of "slice_last 20 ?volumes"] sne s by auto
  have lastv: "aget ?volumes (int (length cs) - 1) = Fin 0"
    using ne z by (cases cs rule: rev_cases) (auto simp: aget_def nth_append)
  show ?thesis
    unfolding extractVolumeFeatures_def Let_def
    by (simp add: m sd lastv)
qed

lemma trained_prediction_short:
  "length cs < windowSize + 8 \<Longrightarrow> \<exists>st1. trained_prediction km0 st cs = (st1, Inl KMeansError)"
proof -
  assume a: "length cs < windowSize + 8"
  obtain fs where fs: "extractHMMFeatures cs = Inr fs" and l: "length fs = length cs - windowSize"
    using extractHMMFeatures_ok by blast
  have "length fs < 8" using a l by simp
  then show ?thesis
    by (simp add: trained_prediction_def fs discretizeObservations_def km0_def Let_def)
qed

subsection \<open>Training from the uniform initialization\<close>

lemma numStates_pos: "0 < numStates"
  by (simp add: numStates_def states_def)

lemma map_upt_const: "(\<And>i. i < n \<Longrightarrow> f i = c) \<Longrightarrow> map f [0..<n] = replicate n c"
  by (induction n) (simp_all add: replicate_append_same)

lemma sum_loop_const: "(\<And>i. i < n \<Longrightarrow> f i = Fin c) \<Longrightarrow> sum_loop n f = Fin (real n * c)"
  unfolding sum_loop_def by (induction n) (simp_all add: algebra_simps)

lemma aget_replicate: "i < n \<Longrightarrow> aget (replicate n c) (int i) = c"
  by (simp add: aget_def)

lemma mget_rows: "t < length m \<Longrightarrow> m ! t = replicate n c \<Longrightarrow> i < n \<Longrightarrow> mget m t i = c"
  by (simp add: mget_def aget_replicate)

lemma sym_initial: "sym_hmm st p a e \<Longrightarrow> i < numStates \<Longrightarrow> aget (initialProbs st) (int i) = Fin p"
  by (simp add: sym_hmm_def aget_replicate)

lemma sym_transition:
  "sym_hmm st p a e \<Longrightarrow> i < numStates \<Longrightarrow> j < numStates
   \<Longrightarrow> mget (transitionMatrix st) i j = Fin a"
  by (simp add: sym_hmm_def mget_def aget_replicate)

lemma sym_emission:
  "sym_hmm st p a e \<Longrightarrow> i < numStates \<Longrightarrow> ob < length e
   \<Longrightarrow> mget (emissionMatrix st) i ob = Fin (e ! ob)"
  by (simp add: sym_hmm_def mget_def aget_def)

lemma forward_init_sym:
  assumes "sym_hmm st p a e" "ob < length e"
  shows "forward_init st ob = replicate numStates (Fin (p * e ! ob))"
  unfolding forward_init_def
  by (rule map_upt_const) (simp add: sym_initial[OF assms(1)] sym_emission[OF assms(1) _ assms(2)])

lemma forward_step_sym:
  assumes "sym_hmm st p a e" "ob < length e"
  shows "forward_step st (replicate numStates (Fin x)) ob
           = replicate numStates (Fin (real numStates * (x * a) * e ! ob))"
  unfolding forward_step_def
proof (rule map_upt_const)
  fix j assume j: "j < numStates"
  have "sum_loop numStates (\<lambda>i. jmul (aget (replicate numStates (Fin x)) (int i))
            (mget (transitionMatrix st) i j)) = Fin (real numStates * (x * a))"
    by (rule sum_loop_const) (simp add: aget_replicate sym_transition[OF assms(1) _ j])
  then show "jmul (sum_loop numStates (\<lambda>i. jmul (aget (replicate numStates (Fin x)) (int i))
            (mget (transitionMatrix st) i j))) (mget (emissionMatrix st) j ob)
        = Fin (real numStates * (x * a) * e ! ob)"
    by (simp add: sym_emission[OF assms(1) j assms(2)])
qed

lemma backward_step_sym:
  assumes "sym_hmm st p a e" "ob < length e"
  shows "backward_step st ob (replicate numStates (Fin y))
           = replicate numStates (Fin (real numStates * (a * e ! ob * y)))"
  unfolding backward_step_def
proof (rule map_upt_const)
  fix i assume i: "i < numStates"
  show "sum_loop numStates (\<lambda>j. jmul (jmul (mget (transitionMatrix st) i j)
            (mget (emissionMatrix st) j ob)) (aget (replicate numStates (Fin y)) (int j)))
        = Fin (real numStates * (a * e ! ob * y))"
    by (rule sum_loop_const)
       (simp add: aget_replicate sym_transition[OF assms(1) i] sym_emission[OF assms(1) _ assms(2)])
qed

lemma pos_rowI: "0 < x \<Longrightarrow> pos_row (replicate numStates (Fin x))"
  unfolding pos_row_def by blast

lemma forward_pass_sym:
  assumes s: "sym_hmm st p a e" and a: "0 < a"
  shows "pos_obs e observations \<Longrightarrow> 0 < x \<Longrightarrow>
     length (forward_pass st (replicate numStates (Fin x)) observations) = length observations \<and>
     (\<forall>row \<in> set (forward_pass st (replicate numStates (Fin x)) observations). pos_row row)"
proof (induction observations arbitrary: x)
  case Nil
  then show ?case by simp
next
  case (Cons ob obs)
  have ob: "ob < length e" "0 < e ! ob" using Cons.prems(1) by (simp_all add: pos_obs_def)
  have po: "pos_obs e obs" using Cons.prems(1) by (simp add: pos_obs_def)
  let ?y = "real numStates * (x * a) * e ! ob"
  have y: "0 < ?y" using ob a Cons.prems(2) numStates_pos by simp
  have st: "forward_step st (replicate numStates (Fin x)) ob = replicate numStates (Fin ?y)"
    by (rule forward_step_sym[OF s ob(1)])
  show ?case
    using Cons.IH[OF po y] y by (simp add: st Let_def pos_rowI)
qed

lemma forward_rows_sym:
  assumes s: "sym_hmm st p a e" and p: "0 < p" and a: "0 < a"
    and po: "pos_obs e observations"
  shows "length (forward_rows st observations) = length observations"
    and "\<forall>row \<in> set (forward_rows st observations). pos_row row"
proof -
  show "length (forward_rows st observations) = length observations"
  proof (cases observations)
    case Nil
    then show ?thesis by (simp add: forward_rows_def)
  next
    case (Cons ob obs)
    have ob: "ob < length e" "0 < e ! ob" using po Cons by (simp_all add: pos_obs_def)
    have "pos_obs e obs" using po Cons by (simp add: pos_obs_def)
    from forward_pass_sym[OF s a this, of "p * e ! ob"] ob p
    show ?thesis by (simp add: forward_rows_def Cons Let_def forward_init_sym[OF s ob(1)])
  qed
  show "\<forall>row \<in> set (forward_rows st observations). pos_row row"
  proof (cases observations)
    case Nil
    then show ?thesis by (simp add: forward_rows_def)
  next
    case (Cons ob obs)
    have ob: "ob < length e" "0 < e ! ob" using po Cons by (simp_all add: pos_obs_def)
    have "pos_obs e obs" using po Cons by (simp add: pos_obs_def)
    from forward_pass_sym[OF s a this, of "p * e ! ob"] ob p
    show ?thesis
      by (simp add: forward_rows_def Cons Let_def forward_init_sym[OF s ob(1)] pos_rowI)
  qed
qed

lemma backward_rows_sym:
  assumes s: "sym_hmm st p a e" and a: "0 < a"
  shows "pos_obs e observations \<Longrightarrow>
     length (backward_rows st observations) = length observations \<and>
     (\<forall>row \<in> set (backward_rows st observations). pos_row row)"
proof (induction observations rule: induct_list012)
  case 1
  then show ?case by simp
next
  case (2 ob)
  then show ?case by (simp add: pos_rowI)
next
  case (3 ob ob' obs)
  have po: "pos_obs e (ob' # obs)" using 3(3) by (simp add: pos_obs_def)
  have ob': "ob' < length e" "0 < e ! ob'" using 3(3) by (simp_all add: pos_obs_def)
  let ?rest = "backward_rows st (ob' # obs)"
  have len: "length ?rest = length (ob' # obs)" and rows: "\<forall>row \<in> set ?rest. pos_row row"
    using 3(2)[OF po] by simp_all
  have "?rest \<noteq> []" using len by auto
  then have "hd ?rest \<in> set ?rest" by simp
  then obtain y where y: "0 < y" "hd ?rest = replicate numStates (Fin y)"
    using rows unfolding pos_row_def by blast
  have "backward_step st ob' (hd ?rest)
          = replicate numStates (Fin (real numStates * (a * e ! ob' * y)))"
    unfolding y(2) by (rule backward_step_sym[OF s ob'(1)])
  moreover have "0 < real numStates * (a * e ! ob' * y)"
    using a ob' y numStates_pos by simp
  ultimately show ?case
    using len rows by (simp add: Let_def pos_rowI)
qed

lemma backward_rows_rec:
  assumes s: "sym_hmm st p a e" and a: "0 < a"
  shows "pos_obs e observations \<Longrightarrow> t + 1 < length observations \<Longrightarrow>
     \<exists>y. backward_rows st observations ! (t + 1) = replicate numStates (Fin y) \<and>
         backward_rows st observations ! t
           = replicate numStates (Fin (real numStates * (a * e ! (observations ! (t + 1)) * y)))"
proof (induction observations arbitrary: t rule: induct_list012)
  case 1
  then show ?case by simp
next
  case (2 ob)
  then show ?case by simp
next
  case (3 ob ob' obs)
  have po: "pos_obs e (ob' # obs)" using 3(3) by (simp add: pos_obs_def)
  have ob': "ob' < length e" using 3(3) by (simp add: pos_obs_def)
  let ?rest = "backward_rows st (ob' # obs)"
  have len: "length ?rest = length (ob' # obs)" and rows: "\<forall>row \<in> set ?rest. pos_row row"
    using backward_rows_sym[OF s a po] by simp_all
  have rs: "backward_rows st (ob # ob' # obs) = backward_step st ob' (hd ?rest) # ?rest"
    by (simp add: Let_def)
  show ?case
  proof (cases t)
    case 0
    have ne: "?rest \<noteq> []" using len by auto
    then have "hd ?rest \<in> set ?rest" by simp
    then obtain y where y: "hd ?rest = replicate numStates (Fin y)"
      using rows unfolding pos_row_def by blast
    have h: "?rest ! 0 = hd ?rest" using ne by (simp add: hd_conv_nth)
    have "backward_step st ob' (hd ?rest)
            = replicate numStates (Fin (real numStates * (a * e ! ob' * y)))"
      unfolding y by (rule backward_step_sym[OF s ob'])
    then show ?thesis
      unfolding rs using 0 y h by (intro exI[of _ y]) simp
  next
    case (Suc t')
    have "t' + 1 < length (ob' # obs)" using 3(4) Suc by simp
    from 3(2)[OF po this] obtain y where
      "?rest ! (t' + 1) = replicate numStates (Fin y)"
      "?rest ! t' = replicate numStates (Fin (real numStates * (a * e ! ((ob' # obs) ! (t' + 1)) * y)))"
      by blast
    then show ?thesis
      unfolding rs using Suc by (intro exI[of _ y]) simp
  qed
qed

lemma foldl_cond_const:
  "(\<And>t. t < n \<Longrightarrow> g t = Fin c) \<Longrightarrow>
   foldl (\<lambda>s t. if P t then jadd s (g t) else s) (Fin 0) [0..<n]
     = Fin (real (length (filter P [0..<n])) * c)"
  by (induction n) (simp_all add: algebra_simps)

lemma jdiv_Fin_nz: "b \<noteq> 0 \<Longrightarrow> jdiv (Fin a) (Fin b) = Fin (a / b)"
  by simp

lemma jmul_Fin: "jmul (Fin a) (Fin b) = Fin (a * b)"
  by simp

lemma updateParameters_sym:
  assumes s: "sym_hmm st p a e" and p: "0 < p" and a: "0 < a"
    and po: "pos_obs e observations"
    and T2: "2 \<le> length observations"
    and fb: "forwardBackward st observations = Inr fb"
  shows "updateParameters st observations (fb_alpha fb) (fb_beta fb) = reestimated st observations"
proof -
  let ?T = "length observations"
  let ?N = "numStates"
  have ne: "observations \<noteq> []" using T2 by auto
  have al: "fb_alpha fb = forward_rows st observations"
    and be: "fb_beta fb = backward_rows st observations"
    using fb ne by (auto simp: forwardBackward_def Let_def)
  let ?alpha = "forward_rows st observations"
  let ?beta = "backward_rows st observations"
  have la: "length ?alpha = ?T" and ra: "\<forall>row \<in> set ?alpha. pos_row row"
    using forward_rows_sym[OF s p a po] by simp_all
  have lb: "length ?beta = ?T" and rb: "\<forall>row \<in> set ?beta. pos_row row"
    using backward_rows_sym[OF s a po] by simp_all
  have "\<forall>t. \<exists>x. t < ?T \<longrightarrow> 0 < x \<and> ?alpha ! t = replicate ?N (Fin x)"
    using ra la unfolding pos_row_def by (metis nth_mem)
  then obtain X where X: "\<And>t. t < ?T \<Longrightarrow> 0 < X t \<and> ?alpha ! t = replicate ?N (Fin (X t))"
    by metis
  have "\<forall>t. \<exists>y. t < ?T \<longrightarrow> 0 < y \<and> ?beta ! t = replicate ?N (Fin y)"
    using rb lb unfolding pos_row_def by (metis nth_mem)
  then obtain Y where Y: "\<And>t. t < ?T \<Longrightarrow> 0 < Y t \<and> ?beta ! t = replicate ?N (Fin (Y t))"
    by metis
  have rec: "Y t = real ?N * (a * e ! (observations ! (t + 1)) * Y (t + 1))" if t1: "t + 1 < ?T" for t
  proof -
    obtain y where y: "?beta ! (t + 1) = replicate ?N (Fin y)"
      "?beta ! t = replicate ?N (Fin (real ?N * (a * e ! (observations ! (t + 1)) * y)))"
      using backward_rows_rec[OF s a po t1] by blast
    have "Y (t + 1) = y" using Y[OF t1] y(1) numStates_pos by simp
    moreover have "t < ?T" using t1 by simp
    ultimately show ?thesis using Y[of t] y(2) numStates_pos by simp
  qed
  have ma: "mget ?alpha t i = Fin (X t)" if "t < ?T" "i < ?N" for t i
    using that X[of t] la by (simp add: mget_rows)
  have mb: "mget ?beta t i = Fin (Y t)" if "t < ?T" "i < ?N" for t i
    using that Y[of t] lb by (simp add: mget_rows)
  have Npos: "0 < real ?N" using numStates_pos by simp
  have grow: "(let normalizer = sum_loop ?N (\<lambda>i. jmul (mget ?alpha t i) (mget ?beta t i))
               in map (\<lambda>i. jdiv (jmul (mget ?alpha t i) (mget ?beta t i)) normalizer) [0..<?N])
              = replicate ?N (Fin (1 / real ?N))" if t: "t < ?T" for t
  proof -
    have n: "sum_loop ?N (\<lambda>i. jmul (mget ?alpha t i) (mget ?beta t i))
               = Fin (real ?N * (X t * Y t))"
      by (rule sum_loop_const) (simp add: ma[OF t] mb[OF t])
    have nz: "real ?N * (X t * Y t) \<noteq> 0" using X[OF t] Y[OF t] Npos by simp
    have eq: "X t * Y t / (real ?N * (X t * Y t)) = 1 / real ?N"
      using X[OF t] Y[OF t] Npos by (simp add: field_simps)
    have "jdiv (jmul (Fin (X t)) (Fin (Y t))) (Fin (real ?N * (X t * Y t))) = Fin (1 / real ?N)"
      by (simp only: jmul_Fin jdiv_Fin_nz[OF nz] eq)
    then show ?thesis
      unfolding Let_def n
      by (intro map_upt_const) (simp only: ma[OF t] mb[OF t])
  qed
  have ga: "gamma_rows ?T ?alpha ?beta = replicate ?T (replicate ?N (Fin (1 / real ?N)))"
    unfolding gamma_rows_def by (rule map_upt_const) (rule grow)
  have mg: "mget (gamma_rows ?T ?alpha ?beta) t i = Fin (1 / real ?N)" if "t < ?T" "i < ?N" for t i
    unfolding ga using that by (simp add: mget_def aget_replicate)
  have xiv: "xi st observations ?alpha ?beta i j t = Fin (1 / real ?N)"
    if "t < ?T - 1" "i < ?N" "j < ?N" for i j t
  proof -
    have t1: "t + 1 < ?T" and t0: "t < ?T" using that(1) by simp_all
    have ob: "observations ! (t + 1) \<in> set observations" using t1 by simp
    then have ev: "observations ! (t + 1) < length e" "0 < e ! (observations ! (t + 1))"
      using po by (simp_all add: pos_obs_def)
    have nz: "X t * Y t \<noteq> 0" using X[OF t0] Y[OF t0] by simp
    have eq: "X t * a * e ! (observations ! (t + 1)) * Y (t + 1) / (X t * Y t) = 1 / real ?N"
      using X[OF t0] Y[OF t1] a ev(2) Npos by (simp add: rec[OF t1] field_simps)
    show ?thesis
      unfolding xi_def
      by (simp only: ma[OF t0 that(2)] mb[OF t0 that(2)] mb[OF t1 that(3)]
          sym_transition[OF s that(2,3)] sym_emission[OF s that(3) ev(1)]
          jmul_Fin jdiv_Fin_nz[OF nz] eq)
  qed
  have T1: "real (?T - 1) * (1 / real ?N) \<noteq> 0" using T2 Npos by simp
  have T0: "real ?T * (1 / real ?N) \<noteq> 0" using ne Npos by simp
  have ini: "map (\<lambda>i. mget (gamma_rows ?T ?alpha ?beta) 0 i) [0..<?N]
               = replicate ?N (Fin (1 / real ?N))"
    by (rule map_upt_const) (rule mg, use ne in simp_all)
  have tr: "map (\<lambda>i. let denominator = sum_loop (?T - 1) (\<lambda>t. mget (gamma_rows ?T ?alpha ?beta) t i)
                     in map (\<lambda>j. let numerator = sum_loop (?T - 1) (xi st observations ?alpha ?beta i j)
                                  in jdiv numerator denominator) [0..<?N]) [0..<?N]
             = replicate ?N (replicate ?N (Fin 1))"
  proof (rule map_upt_const)
    fix i assume i: "i < ?N"
    have d: "sum_loop (?T - 1) (\<lambda>t. mget (gamma_rows ?T ?alpha ?beta) t i)
               = Fin (real (?T - 1) * (1 / real ?N))"
      by (rule sum_loop_const) (rule mg, use i in simp_all)
    have "map (\<lambda>j. jdiv (sum_loop (?T - 1) (xi st observations ?alpha ?beta i j))
                         (Fin (real (?T - 1) * (1 / real ?N)))) [0..<?N]
            = replicate ?N (Fin 1)"
    proof (rule map_upt_const)
      fix j assume j: "j < ?N"
      have "sum_loop (?T - 1) (xi st observations ?alpha ?beta i j)
              = Fin (real (?T - 1) * (1 / real ?N))"
        by (rule sum_loop_const) (rule xiv[OF _ i j])
      then show "jdiv (sum_loop (?T - 1) (xi st observations ?alpha ?beta i j))
                      (Fin (real (?T - 1) * (1 / real ?N))) = Fin 1"
        using T1 by simp
    qed
    then show "(let denominator = sum_loop (?T - 1) (\<lambda>t. mget (gamma_rows ?T ?alpha ?beta) t i)
                in map (\<lambda>j. let numerator = sum_loop (?T - 1) (xi st observations ?alpha ?beta i j)
                             in jdiv numerator denominator) [0..<?N])
               = replicate ?N (Fin 1)"
      unfolding Let_def d .
  qed
  have em: "map (\<lambda>i. let denominator = sum_loop ?T (\<lambda>t. mget (gamma_rows ?T ?alpha ?beta) t i)
                     in map (\<lambda>k. let numerator =
                                        foldl (\<lambda>s t. if observations ! t = k
                                                      then jadd s (mget (gamma_rows ?T ?alpha ?beta) t i)
                                                      else s) (Fin 0) [0..<?T]
                                  in jdiv numerator denominator) [0..<numSymbols st]) [0..<?N]
             = replicate ?N (map (\<lambda>k. Fin (real (length (filter (\<lambda>t. observations ! t = k) [0..<?T]))
                          / real ?T)) [0..<numSymbols st])"
  proof (rule map_upt_const)
    fix i assume i: "i < ?N"
    have d: "sum_loop ?T (\<lambda>t. mget (gamma_rows ?T ?alpha ?beta) t i)
               = Fin (real ?T * (1 / real ?N))"
      by (rule sum_loop_const) (rule mg, use i in simp_all)
    have nu: "foldl (\<lambda>s t. if observations ! t = k
                            then jadd s (mget (gamma_rows ?T ?alpha ?beta) t i) else s)
                    (Fin 0) [0..<?T]
               = Fin (real (length (filter (\<lambda>t. observations ! t = k) [0..<?T])) * (1 / real ?N))"
      for k
      by (rule foldl_cond_const) (rule mg, use i in simp_all)
    have q: "real c * (1 / real ?N) / (real ?T * (1 / real ?N)) = real c / real ?T" for c
      using Npos by simp
    show "(let denominator = sum_loop ?T (\<lambda>t. mget (gamma_rows ?T ?alpha ?beta) t i)
           in map (\<lambda>k. let numerator =
                              foldl (\<lambda>s t. if observations ! t = k
                                            then jadd s (mget (gamma_rows ?T ?alpha ?beta) t i)
                                            else s) (Fin 0) [0..<?T]
                        in jdiv numerator denominator) [0..<numSymbols st])
          = map (\<lambda>k. Fin (real (length (filter (\<lambda>t. observations ! t = k) [0..<?T]))
                          / real ?T)) [0..<numSymbols st]"
      unfolding Let_def d nu using T0 by (simp add: q)
  qed
  show ?thesis
    unfolding updateParameters_def al be reestimated_def Let_def ini
      tr[unfolded Let_def] em[unfolded Let_def] ..
qed

lemma never_close_to_NInf: "\<not> jlt (jabs (jsub x NInf)) y"
  by (cases x; cases y) (simp_all add: jsub_def)

lemma bw_loop_char:
  assumes ne: "observations \<noteq> []"
    and le: "it \<le> maxIterations"
    and nc: "\<forall>k<it. \<not> successive_close st observations k"
    and prev: "prev = (if it = 0 then NInf else bw_lik st observations (it - 1))"
  shows "\<exists>r. bw_loop (bw_state st observations it) observations prev it
               = (bw_state st observations (bw_iterations r), Inr r)
            \<and> 1 \<le> bw_iterations r \<and> it \<le> bw_iterations r \<and> bw_iterations r \<le> maxIterations
            \<and> bw_likelihood r = bw_lik st observations (bw_iterations r - 1)
            \<and> (\<forall>k<bw_iterations r - 1. \<not> successive_close st observations k)
            \<and> (bw_converged r \<longleftrightarrow> successive_close st observations (bw_iterations r - 1))
            \<and> (\<not> bw_converged r \<longrightarrow> bw_iterations r = maxIterations)"
  using le nc prev
proof (induction "maxIterations - it" arbitrary: it prev)
  case 0
  then have it: "it = maxIterations" by simp
  have pos: "0 < it" using it by (simp add: maxIterations_def)
  have "bw_loop (bw_state st observations it) observations prev it
          = (bw_state st observations it,
             Inr \<lparr>bw_iterations = it, bw_likelihood = prev, bw_converged = False\<rparr>)"
    using it by (subst bw_loop.simps) simp
  moreover have "\<not> successive_close st observations (it - 1)"
    using "0.prems"(2) pos by simp
  ultimately show ?case
    using it pos "0.prems"(2,3)
    by (intro exI[of _ "\<lparr>bw_iterations = it, bw_likelihood = prev, bw_converged = False\<rparr>"]) simp
next
  case (Suc n)
  then have lt: "it < maxIterations" by simp
  let ?S = "bw_state st observations it"
  obtain fb where fb: "forwardBackward ?S observations = Inr fb"
    using ne by (simp add: forwardBackward_def Let_def)
  have lik: "fb_likelihood fb = bw_lik st observations it"
    by (simp add: bw_lik_def fb)
  have nxt: "updateParameters ?S observations (fb_alpha fb) (fb_beta fb)
               = bw_state st observations (Suc it)"
    by (simp add: fb)
  have test: "jlt (jabs (jsub (fb_likelihood fb) prev)) convergenceThreshold
                \<longleftrightarrow> successive_close st observations it"
    using Suc.prems(3) by (cases "it = 0") (simp_all add: successive_close_def lik never_close_to_NInf convergenceThreshold_def)
  show ?case
  proof (cases "successive_close st observations it")
    case True
    have "bw_loop ?S observations prev it
            = (bw_state st observations (Suc it),
               Inr \<lparr>bw_iterations = it + 1, bw_likelihood = fb_likelihood fb, bw_converged = True\<rparr>)"
      using lt fb test True nxt by (subst bw_loop.simps) (simp add: Let_def)
    then show ?thesis
      using lt True Suc.prems(2) lik
      by (intro exI[of _ "\<lparr>bw_iterations = it + 1, bw_likelihood = fb_likelihood fb,
                           bw_converged = True\<rparr>"]) simp
  next
    case False
    have step: "bw_loop ?S observations prev it
            = bw_loop (bw_state st observations (Suc it)) observations (fb_likelihood fb) (Suc it)"
      using lt fb test False nxt by (subst bw_loop.simps) (simp add: Let_def)
    have a1: "n = maxIterations - Suc it" using Suc.hyps(2) by simp
    have a2: "Suc it \<le> maxIterations" using lt by simp
    have a3: "\<forall>k<Suc it. \<not> successive_close st observations k"
      using Suc.prems(2) False by (simp add: less_Suc_eq)
    have a4: "fb_likelihood fb = (if Suc it = 0 then NInf else bw_lik st observations (Suc it - 1))"
      by (simp add: lik)
    from Suc.hyps(1)[OF a1 a2 a3 a4] obtain r where
      r: "bw_loop (bw_state st observations (Suc it)) observations (fb_likelihood fb) (Suc it)
               = (bw_state st observations (bw_iterations r), Inr r)"
         "1 \<le> bw_iterations r" "Suc it \<le> bw_iterations r" "bw_iterations r \<le> maxIterations"
         "bw_likelihood r = bw_lik st observations (bw_iterations r - 1)"
         "\<forall>k<bw_iterations r - 1. \<not> successive_close st observations k"
         "bw_converged r \<longleftrightarrow> successive_close st observations (bw_iterations r - 1)"
         "\<not> bw_converged r \<longrightarrow> bw_iterations r = maxIterations"
      by blast
    have "bw_loop ?S observations prev it = (bw_state st observations (bw_iterations r), Inr r)"
      by (simp only: step r(1))
    moreover have "it \<le> bw_iterations r" using r(3) by simp
    ultimately show ?thesis
      using r(2,4,5,6,7,8) by blast
  qed
qed

lemma initializeParameters_sym:
  assumes "observations \<noteq> []"
  shows "\<exists>st0. initializeParameters st observations = (st0, None) \<and>
           sym_hmm st0 (1 / real numStates) (1 / real numStates)
             (replicate (Max (set observations) + 1) (1 / real (Max (set observations) + 1))) \<and>
           numSymbols st0 = Max (set observations) + 1 \<and>
           isTrained st0 = isTrained st \<and> trainingHistory st0 = trainingHistory st \<and>
           clusterCenters st0 = clusterCenters st"
  using assms numStates_pos
  by (simp add: initializeParameters_def Let_def sym_hmm_def)

lemma pos_obs_uniform:
  "pos_obs (replicate (Max (set observations) + 1) (1 / real (Max (set observations) + 1))) observations"
  unfolding pos_obs_def
proof
  fix ob assume "ob \<in> set observations"
  then have "ob \<le> Max (set observations)" by simp
  then have lt: "ob < Max (set observations) + 1" by simp
  have "replicate (Max (set observations) + 1) (1 / real (Max (set observations) + 1)) ! ob
          = 1 / real (Max (set observations) + 1)"
    using lt by (rule nth_replicate)
  moreover have "0 < 1 / real (Max (set observations) + 1)" by simp
  ultimately show "ob < length (replicate (Max (set observations) + 1)
                                  (1 / real (Max (set observations) + 1))) \<and>
        0 < replicate (Max (set observations) + 1) (1 / real (Max (set observations) + 1)) ! ob"
    using lt by (simp only: length_replicate)
qed

lemma forwardBackward_ok:
  "observations \<noteq> [] \<Longrightarrow> \<exists>fb. forwardBackward st observations = Inr fb"
  by (simp add: forwardBackward_def Let_def)

lemma filter_obs_pos:
  assumes "ob \<in> set observations"
  shows "0 < length (filter (\<lambda>t. observations ! t = ob) [0..<length observations])"
proof -
  obtain t where "t < length observations" "observations ! t = ob"
    using assms by (auto simp: in_set_conv_nth)
  then have "t \<in> set (filter (\<lambda>t. observations ! t = ob) [0..<length observations])"
    by simp
  then show ?thesis by (metis length_pos_if_in_set)
qed

lemma reestimated_sym:
  "sym_hmm (reestimated st observations) (1 / real numStates) 1
     (map (\<lambda>k. real (length (filter (\<lambda>t. observations ! t = k) [0..<length observations]))
                / real (length observations))
          [0..<numSymbols st])"
  by (simp add: sym_hmm_def reestimated_def o_def)

lemma reestimated_pos_obs:
  assumes "\<forall>ob \<in> set observations. ob < numSymbols st"
  shows "pos_obs (map (\<lambda>k. real (length (filter (\<lambda>t. observations ! t = k) [0..<length observations]))
                / real (length observations))
          [0..<numSymbols st]) observations"
  unfolding pos_obs_def
proof
  fix ob assume ob: "ob \<in> set observations"
  then have "observations \<noteq> []" by auto
  then show "ob < length (map (\<lambda>k. real (length (filter (\<lambda>t. observations ! t = k) [0..<length observations]))
                / real (length observations)) [0..<numSymbols st])
      \<and> 0 < map (\<lambda>k. real (length (filter (\<lambda>t. observations ! t = k) [0..<length observations]))
                / real (length observations)) [0..<numSymbols st] ! ob"
    using assms ob filter_obs_pos[OF ob] by simp
qed

lemma reestimated_idem:
  "reestimated (reestimated st observations) observations = reestimated st observations"
  by (simp add: reestimated_def)

lemma bw_state_sym:
  assumes s: "sym_hmm st p a e" and p: "0 < p" and a: "0 < a"
    and po: "pos_obs e observations"
    and T2: "2 \<le> length observations"
  shows "bw_state st observations (Suc n) = reestimated st observations"
proof (induction n)
  case 0
  have ne: "observations \<noteq> []" using T2 by auto
  obtain fb where fb: "forwardBackward st observations = Inr fb"
    using forwardBackward_ok[OF ne] by blast
  show ?case using updateParameters_sym[OF s p a po T2 fb] by (simp add: fb)
next
  case (Suc n)
  let ?st = "reestimated st observations"
  have n: "numSymbols st = length e" using s by (simp add: sym_hmm_def)
  have lt: "\<forall>ob \<in> set observations. ob < numSymbols st"
    using po n by (simp add: pos_obs_def)
  have ne: "observations \<noteq> []" using T2 by auto
  obtain fb where fb: "forwardBackward ?st observations = Inr fb"
    using forwardBackward_ok[OF ne] by blast
  have "updateParameters ?st observations (fb_alpha fb) (fb_beta fb) = reestimated ?st observations"
    by (rule updateParameters_sym[OF reestimated_sym _ _ reestimated_pos_obs[OF lt] T2 fb])
       (use numStates_pos in simp_all)
  then show ?case
    using Suc fb by (simp add: reestimated_idem)
qed

lemma count_one: "(\<Sum>k\<leftarrow>[0..<K]. if v = k then 1 else 0) = (if v < K then 1 else (0::nat))"
  by (induction K) auto

lemma count_total:
  "\<forall>t \<in> set ts. f t < K \<Longrightarrow> (\<Sum>k\<leftarrow>[0..<K]. length (filter (\<lambda>t. f t = k) ts)) = length ts"
proof (induction ts)
  case Nil
  then show ?case by simp
next
  case (Cons t ts)
  have "(\<Sum>k\<leftarrow>[0..<K]. length (filter (\<lambda>t. f t = k) (t # ts)))
          = (\<Sum>k\<leftarrow>[0..<K]. (if f t = k then 1 else 0) + length (filter (\<lambda>t. f t = k) ts))"
    by (rule arg_cong[where f = sum_list]) (rule map_cong, simp_all)
  also have "\<dots> = (\<Sum>k\<leftarrow>[0..<K]. if f t = k then 1 else 0)
                   + (\<Sum>k\<leftarrow>[0..<K]. length (filter (\<lambda>t. f t = k) ts))"
    by (simp add: sum_list_addf)
  finally show ?case using Cons by (simp add: count_one)
qed

lemma emission_row_sum:
  assumes "observations \<noteq> []" "\<forall>ob \<in> set observations. ob < K"
  shows "reduce_sum (map (\<lambda>k. Fin (real (length (filter (\<lambda>t. observations ! t = k) [0..<length observations]))
                          / real (length observations))) [0..<K]) = Fin 1"
proof -
  let ?c = "\<lambda>k. length (filter (\<lambda>t. observations ! t = k) [0..<length observations])"
  have tot: "(\<Sum>k\<leftarrow>[0..<K]. ?c k) = length observations"
    using count_total[of "[0..<length observations]" "\<lambda>t. observations ! t" K] assms(2) by simp
  have "map (\<lambda>k. Fin (real (?c k) / real (length observations))) [0..<K]
          = map Fin (map (\<lambda>k. real (?c k) / real (length observations)) [0..<K])"
    by simp
  moreover have "sum_list (map (\<lambda>k. real (?c k) / real (length observations)) [0..<K])
          = real (\<Sum>k\<leftarrow>[0..<K]. ?c k) / real (length observations)"
    by (induction K) (simp_all add: add_divide_distrib)
  ultimately show ?thesis using assms(1) by (simp only: reduce_sum_Fin tot) simp
qed

lemma reduce_sum_replicate: "reduce_sum (replicate n (Fin c)) = Fin (real n * c)"
proof -
  have "replicate n (Fin c) = map Fin (replicate n c)" by simp
  then show ?thesis by (simp only: reduce_sum_Fin sum_list_replicate)
qed

lemma reestimated_row_sums:
  assumes "observations \<noteq> []" "\<forall>ob \<in> set observations. ob < numSymbols st"
  shows "map reduce_sum (transitionMatrix (reestimated st observations)) = replicate 4 (Fin 4)"
    and "map reduce_sum (emissionMatrix (reestimated st observations)) = replicate 4 (Fin 1)"
    and "reduce_sum (initialProbs (reestimated st observations)) = Fin 1"
proof -
  have n4: "numStates = 4" by (simp add: numStates_def states_def)
  show "map reduce_sum (transitionMatrix (reestimated st observations)) = replicate 4 (Fin 4)"
    by (simp add: reestimated_def reduce_sum_replicate n4)
  show "map reduce_sum (emissionMatrix (reestimated st observations)) = replicate 4 (Fin 1)"
    using emission_row_sum[OF assms] by (simp add: reestimated_def n4)
  show "reduce_sum (initialProbs (reestimated st observations)) = Fin 1"
    by (simp add: reestimated_def reduce_sum_replicate n4)
qed

lemma baumWelchTraining_uniform:
  assumes T2: "2 \<le> length observations"
    and i: "initializeParameters st observations = (st0, None)"
  shows "\<exists>r. baumWelchTraining st0 observations = (reestimated st0 observations, Inr r)"
    and "\<forall>ob \<in> set observations. ob < numSymbols st0"
proof -
  have ne: "observations \<noteq> []" using T2 by auto
  from initializeParameters_sym[OF ne, of st] i
  have s: "sym_hmm st0 (1 / real numStates) (1 / real numStates)
             (replicate (Max (set observations) + 1) (1 / real (Max (set observations) + 1)))"
    and n: "numSymbols st0 = Max (set observations) + 1"
    by auto
  show "\<forall>ob \<in> set observations. ob < numSymbols st0"
    using n by (auto simp: less_Suc_eq_le)
  have st: "bw_state st0 observations (Suc k) = reestimated st0 observations" for k
    by (rule bw_state_sym[OF s _ _ pos_obs_uniform T2]) (use numStates_pos in simp_all)
  obtain r where r: "bw_loop (bw_state st0 observations 0) observations NInf 0
               = (bw_state st0 observations (bw_iterations r), Inr r)" "1 \<le> bw_iterations r"
    using bw_loop_char[OF ne, of 0 st0 NInf] by auto
  obtain k where "bw_iterations r = Suc k" using r(2) by (cases "bw_iterations r") auto
  then show "\<exists>r. baumWelchTraining st0 observations = (reestimated st0 observations, Inr r)"
    using r(1) st[of k] by (auto simp: baumWelchTraining_def simp del: bw_state.simps(2))
qed

lemma trainModel_reestimated:
  assumes t: "trainModel km st cs = (st', Inr res)"
    and km: "labels_every_point km"
  shows "\<exists>fs st1 st2 observations h.
           extractHMMFeatures cs = Inr fs \<and>
           discretizeObservations km st fs = (st1, Inr observations) \<and>
           initializeParameters st1 observations = (st2, None) \<and>
           length observations = length cs - windowSize \<and> minTrainingData \<le> length cs \<and>
           (\<forall>ob \<in> set observations. ob < numSymbols st2) \<and>
           st' = (reestimated st2 observations)\<lparr>isTrained := True, trainingHistory := h\<rparr>"
proof -
  have len: "minTrainingData \<le> length cs"
    using t by (cases "length cs < minTrainingData") (simp_all add: trainModel_def)
  obtain fs where fs: "extractHMMFeatures cs = Inr fs" and lfs: "length fs = length cs - windowSize"
    using extractHMMFeatures_ok by blast
  obtain st1 r1 where d: "discretizeObservations km st fs = (st1, r1)"
    by (cases "discretizeObservations km st fs")
  obtain observations where r1: "r1 = Inr observations"
    using t len by (cases r1) (simp_all add: trainModel_def fs d)
  have lo: "length observations = length fs"
    using d r1 km unfolding discretizeObservations_def labels_every_point_def Let_def
    by (auto split: option.splits)
  then have T2: "2 \<le> length observations"
    using lfs len by (simp add: minTrainingData_def windowSize_def)
  then have ne: "observations \<noteq> []" by auto
  obtain st2 where i: "initializeParameters st1 observations = (st2, None)"
    using initializeParameters_sym[OF ne] by blast
  obtain r where b: "baumWelchTraining st2 observations = (reestimated st2 observations, Inr r)"
    and lt: "\<forall>ob \<in> set observations. ob < numSymbols st2"
    using baumWelchTraining_uniform[OF T2 i] by blast
  have "st' = (reestimated st2 observations)\<lparr>isTrained := True,
          trainingHistory := trainingHistory (reestimated st2 observations) @
            [\<lparr>he_dataPoints = length cs, he_iterations = bw_iterations r,
              he_finalLikelihood = bw_likelihood r, he_convergence = bw_converged r\<rparr>]\<rparr>"
    using t len by (simp add: trainModel_def fs d r1 i b)
  then show ?thesis
    using fs d[unfolded r1] i lo[unfolded lfs] len lt by blast
qed

lemma km0_labels_every_point: "labels_every_point km0"
  by (auto simp: labels_every_point_def km0_def split: if_splits)

lemma trainModel_example:
  "\<exists>st' res. trainModel km0 new_hmm (replicate 100 (flat_candle 1 1)) = (st', Inr res)
      \<and> isTrained st'"
proof -
  let ?c100 = "replicate 100 (flat_candle 1 1)"
  obtain fs where fs: "extractHMMFeatures ?c100 = Inr fs" and lfs: "length fs = 80"
    using extractHMMFeatures_ok[of ?c100] by (auto simp: windowSize_def)
  obtain st1 observations where d: "discretizeObservations km0 new_hmm fs = (st1, Inr observations)"
    and o: "observations = map (\<lambda>i. i mod 8) [0..<length fs]"
    using km0_discretize[of fs new_hmm] lfs by auto
  have ne: "observations \<noteq> []" using o lfs by auto
  have "minTrainingData \<le> length ?c100" by (simp add: minTrainingData_def)
  from trainModel_success[OF this fs d ne] show ?thesis .
qed

subsection \<open>Decoding and state probabilities\<close>

lemma isFinite_Fin: "isFinite x \<longleftrightarrow> (\<exists>r. x = Fin r)"
  by (cases x) (simp_all add: isFinite_def)

lemma jdiv_Fin_D: "jdiv x y = Fin r \<Longrightarrow> \<exists>a. x = Fin a"
  by (cases x; cases y) (auto split: if_splits)

lemma jdiv_Fin_Fin_D: "jdiv (Fin a) (Fin b) = Fin r \<Longrightarrow> b \<noteq> 0"
  by (auto split: if_splits)

lemma sum_loop_Fin:
  "(\<And>i. i < n \<Longrightarrow> f i = Fin (g i)) \<Longrightarrow> sum_loop n f = Fin (sum_list (map g [0..<n]))"
  unfolding sum_loop_def by (induction n) simp_all

lemma aget_map_upt: "i < n \<Longrightarrow> aget (map h [0..<n]) (int i) = h i"
  by (simp add: aget_def)

lemma sum_list_divide: "sum_list (map (\<lambda>i. g i / (c::real)) xs) = sum_list (map g xs) / c"
  by (induction xs) (simp_all add: add_divide_distrib)

lemma normalised_sum:
  assumes n: "0 < n"
    and fin: "\<And>i. i < n \<Longrightarrow> isFinite (jdiv (f i) (sum_loop n f))"
  shows "reduce_sum (map (\<lambda>i. jdiv (f i) (sum_loop n f)) [0..<n]) = Fin 1"
proof -
  have "\<forall>i. \<exists>a. i < n \<longrightarrow> f i = Fin a"
    using fin jdiv_Fin_D unfolding isFinite_Fin by blast
  then obtain g where g: "\<And>i. i < n \<Longrightarrow> f i = Fin (g i)" by metis
  let ?S = "sum_list (map g [0..<n])"
  have S: "sum_loop n f = Fin ?S" by (rule sum_loop_Fin) (rule g)
  have "isFinite (jdiv (Fin (g 0)) (Fin ?S))" using fin[OF n] g[OF n] S by simp
  then have nz: "?S \<noteq> 0" unfolding isFinite_Fin using jdiv_Fin_Fin_D by blast
  have "map (\<lambda>i. jdiv (f i) (sum_loop n f)) [0..<n] = map Fin (map (\<lambda>i. g i / ?S) [0..<n])"
    using g nz by (simp add: S)
  then show ?thesis
    using nz by (simp only: reduce_sum_Fin sum_list_divide) simp
qed

lemma argmax_loop_index: "snd (argmax_loop n f) = 0 \<or> snd (argmax_loop n f) < n"
  unfolding argmax_loop_def
  by (induction n) (auto simp: case_prod_beta)

lemma argmax_loop_lt: "0 < n \<Longrightarrow> snd (argmax_loop n f) < n"
  using argmax_loop_index[of n f] by auto

lemma last_traceback: "last (traceback psis s acc) = (if acc = [] then s else last acc)"
  by (induction psis arbitrary: s acc) simp_all

lemma traceback_nonempty: "traceback psis s acc \<noteq> []"
  by (induction psis arbitrary: s acc) simp_all

lemma viterbiDecode_last:
  "viterbiDecode st observations = Inr sseq \<Longrightarrow> sseq \<noteq> [] \<and> last sseq < numStates"
  by (cases observations)
     (auto simp: viterbiDecode_def Let_def case_prod_beta last_traceback argmax_loop_lt numStates_pos
        traceback_nonempty)

lemma viterbiDecode_ok:
  "observations \<noteq> [] \<Longrightarrow> \<exists>sseq. viterbiDecode st observations = Inr sseq"
  by (cases observations) (simp_all add: viterbiDecode_def Let_def case_prod_beta)

lemma heuristicClassification_props:
  assumes "heuristicClassification cs = Inr p"
  shows "pr_method p = Some ''HEURISTIC'' \<and> nextStateProbabilities p = None
     \<and> stateProbabilities p = [(currentRegime p, confidence p)]
     \<and> confidence p \<in> {Fin (6 / 10), Fin (7 / 10), Fin (8 / 10)}"
proof -
  let ?r = "simple_returns (map (\<lambda>d. Fin (close d)) cs)"
  obtain m where m: "ss_mean ?r = Inr m"
    using assms by (cases "ss_mean ?r") (simp_all add: heuristicClassification_def Let_def)
  obtain s where s: "ss_standardDeviation ?r = Inr s"
    using assms m
    by (cases "ss_standardDeviation ?r") (simp_all add: heuristicClassification_def Let_def)
  show ?thesis
    using assms unfolding heuristicClassification_def Let_def
    by (auto simp: m s split: prod.splits if_splits)
qed

lemma trained_prediction_props:
  assumes t: "trained_prediction km st cs = (st1, Inr p)"
  shows "pr_method p = None"
    and "transitionMatrix st1 = transitionMatrix st"
    and "map fst (stateProbabilities p) = states"
    and "(\<forall>x \<in> set (map snd (stateProbabilities p)). isFinite x)
           \<longrightarrow> reduce_sum (map snd (stateProbabilities p)) = Fin 1"
    and "\<exists>s<numStates. currentRegime p = states ! s \<and>
           nextStateProbabilities p
             = Some (map (\<lambda>i. (states ! i, mget (transitionMatrix st1) s i)) [0..<numStates])"
proof -
  obtain fs where fs: "extractHMMFeatures cs = Inr fs"
    using extractHMMFeatures_ok by blast
  obtain st1' r1 where d: "discretizeObservations km st fs = (st1', r1)"
    by (cases "discretizeObservations km st fs")
  obtain observations where r1: "r1 = Inr observations"
    using t by (cases r1) (simp_all add: trained_prediction_def fs d)
  have st1: "st1' = st1" using t by (simp add: trained_prediction_def fs d r1)
  show tm: "transitionMatrix st1 = transitionMatrix st"
    using d st1 by (auto simp: discretizeObservations_def Let_def split: option.splits)
  obtain sseq where v: "viterbiDecode st1 observations = Inr sseq"
    using t by (cases "viterbiDecode st1 observations")
      (simp_all add: trained_prediction_def fs d r1 st1)
  obtain stateProbs where c: "calculateStateProbabilities st1 observations = Inr stateProbs"
    using t v by (cases "calculateStateProbabilities st1 observations")
      (simp_all add: trained_prediction_def fs d r1 st1)
  have p: "p = \<lparr>currentRegime = state_name (last sseq),
             confidence = jmax_list (last stateProbs),
             stateProbabilities =
               map (\<lambda>i. (states ! i, aget (last stateProbs) (int i))) [0..<length states],
             nextStateProbabilities =
               Some (map (\<lambda>i. (states ! i, aget (predictNextState st1 (last sseq)) (int i)))
                         [0..<length states]),
             persistence = Some (calculateRegimePersistence st1 sseq),
             stateSequence = Some (map state_name (slice_last 10 sseq)),
             features = Some (slice_last 5 fs),
             pr_method = None,
             recommendation =
               generateRegimeBasedRecommendation (int (last sseq)) (last stateProbs)\<rparr>"
    using t by (simp add: trained_prediction_def fs d r1 st1 v c Let_def)
  show "pr_method p = None" by (simp add: p)
  show "map fst (stateProbabilities p) = states"
    by (simp add: p o_def map_nth)
  have cur: "last sseq < numStates" using viterbiDecode_last[OF v] by simp
  have ls: "length states = numStates" by (simp add: numStates_def)
  have "map (\<lambda>i. (states ! i, aget (predictNextState st1 (last sseq)) (int i))) [0..<length states]
          = map (\<lambda>i. (states ! i, mget (transitionMatrix st1) (last sseq) i)) [0..<numStates]"
    unfolding ls predictNextState_def by (rule map_cong) (simp_all add: aget_map_upt)
  then show "\<exists>s<numStates. currentRegime p = states ! s \<and>
           nextStateProbabilities p
             = Some (map (\<lambda>i. (states ! i, mget (transitionMatrix st1) s i)) [0..<numStates])"
    using cur by (intro exI[of _ "last sseq"]) (simp add: p state_name_def ls)
  obtain fb where fb: "forwardBackward st1 observations = Inr fb"
    using c by (cases "forwardBackward st1 observations")
      (simp_all add: calculateStateProbabilities_def)
  have ne: "observations \<noteq> []"
    using fb by (auto simp: forwardBackward_def split: if_splits)
  let ?T = "length observations"
  let ?f = "\<lambda>i. mget (fb_alpha fb) (?T - 1) i"
  have sp: "stateProbs = map (\<lambda>t. let normalizer = sum_loop numStates (\<lambda>i. mget (fb_alpha fb) t i)
                         in map (\<lambda>i. jdiv (mget (fb_alpha fb) t i) normalizer) [0..<numStates])
                   [0..<?T]"
    using c by (simp add: calculateStateProbabilities_def fb Let_def)
  have "last stateProbs = map (\<lambda>i. jdiv (?f i) (sum_loop numStates ?f)) [0..<numStates]"
    unfolding sp using ne by (simp add: last_map Let_def)
  then have snd_eq: "map snd (stateProbabilities p)
      = map (\<lambda>i. jdiv (?f i) (sum_loop numStates ?f)) [0..<numStates]"
    by (simp add: p ls o_def aget_map_upt cong: map_cong)
  show "(\<forall>x \<in> set (map snd (stateProbabilities p)). isFinite x)
           \<longrightarrow> reduce_sum (map snd (stateProbabilities p)) = Fin 1"
  proof
    assume "\<forall>x \<in> set (map snd (stateProbabilities p)). isFinite x"
    then have "\<And>i. i < numStates \<Longrightarrow> isFinite (jdiv (?f i) (sum_loop numStates ?f))"
      unfolding snd_eq by simp
    from normalised_sum[OF numStates_pos this]
    show "reduce_sum (map snd (stateProbabilities p)) = Fin 1"
      unfolding snd_eq .
  qed
qed


lemma discretizeObservations_sym:
  "discretizeObservations km st fs = (st1, r) \<Longrightarrow> sym_hmm st p a e \<Longrightarrow> sym_hmm st1 p a e"
  by (auto simp: discretizeObservations_def Let_def sym_hmm_def split: option.splits)

lemma last_map_upt: "0 < n \<Longrightarrow> last (map F [0..<n]) = F (n - 1)"
  by (cases n) simp_all

lemma state_probabilities_sym:
  assumes s: "sym_hmm st p a e" and p: "0 < p" and a: "0 < a"
    and po: "pos_obs e observations" and ne: "observations \<noteq> []"
  shows "\<exists>sp. calculateStateProbabilities st observations = Inr sp \<and>
           last sp = replicate numStates (Fin (1 / real numStates))"
proof -
  let ?T = "length observations"
  let ?alpha = "forward_rows st observations"
  have fb: "forwardBackward st observations
      = Inr \<lparr>fb_alpha = ?alpha, fb_beta = backward_rows st observations,
             fb_likelihood = jlog (sum_loop numStates (\<lambda>i. mget ?alpha (?T - 1) i))\<rparr>"
    using ne by (simp add: forwardBackward_def Let_def)
  have la: "length ?alpha = ?T" and ra: "\<forall>row \<in> set ?alpha. pos_row row"
    using forward_rows_sym[OF s p a po] by simp_all
  have lt: "?T - 1 < length ?alpha" using la ne by simp
  then have "pos_row (?alpha ! (?T - 1))" using ra by simp
  then obtain x where x: "0 < x" "?alpha ! (?T - 1) = replicate numStates (Fin x)"
    unfolding pos_row_def by blast
  have m: "mget ?alpha (?T - 1) i = Fin x" if "i < numStates" for i
    using mget_rows[OF lt x(2) that] .
  have n: "sum_loop numStates (\<lambda>i. mget ?alpha (?T - 1) i) = Fin (real numStates * x)"
    by (rule sum_loop_const) (rule m)
  have nz: "real numStates * x \<noteq> 0" using x(1) numStates_pos by simp
  have eq: "x / (real numStates * x) = 1 / real numStates" using x(1) by simp
  have row: "map (\<lambda>i. jdiv (mget ?alpha (?T - 1) i)
                          (sum_loop numStates (\<lambda>i. mget ?alpha (?T - 1) i))) [0..<numStates]
        = replicate numStates (Fin (1 / real numStates))"
    unfolding n by (rule map_upt_const) (simp only: m jdiv_Fin_nz[OF nz] eq)
  let ?F = "\<lambda>t. map (\<lambda>i. jdiv (mget ?alpha t i) (sum_loop numStates (\<lambda>i. mget ?alpha t i)))
                     [0..<numStates]"
  have sp: "calculateStateProbabilities st observations = Inr (map ?F [0..<?T])"
    by (simp add: calculateStateProbabilities_def fb Let_def)
  have "last (map ?F [0..<?T]) = ?F (?T - 1)"
    using ne by (rule_tac last_map_upt) simp
  then have "last (map ?F [0..<?T]) = replicate numStates (Fin (1 / real numStates))"
    by (simp only: row)
  with sp show ?thesis by blast
qed

lemma trained_prediction_sym:
  assumes s: "sym_hmm st p a e" and p: "0 < p" and a: "0 < a"
    and fs: "extractHMMFeatures cs = Inr fs"
    and d: "discretizeObservations km st fs = (st1, Inr observations)"
    and ne: "observations \<noteq> []"
    and po: "pos_obs e observations"
  shows "\<exists>q. trained_prediction km st cs = (st1, Inr q) \<and>
           map snd (stateProbabilities q) = replicate numStates (Fin (1 / real numStates))"
proof -
  have s1: "sym_hmm st1 p a e" by (rule discretizeObservations_sym[OF d s])
  obtain sseq where v: "viterbiDecode st1 observations = Inr sseq"
    using viterbiDecode_ok[OF ne] by blast
  obtain sp where c: "calculateStateProbabilities st1 observations = Inr sp"
    and l: "last sp = replicate numStates (Fin (1 / real numStates))"
    using state_probabilities_sym[OF s1 p a po ne] by blast
  have ls: "length states = numStates" by (simp add: numStates_def)
  have "map (\<lambda>i. aget (replicate numStates (Fin (1 / real numStates))) (int i)) [0..<numStates]
          = replicate numStates (Fin (1 / real numStates))"
    by (rule map_upt_const) (rule aget_replicate)
  then show ?thesis
    by (simp add: trained_prediction_def fs d v c Let_def l ls o_def)
qed

lemma likelihood_sym:
  assumes s: "sym_hmm st p a e" and p: "0 < p" and a: "0 < a"
    and po: "pos_obs e observations" and ne: "observations \<noteq> []"
  shows "\<exists>fb l. forwardBackward st observations = Inr fb \<and> fb_likelihood fb = Fin l"
proof -
  let ?T = "length observations"
  let ?alpha = "forward_rows st observations"
  have la: "length ?alpha = ?T" and ra: "\<forall>row \<in> set ?alpha. pos_row row"
    using forward_rows_sym[OF s p a po] by simp_all
  have lt: "?T - 1 < length ?alpha" using la ne by simp
  then have "pos_row (?alpha ! (?T - 1))" using ra by simp
  then obtain x where x: "0 < x" "?alpha ! (?T - 1) = replicate numStates (Fin x)"
    unfolding pos_row_def by blast
  have m: "mget ?alpha (?T - 1) i = Fin x" if "i < numStates" for i
    using mget_rows[OF lt x(2) that] .
  have n: "sum_loop numStates (\<lambda>i. mget ?alpha (?T - 1) i) = Fin (real numStates * x)"
    by (rule sum_loop_const) (rule m)
  have "0 < real numStates * x" using x(1) numStates_pos by simp
  then have "jlog (Fin (real numStates * x)) = Fin (ln (real numStates * x))" by simp
  then have l: "jlog (sum_loop numStates (\<lambda>i. mget ?alpha (?T - 1) i))
                  = Fin (ln (real numStates * x))"
    by (simp only: n)
  have "forwardBackward st observations
      = Inr \<lparr>fb_alpha = ?alpha, fb_beta = backward_rows st observations,
             fb_likelihood = jlog (sum_loop numStates (\<lambda>i. mget ?alpha (?T - 1) i))\<rparr>"
    using ne by (simp add: forwardBackward_def Let_def)
  then show ?thesis
    by (simp only: l) simp
qed

lemma successive_close_uniform:
  assumes T2: "2 \<le> length observations"
    and i: "initializeParameters st observations = (st0, None)"
  shows "successive_close st0 observations 2"
proof -
  have ne: "observations \<noteq> []" using T2 by auto
  from initializeParameters_sym[OF ne, of st] i
  have s: "sym_hmm st0 (1 / real numStates) (1 / real numStates)
             (replicate (Max (set observations) + 1) (1 / real (Max (set observations) + 1)))"
    and n: "numSymbols st0 = Max (set observations) + 1"
    by auto
  have lt: "\<forall>ob \<in> set observations. ob < numSymbols st0"
    using n by (auto simp: less_Suc_eq_le)
  have st: "bw_state st0 observations (Suc k) = reestimated st0 observations" for k
    by (rule bw_state_sym[OF s _ _ pos_obs_uniform T2]) (use numStates_pos in simp_all)
  obtain fb l where fb: "forwardBackward (reestimated st0 observations) observations = Inr fb"
    "fb_likelihood fb = Fin l"
    using likelihood_sym[OF reestimated_sym _ _ reestimated_pos_obs[OF lt] ne] numStates_pos
    by auto
  have l1: "bw_lik st0 observations (Suc k) = Fin l" for k
    unfolding bw_lik_def st by (simp add: fb)
  have "bw_lik st0 observations 2 = Fin l" "bw_lik st0 observations (2 - 1) = Fin l"
    using l1[of 1] l1[of 0] by (simp_all add: numeral_2_eq_2)
  then show ?thesis
    by (simp add: successive_close_def jsub_def convergenceThreshold_def)
qed

subsection \<open>The results of a prediction\<close>

lemma predictMarketRegime_result_cases:
  assumes "predictMarketRegime km st cs = (st', Inr p)"
  shows "(pr_method p = Some ''HEURISTIC'' \<and> nextStateProbabilities p = None \<and>
          stateProbabilities p = [(currentRegime p, confidence p)] \<and>
          confidence p \<in> {Fin (6 / 10), Fin (7 / 10), Fin (8 / 10)})
       \<or> (pr_method p = None \<and> map fst (stateProbabilities p) = states \<and>
          transitionMatrix st' = transitionMatrix st \<and>
          ((\<forall>x \<in> set (map snd (stateProbabilities p)). isFinite x)
             \<longrightarrow> reduce_sum (map snd (stateProbabilities p)) = Fin 1) \<and>
          (\<exists>s<numStates. currentRegime p = states ! s \<and>
             nextStateProbabilities p
               = Some (map (\<lambda>i. (states ! i, mget (transitionMatrix st') s i)) [0..<numStates])))"
proof -
  have heur: ?thesis if h: "heuristicClassification cs = Inr p"
    using heuristicClassification_props[OF h] by blast
  show ?thesis
  proof (cases "isTrained st")
    case False
    then have "heuristicClassification cs = Inr p"
      using assms by (simp add: predictMarketRegime_def split: sum.splits)
    then show ?thesis by (rule heur)
  next
    case True
    obtain st1 r where t: "trained_prediction km st cs = (st1, r)"
      by (cases "trained_prediction km st cs")
    show ?thesis
    proof (cases r)
      case (Inl e)
      then have "heuristicClassification cs = Inr p"
        using assms True t by (simp add: predictMarketRegime_def)
      then show ?thesis by (rule heur)
    next
      case (Inr q)
      then have e: "q = p" "st1 = st'"
        using assms True t by (simp_all add: predictMarketRegime_def)
      from trained_prediction_props[OF t[unfolded Inr e]]
      show ?thesis by blast
    qed
  qed
qed

lemma trained_example_prediction:
  "\<exists>st' q. predictMarketRegime km0 trained_example (replicate 28 (flat_candle 1 1)) = (st', Inr q)
      \<and> pr_method q = None
      \<and> map snd (stateProbabilities q) = replicate numStates (Fin (1 / real numStates))"
proof -
  let ?c100 = "replicate 100 (flat_candle 1 1)"
  let ?c28 = "replicate 28 (flat_candle 1 1)"
  obtain st' res where t: "trainModel km0 new_hmm ?c100 = (st', Inr res)"
    using trainModel_example by blast
  then have te: "trained_example = st'" by (simp add: trained_example_def)
  obtain fs st1 st2 observations h where
    fs: "extractHMMFeatures ?c100 = Inr fs"
    and d: "discretizeObservations km0 new_hmm fs = (st1, Inr observations)"
    and lo: "length observations = length ?c100 - windowSize"
    and lt: "\<forall>ob \<in> set observations. ob < numSymbols st2"
    and st': "st' = (reestimated st2 observations)\<lparr>isTrained := True, trainingHistory := h\<rparr>"
    using trainModel_reestimated[OF t km0_labels_every_point] by blast
  have lfs: "length fs = 80"
    using extractHMMFeatures_ok[of ?c100] fs by (simp add: windowSize_def)
  have obs: "observations = map (\<lambda>i. i mod 8) [0..<80]"
    using km0_discretize[of fs new_hmm] d lfs by auto
  let ?e = "map (\<lambda>k. real (length (filter (\<lambda>t. observations ! t = k) [0..<length observations]))
                / real (length observations)) [0..<numSymbols st2]"
  have s: "sym_hmm trained_example (1 / real numStates) 1 ?e"
    using reestimated_sym[of st2 observations] by (simp add: te st' sym_hmm_def)
  have po: "pos_obs ?e observations" by (rule reestimated_pos_obs[OF lt])
  obtain fs2 where fs2: "extractHMMFeatures ?c28 = Inr fs2" and lfs2: "length fs2 = 8"
    using extractHMMFeatures_ok[of ?c28] by (auto simp: windowSize_def)
  obtain st1p obs2 where d2: "discretizeObservations km0 trained_example fs2 = (st1p, Inr obs2)"
    and obs2: "obs2 = map (\<lambda>i. i mod 8) [0..<length fs2]"
    using km0_discretize[of fs2 trained_example] lfs2 by auto
  have ne2: "obs2 \<noteq> []" using obs2 lfs2 by auto
  have "x \<in> set observations" if "x \<in> set obs2" for x
  proof -
    from that have "x < 8" unfolding obs2 lfs2 by auto
    then have "x mod 8 = x" "x \<in> set [0..<80]" by simp_all
    then show ?thesis unfolding obs by (metis image_eqI set_map)
  qed
  then have "set obs2 \<subseteq> set observations" by blast
  then have po2: "pos_obs ?e obs2" using po unfolding pos_obs_def by blast
  obtain q where q: "trained_prediction km0 trained_example ?c28 = (st1p, Inr q)"
    and sq: "map snd (stateProbabilities q) = replicate numStates (Fin (1 / real numStates))"
    using trained_prediction_sym[OF s _ _ fs2 d2 ne2 po2] numStates_pos by auto
  have pm: "predictMarketRegime km0 trained_example ?c28 = (st1p, Inr q)"
    using trained_example_isTrained q by (simp add: predictMarketRegime_def)
  have m: "pr_method q = None"
    using trained_prediction_props(1)[OF q] .
  from pm m sq show ?thesis by blast
qed

section \<open>The claims\<close>

text \<open>
  C2. \<open>trainModel\<close> on a series of fewer than 100 candles (99 in particular) throws
  the insufficient-data error and leaves the analyzer as it was. On a series of 100
  candles or more it never throws that error: the features are extracted, and when
  the clustering returns a non-empty observation sequence the call returns its result
  and the analyzer is trained.
\<close>

theorem trainModel_insufficient_data:
  "(length cs < 100 \<longrightarrow> trainModel km st cs = (st, Inl (InsufficientData 100 (length cs)))) \<and>
   (100 \<le> length cs \<longrightarrow>
      (\<forall>need got. snd (trainModel km st cs) \<noteq> Inl (InsufficientData need got)) \<and>
      (\<exists>fs. extractHMMFeatures cs = Inr fs \<and>
         (\<forall>st1 observations. discretizeObservations km st fs = (st1, Inr observations)
              \<and> observations \<noteq> []
            \<longrightarrow> (\<exists>st' res. trainModel km st cs = (st', Inr res) \<and> isTrained st'))))"
proof (intro conjI impI)
  assume "length cs < 100"
  then show "trainModel km st cs = (st, Inl (InsufficientData 100 (length cs)))"
    by (simp add: trainModel_def minTrainingData_def)
next
  assume a: "100 \<le> length cs"
  then have len: "minTrainingData \<le> length cs" by (simp add: minTrainingData_def)
  show "\<forall>need got. snd (trainModel km st cs) \<noteq> Inl (InsufficientData need got)"
    using trainModel_error_cases[OF len] by blast
  obtain fs where fs: "extractHMMFeatures cs = Inr fs"
    using extractHMMFeatures_ok by blast
  show "\<exists>fs. extractHMMFeatures cs = Inr fs \<and>
         (\<forall>st1 observations. discretizeObservations km st fs = (st1, Inr observations)
              \<and> observations \<noteq> []
            \<longrightarrow> (\<exists>st' res. trainModel km st cs = (st', Inr res) \<and> isTrained st'))"
    using trainModel_success[OF len fs] fs by blast
qed

theorem trainModel_insufficient_data_witness:
  "trainModel km0 new_hmm (replicate 99 (flat_candle 1 1))
     = (new_hmm, Inl (InsufficientData 100 99)) \<and>
   snd (trainModel km0 new_hmm (replicate 100 (flat_candle 1 1))) \<noteq> Inl (InsufficientData 100 100) \<and>
   (\<exists>st' res. trainModel km0 new_hmm (replicate 100 (flat_candle 1 1)) = (st', Inr res)
      \<and> isTrained st')"
proof -
  let ?c99 = "replicate 99 (flat_candle 1 1)"
  let ?c100 = "replicate 100 (flat_candle 1 1)"
  have l99: "length ?c99 < 100" by simp
  have l100: "100 \<le> length ?c100" by simp
  have t99: "trainModel km0 new_hmm ?c99 = (new_hmm, Inl (InsufficientData 100 (length ?c99)))"
    using trainModel_insufficient_data[of ?c99 km0 new_hmm] l99 by blast
  from trainModel_insufficient_data[of ?c100 km0 new_hmm] l100
  have n: "\<forall>need got. snd (trainModel km0 new_hmm ?c100) \<noteq> Inl (InsufficientData need got)"
    and "\<exists>fs. extractHMMFeatures ?c100 = Inr fs \<and>
         (\<forall>st1 observations. discretizeObservations km0 new_hmm fs = (st1, Inr observations)
              \<and> observations \<noteq> []
            \<longrightarrow> (\<exists>st' res. trainModel km0 new_hmm ?c100 = (st', Inr res) \<and> isTrained st'))"
    by blast+
  then obtain fs where fs: "extractHMMFeatures ?c100 = Inr fs"
    and imp: "\<And>st1 observations. discretizeObservations km0 new_hmm fs = (st1, Inr observations)
              \<Longrightarrow> observations \<noteq> []
            \<Longrightarrow> (\<exists>st' res. trainModel km0 new_hmm ?c100 = (st', Inr res) \<and> isTrained st')"
    by blast
  have lfs: "length fs = 80"
    using extractHMMFeatures_ok[of ?c100] fs by (simp add: windowSize_def)
  obtain st1 observations where d: "discretizeObservations km0 new_hmm fs = (st1, Inr observations)"
    and o: "observations = map (\<lambda>i. i mod 8) [0..<length fs]"
    using km0_discretize[of fs new_hmm] lfs by auto
  have "observations \<noteq> []" using o lfs by auto
  from imp[OF d this] t99 n show ?thesis by simp
qed

text \<open>
  C3, as the code has it. Before any successful training, \<open>predictMarketRegime\<close> on a
  series of at least two candles returns a result with the method \<open>HEURISTIC\<close>, and
  leaves the analyzer as it was.
\<close>

theorem predictMarketRegime_untrained:
  assumes "\<not> isTrained st" and "2 \<le> length cs"
  shows "\<exists>p. predictMarketRegime km st cs = (st, Inr p) \<and> pr_method p = Some ''HEURISTIC''"
proof -
  obtain p where "heuristicClassification cs = Inr p" "pr_method p = Some ''HEURISTIC''"
    using heuristicClassification_ok[OF assms(2)] by blast
  then show ?thesis using assms(1) by (simp add: predictMarketRegime_def)
qed

theorem predictMarketRegime_untrained_witness:
  "\<exists>p. predictMarketRegime km0 new_hmm (replicate 50 (flat_candle 1 1)) = (new_hmm, Inr p)
       \<and> pr_method p = Some ''HEURISTIC''"
  by (rule predictMarketRegime_untrained) (simp_all add: new_hmm_def)

text \<open>
  C3 as stated fails: on the empty series (and on a single candle) there is no return
  to average, the mean throws in the heuristic classification, and the call of the
  untrained analyzer throws.
\<close>

theorem predictMarketRegime_untrained_raises:
  "\<not> (\<forall>km st cs. \<not> isTrained st \<longrightarrow>
        (\<exists>p. snd (predictMarketRegime km st cs) = Inr p \<and> pr_method p = Some ''HEURISTIC''))"
proof
  assume "\<forall>km st cs. \<not> isTrained st \<longrightarrow>
        (\<exists>p. snd (predictMarketRegime km st cs) = Inr p \<and> pr_method p = Some ''HEURISTIC'')"
  moreover have "\<not> isTrained new_hmm" by (simp add: new_hmm_def)
  ultimately have "\<exists>p. snd (predictMarketRegime km0 new_hmm []) = Inr p"
    by blast
  moreover have "snd (predictMarketRegime km0 new_hmm []) = Inl StatsError"
    by (simp add: predictMarketRegime_def new_hmm_def heuristicClassification_short)
  ultimately show False by simp
qed




text \<open>
  C5. The signal label of a score \<open>s\<close>: \<open>STRONG_BUY\<close> iff \<open>s \<ge> 75\<close>, \<open>BUY\<close> iff
  \<open>60 \<le> s < 75\<close>, \<open>WEAK_BUY\<close> iff \<open>55 \<le> s < 60\<close>, \<open>NEUTRAL\<close> iff \<open>45 \<le> s < 55\<close>,
  \<open>WEAK_SELL\<close> iff \<open>40 \<le> s < 45\<close>, \<open>SELL\<close> iff \<open>25 \<le> s < 40\<close> and \<open>STRONG_SELL\<close> iff
  \<open>s < 25\<close>; 75 gives \<open>STRONG_BUY\<close>, 74.999 \<open>BUY\<close>, 60 \<open>BUY\<close> and 59.999 \<open>WEAK_BUY\<close>.
\<close>

theorem determineOverallSignal_thresholds:
  "(determineOverallSignal (Fin s) = ''STRONG_BUY'' \<longleftrightarrow> 75 \<le> s) \<and>
   (determineOverallSignal (Fin s) = ''BUY'' \<longleftrightarrow> 60 \<le> s \<and> s < 75) \<and>
   (determineOverallSignal (Fin s) = ''WEAK_BUY'' \<longleftrightarrow> 55 \<le> s \<and> s < 60) \<and>
   (determineOverallSignal (Fin s) = ''NEUTRAL'' \<longleftrightarrow> 45 \<le> s \<and> s < 55) \<and>
   (determineOverallSignal (Fin s) = ''WEAK_SELL'' \<longleftrightarrow> 40 \<le> s \<and> s < 45) \<and>
   (determineOverallSignal (Fin s) = ''SELL'' \<longleftrightarrow> 25 \<le> s \<and> s < 40) \<and>
   (determineOverallSignal (Fin s) = ''STRONG_SELL'' \<longleftrightarrow> s < 25) \<and>
   determineOverallSignal (Fin 75) = ''STRONG_BUY'' \<and>
   determineOverallSignal (Fin (74999 / 1000)) = ''BUY'' \<and>
   determineOverallSignal (Fin 60) = ''BUY'' \<and>
   determineOverallSignal (Fin (59999 / 1000)) = ''WEAK_BUY''"
  by (simp add: determineOverallSignal_def jge_def)

text \<open>
  C9. On a series of at least ten candles with closes between \<open>1e-100\<close> and
  \<open>1e100\<close>, the trend is \<open>BULLISH\<close> when the average of the last five closes
  exceeds that of the first five by more than 2 percent of it, \<open>BEARISH\<close> when it
  falls short of it by more than 2 percent, and \<open>NEUTRAL\<close> when it differs from it
  by less than 2 percent, each outside a margin of \<open>1e-12\<close> (of the first average)
  around the threshold, inside which the rounding of the doubles decides: a trend
  \<open>BULLISH\<close> needs an excess of 2 percent less the margin, a trend \<open>BEARISH\<close> such a
  shortfall. The timeframes of the result are those of \<open>5m\<close>, \<open>15m\<close>, \<open>1h\<close>,
  \<open>4h\<close>, \<open>1d\<close> whose series is in the price data, was fetched with success and
  has at least 20 candles, in this order, each with the trend of its series. Among
  them, the consensus is \<open>BULLISH\<close> iff the bullish timeframes are at least two more
  than the bearish ones, \<open>BEARISH\<close> iff the bearish are at least two more than the
  bullish, and \<open>NEUTRAL\<close> otherwise. The strength, by which the aggregator measures
  the alignment, is \<open>|bullish - bearish| / 5\<close>. When all five timeframes report
  \<open>BULLISH\<close>, the consensus is \<open>BULLISH\<close>, the strength is 1, that is 100 percent,
  and the alignment is \<open>STRONG_BULLISH\<close>.
\<close>

theorem multi_timeframe_trend_and_consensus:
  "(10 \<le> length cs \<and> (\<forall>c \<in> set cs. 1 / 10 ^ 100 \<le> close c \<and> close c \<le> 10 ^ 100) \<longrightarrow>
      ((2 / 100 + 1 / 10 ^ 12) * first5_average cs < last5_average cs - first5_average cs
         \<longrightarrow> identifyTrend cs = ''BULLISH'') \<and>
      (last5_average cs - first5_average cs < - ((2 / 100 + 1 / 10 ^ 12) * first5_average cs)
         \<longrightarrow> identifyTrend cs = ''BEARISH'') \<and>
      (\<bar>last5_average cs - first5_average cs\<bar> < (2 / 100 - 1 / 10 ^ 12) * first5_average cs
         \<longrightarrow> identifyTrend cs = ''NEUTRAL'') \<and>
      (identifyTrend cs = ''BULLISH''
         \<longrightarrow> (2 / 100 - 1 / 10 ^ 12) * first5_average cs \<le> last5_average cs - first5_average cs) \<and>
      (identifyTrend cs = ''BEARISH''
         \<longrightarrow> last5_average cs - first5_average cs \<le> - ((2 / 100 - 1 / 10 ^ 12) * first5_average cs)) \<and>
      identifyTrend cs \<in> {''BULLISH'', ''BEARISH'', ''NEUTRAL''}) \<and>
   map (\<lambda>e. (fst e, tf_trend (snd e))) (individual (analyzeMultiTimeframe pd)) = reported_trends pd \<and>
   (consensus (analyzeMultiTimeframe pd) = ''BULLISH''
      \<longleftrightarrow> count_trend ''BEARISH'' pd + 2 \<le> count_trend ''BULLISH'' pd) \<and>
   (consensus (analyzeMultiTimeframe pd) = ''BEARISH''
      \<longleftrightarrow> count_trend ''BULLISH'' pd + 2 \<le> count_trend ''BEARISH'' pd) \<and>
   consensus (analyzeMultiTimeframe pd) \<in> {''BULLISH'', ''BEARISH'', ''NEUTRAL''} \<and>
   mtf_strength (analyzeMultiTimeframe pd)
     = dbl (\<bar>real (count_trend ''BULLISH'' pd) - real (count_trend ''BEARISH'' pd)\<bar> / 5) \<and>
   (map snd (reported_trends pd) = replicate 5 ''BULLISH'' \<longrightarrow>
      consensus (analyzeMultiTimeframe pd) = ''BULLISH'' \<and>
      mtf_strength (analyzeMultiTimeframe pd) = Fin 1 \<and>
      alignment (analyzeMultiTimeframe pd) = ''STRONG_BULLISH'')"
proof (intro conjI impI)
  assume a: "10 \<le> length cs \<and> (\<forall>c \<in> set cs. 1 / 10 ^ 100 \<le> close c \<and> close c \<le> 10 ^ 100)"
  then have len: "10 \<le> length cs"
    and r: "\<forall>c \<in> set cs. 1 / 10 ^ 100 \<le> close c \<and> close c \<le> 10 ^ 100"
    by blast+
  note rule = identifyTrend_rule[OF len r]
  show "identifyTrend cs \<in> {''BULLISH'', ''BEARISH'', ''NEUTRAL''}" by (rule rule(6))
  {
    assume "(2 / 100 + 1 / 10 ^ 12) * first5_average cs < last5_average cs - first5_average cs"
    then show "identifyTrend cs = ''BULLISH''" using rule(1) by blast
  }
  {
    assume "last5_average cs - first5_average cs < - ((2 / 100 + 1 / 10 ^ 12) * first5_average cs)"
    then show "identifyTrend cs = ''BEARISH''" using rule(2) by blast
  }
  {
    assume "\<bar>last5_average cs - first5_average cs\<bar> < (2 / 100 - 1 / 10 ^ 12) * first5_average cs"
    then show "identifyTrend cs = ''NEUTRAL''" using rule(3) by blast
  }
  {
    assume "identifyTrend cs = ''BULLISH''"
    then show "(2 / 100 - 1 / 10 ^ 12) * first5_average cs \<le> last5_average cs - first5_average cs"
      using rule(4) by blast
  }
  {
    assume "identifyTrend cs = ''BEARISH''"
    then show "last5_average cs - first5_average cs \<le> - ((2 / 100 - 1 / 10 ^ 12) * first5_average cs)"
      using rule(5) by blast
  }
next
  show "map (\<lambda>e. (fst e, tf_trend (snd e))) (individual (analyzeMultiTimeframe pd)) = reported_trends pd"
    by (rule individual_trends)
  show "(consensus (analyzeMultiTimeframe pd) = ''BULLISH''
      \<longleftrightarrow> count_trend ''BEARISH'' pd + 2 \<le> count_trend ''BULLISH'' pd)"
    by (rule consensus_counts)
  show "(consensus (analyzeMultiTimeframe pd) = ''BEARISH''
      \<longleftrightarrow> count_trend ''BULLISH'' pd + 2 \<le> count_trend ''BEARISH'' pd)"
    by (rule consensus_counts)
  show "consensus (analyzeMultiTimeframe pd) \<in> {''BULLISH'', ''BEARISH'', ''NEUTRAL''}"
    by (rule consensus_counts)
  show "mtf_strength (analyzeMultiTimeframe pd)
     = dbl (\<bar>real (count_trend ''BULLISH'' pd) - real (count_trend ''BEARISH'' pd)\<bar> / 5)"
    by (rule mtf_strength_formula)
next
  assume a: "map snd (reported_trends pd) = replicate 5 ''BULLISH''"
  show "consensus (analyzeMultiTimeframe pd) = ''BULLISH''" by (rule all_five_bullish[OF a])
  show "mtf_strength (analyzeMultiTimeframe pd) = Fin 1" by (rule all_five_bullish[OF a])
  show "alignment (analyzeMultiTimeframe pd) = ''STRONG_BULLISH''" by (rule all_five_bullish[OF a])
qed

text \<open>The series that closes fifteen times at 100 and then five times at 110 is
  bullish, and with it in each of the five timeframes the consensus is \<open>BULLISH\<close>
  with strength 1.\<close>

theorem multi_timeframe_trend_and_consensus_witness:
  "first5_average rising_series = 100 \<and> last5_average rising_series = 110 \<and>
   identifyTrend rising_series = ''BULLISH'' \<and>
   map (\<lambda>e. (fst e, tf_trend (snd e))) (individual (analyzeMultiTimeframe rising_priceData))
     = [(''5m'', ''BULLISH''), (''15m'', ''BULLISH''), (''1h'', ''BULLISH''),
        (''4h'', ''BULLISH''), (''1d'', ''BULLISH'')] \<and>
   consensus (analyzeMultiTimeframe rising_priceData) = ''BULLISH'' \<and>
   mtf_strength (analyzeMultiTimeframe rising_priceData) = Fin 1 \<and>
   alignment (analyzeMultiTimeframe rising_priceData) = ''STRONG_BULLISH''"
proof -
  note t = multi_timeframe_trend_and_consensus[of rising_series rising_priceData]
  have h: "10 \<le> length rising_series \<and>
           (\<forall>c \<in> set rising_series. 1 / 10 ^ 100 \<le> close c \<and> close c \<le> 10 ^ 100)"
    using rising_series_facts(1,2) by blast
  have g: "(2 / 100 + 1 / 10 ^ 12) * first5_average rising_series
             < last5_average rising_series - first5_average rising_series"
    by (simp add: rising_series_facts(3,4))
  have b: "identifyTrend rising_series = ''BULLISH''"
    using t h g by blast
  have i: "map (\<lambda>e. (fst e, tf_trend (snd e))) (individual (analyzeMultiTimeframe rising_priceData))
             = reported_trends rising_priceData"
    using t by blast
  have a: "map snd (reported_trends rising_priceData) = replicate 5 ''BULLISH''"
    by (simp add: reported_rising numeral_eq_Suc)
  have c: "consensus (analyzeMultiTimeframe rising_priceData) = ''BULLISH'' \<and>
      mtf_strength (analyzeMultiTimeframe rising_priceData) = Fin 1 \<and>
      alignment (analyzeMultiTimeframe rising_priceData) = ''STRONG_BULLISH''"
    using t a by blast
  from b i c show ?thesis
    by (simp add: rising_series_facts(3,4) reported_rising)
qed

text \<open>
  C9, as stated. The last five closes of the first series average exactly 2 percent
  more than the first five, not more, and the trend is \<open>BULLISH\<close>: the doubles give
  30.6 as \<open>30.600000000000001\<close> and the change as \<open>0.02000000000000005\<close>. The
  second series rises by 50 percent and the third by 20 percent, and their trend is
  \<open>NEUTRAL\<close>: the sums of the second overflow to \<open>Infinity\<close>, so that the change
  is \<open>NaN\<close>, and the averages of the third round to the same least positive double.
  With one timeframe in the price data, and that one bullish, every timeframe that
  reports is bullish and the consensus is \<open>NEUTRAL\<close>.
\<close>

theorem multi_timeframe_trend_and_consensus_fails:
  "identifyTrend boundary_series = ''BULLISH'' \<and>
   last5_average boundary_series - first5_average boundary_series
     = 2 / 100 * first5_average boundary_series \<and>
   identifyTrend overflow_series = ''NEUTRAL'' \<and>
   last5_average overflow_series - first5_average overflow_series
     = 50 / 100 * first5_average overflow_series \<and>
   identifyTrend underflow_series = ''NEUTRAL'' \<and>
   last5_average underflow_series - first5_average underflow_series
     = 20 / 100 * first5_average underflow_series \<and>
   reported_trends one_timeframe_priceData = [(''1h'', ''BULLISH'')] \<and>
   consensus (analyzeMultiTimeframe one_timeframe_priceData) = ''NEUTRAL''"
proof -
  have c: "count_trend ''BULLISH'' one_timeframe_priceData = 1"
    "count_trend ''BEARISH'' one_timeframe_priceData = 0"
    by (simp_all add: count_trend_def reported_one_timeframe)
  have "consensus (analyzeMultiTimeframe one_timeframe_priceData) = ''NEUTRAL''"
    by (simp add: analyzeMultiTimeframe_counts c)
  with identifyTrend_boundary identifyTrend_overflow identifyTrend_underflow
    boundary_change overflow_change underflow_change reported_one_timeframe
  show ?thesis
    unfolding first5_average_def last5_average_def by (simp only: simp_thms)
qed

text \<open>
  C7 on the code. On a series of candles without volume the ratio of the last volume
  to the mean volume is \<open>0 / 0\<close>: the volume ratio of every feature vector of
  \<open>extractHMMFeatures\<close>, and that of \<open>extractVolumeFeatures\<close>, is \<open>NaN\<close>.
\<close>

theorem volumeRatio_not_guarded:
  "(\<exists>fs. extractHMMFeatures zero_volume_series = Inr fs \<and>
         map volumeRatio fs = replicate 80 NaN) \<and>
   (\<exists>vf. extractVolumeFeatures zero_volume_series = Inr vf \<and> vf_volumeRatio vf = NaN)"
proof -
  have z: "\<forall>c \<in> set zero_volume_series. volume c = 0"
    by (simp add: zero_volume_series_def flat_candle_def)
  obtain fs where fs: "extractHMMFeatures zero_volume_series = Inr fs"
    using extractHMMFeatures_ok by blast
  have "map volumeRatio fs = replicate 80 NaN"
    using extractHMMFeatures_zero_volume[OF z fs]
    by (simp add: zero_volume_series_def windowSize_def)
  moreover have "zero_volume_series \<noteq> []" by (simp add: zero_volume_series_def)
  ultimately show ?thesis using fs extractVolumeFeatures_zero_volume[OF _ z] by blast
qed


text \<open>
  C10, as the code has it. When the trained path of \<open>predictMarketRegime\<close> throws on
  a series of at least two candles, the call returns the heuristic classification of
  the same series.
\<close>

theorem predictMarketRegime_fallback:
  assumes "isTrained st" and "trained_prediction km st cs = (st1, Inl e)" and "2 \<le> length cs"
  shows "\<exists>p. predictMarketRegime km st cs = (st1, Inr p) \<and> heuristicClassification cs = Inr p
           \<and> pr_method p = Some ''HEURISTIC''"
proof -
  obtain p where "heuristicClassification cs = Inr p" "pr_method p = Some ''HEURISTIC''"
    using heuristicClassification_ok[OF assms(3)] by blast
  then show ?thesis using assms(1,2) by (simp add: predictMarketRegime_def)
qed

theorem predictMarketRegime_fallback_witness:
  "\<exists>st1 p. predictMarketRegime km0 trained_example (replicate 20 (flat_candle 1 1)) = (st1, Inr p)
      \<and> heuristicClassification (replicate 20 (flat_candle 1 1)) = Inr p
      \<and> pr_method p = Some ''HEURISTIC''"
proof -
  obtain st1 where t: "trained_prediction km0 trained_example (replicate 20 (flat_candle 1 1))
      = (st1, Inl KMeansError)"
    using trained_prediction_short[of "replicate 20 (flat_candle 1 1)" trained_example]
    by (auto simp: windowSize_def)
  have "2 \<le> length (replicate 20 (flat_candle 1 1))" by simp
  from predictMarketRegime_fallback[OF trained_example_isTrained t this]
  show ?thesis by blast
qed

text \<open>
  C10 as stated fails: on the empty series the clustering of the trained path throws,
  and so does the heuristic classification that answers it.
\<close>

theorem predictMarketRegime_fallback_raises:
  "\<not> (\<forall>km st cs e. isTrained st \<and> snd (trained_prediction km st cs) = Inl e \<longrightarrow>
        (\<exists>p. snd (predictMarketRegime km st cs) = Inr p))"
proof
  assume a: "\<forall>km st cs e. isTrained st \<and> snd (trained_prediction km st cs) = Inl e \<longrightarrow>
        (\<exists>p. snd (predictMarketRegime km st cs) = Inr p)"
  obtain st1 where t: "trained_prediction km0 trained_example [] = (st1, Inl KMeansError)"
    using trained_prediction_short[of "[]" trained_example] by auto
  then have "snd (trained_prediction km0 trained_example []) = Inl KMeansError" by simp
  with a trained_example_isTrained
  have "\<exists>p. snd (predictMarketRegime km0 trained_example []) = Inr p" by blast
  moreover have "snd (predictMarketRegime km0 trained_example []) = Inl StatsError"
    using trained_example_isTrained t
    by (simp add: predictMarketRegime_def heuristicClassification_short)
  ultimately show False by simp
qed

text \<open>
  C8. On every observation sequence of one observation at least, \<open>baumWelchTraining\<close>
  returns after \<open>n\<close> re-estimations, \<open>1 \<le> n \<le> 50\<close>, with the analyzer these have
  produced. It reports \<open>n\<close> as the iteration count and the log-likelihood that its last
  iteration has computed. No iteration before the last has found two successive
  log-likelihoods that differ by less than \<open>1e-6\<close>; the flag \<open>converged\<close> tells
  whether the last one has, that is whether the log-likelihood reported differs by
  less than \<open>1e-6\<close> from that of the iteration before, and without convergence
  \<open>n\<close> is 50.
\<close>

theorem baumWelchTraining_iterations:
  assumes "observations \<noteq> []"
  shows "\<exists>r. baumWelchTraining st observations
                = (bw_state st observations (bw_iterations r), Inr r)
            \<and> 1 \<le> bw_iterations r \<and> bw_iterations r \<le> 50
            \<and> bw_likelihood r = bw_lik st observations (bw_iterations r - 1)
            \<and> (\<forall>k<bw_iterations r - 1. \<not> successive_close st observations k)
            \<and> (bw_converged r \<longleftrightarrow> successive_close st observations (bw_iterations r - 1))
            \<and> (\<not> bw_converged r \<longrightarrow> bw_iterations r = 50)"
proof -
  have "\<exists>r. bw_loop (bw_state st observations 0) observations NInf 0
               = (bw_state st observations (bw_iterations r), Inr r)
            \<and> 1 \<le> bw_iterations r \<and> 0 \<le> bw_iterations r \<and> bw_iterations r \<le> maxIterations
            \<and> bw_likelihood r = bw_lik st observations (bw_iterations r - 1)
            \<and> (\<forall>k<bw_iterations r - 1. \<not> successive_close st observations k)
            \<and> (bw_converged r \<longleftrightarrow> successive_close st observations (bw_iterations r - 1))
            \<and> (\<not> bw_converged r \<longrightarrow> bw_iterations r = maxIterations)"
    by (rule bw_loop_char[OF assms]) simp_all
  then show ?thesis
    by (simp add: baumWelchTraining_def maxIterations_def)
qed

text \<open>On the example observations, from the uniform initialization, the training
  stops with convergence after at most three iterations.\<close>

theorem baumWelchTraining_iterations_witness:
  "\<exists>r. baumWelchTraining (fst (initializeParameters new_hmm example_observations))
          example_observations
        = (bw_state (fst (initializeParameters new_hmm example_observations))
             example_observations (bw_iterations r), Inr r)
       \<and> 1 \<le> bw_iterations r \<and> bw_iterations r \<le> 3 \<and> bw_converged r"
proof -
  let ?st0 = "fst (initializeParameters new_hmm example_observations)"
  have ne: "example_observations \<noteq> []" by (simp add: example_observations_def)
  have T2: "2 \<le> length example_observations" by (simp add: example_observations_def)
  have i: "initializeParameters new_hmm example_observations = (?st0, None)"
    using initializeParameters_sym[OF ne, of new_hmm] by auto
  have c2: "successive_close ?st0 example_observations 2"
    by (rule successive_close_uniform[OF T2 i])
  have c0: "\<not> successive_close ?st0 example_observations 0"
    by (simp add: successive_close_def)
  obtain r where r: "baumWelchTraining ?st0 example_observations
                = (bw_state ?st0 example_observations (bw_iterations r), Inr r)"
      "1 \<le> bw_iterations r" "bw_iterations r \<le> 50"
      "\<forall>k<bw_iterations r - 1. \<not> successive_close ?st0 example_observations k"
      "bw_converged r \<longleftrightarrow> successive_close ?st0 example_observations (bw_iterations r - 1)"
      "\<not> bw_converged r \<longrightarrow> bw_iterations r = 50"
    using baumWelchTraining_iterations[OF ne, of ?st0] by blast
  have le3: "bw_iterations r \<le> 3"
  proof (rule ccontr)
    assume "\<not> bw_iterations r \<le> 3"
    then have "2 < bw_iterations r - 1" by simp
    with r(4) c2 show False by blast
  qed
  have "bw_converged r"
  proof (rule ccontr)
    assume "\<not> bw_converged r"
    with r(6) le3 show False by simp
  qed
  with r(1,2) le3 show ?thesis by blast
qed

text \<open>
  C8, as stated for every observation sequence. On the sequence without any observation
  the first \<open>forwardBackward\<close> throws, before any iteration is counted, and the call
  has no result.
\<close>

theorem baumWelchTraining_iterations_empty:
  "baumWelchTraining new_hmm [] = (new_hmm, Inl MatrixError)
   \<and> \<not> (\<forall>st observations. \<exists>st' r. baumWelchTraining st observations = (st', Inr r)
                                   \<and> bw_iterations r \<le> 50)"
proof -
  have e: "baumWelchTraining st [] = (st, Inl MatrixError)" for st
    unfolding baumWelchTraining_def
    by (subst bw_loop.simps) (simp add: forwardBackward_def maxIterations_def)
  have "\<not> (\<exists>st' r. baumWelchTraining new_hmm [] = (st', Inr r) \<and> bw_iterations r \<le> 50)"
    by (simp add: e)
  then have "\<not> (\<forall>st observations. \<exists>st' r. baumWelchTraining st observations = (st', Inr r)
                                       \<and> bw_iterations r \<le> 50)"
    by blast
  with e show ?thesis by blast
qed

text \<open>
  C1 on the code. After every successful \<open>trainModel\<close> call (with a clustering that
  labels every point) every row of the emission matrix sums to 1 and so do the initial
  probabilities, but every row of the transition matrix sums to 4: the re-estimation
  divides each \<open>xi\<close> by \<open>alpha(t, i) * beta(t, i)\<close> and not by the likelihood of the
  observations, and from the uniform initialization every transition probability
  becomes 1 and stays 1.
\<close>

theorem trainModel_transition_rows_sum_to_four:
  assumes t: "trainModel km st cs = (st', Inr res)"
    and km: "labels_every_point km"
  shows "map reduce_sum (transitionMatrix st') = replicate 4 (Fin 4) \<and>
         map reduce_sum (emissionMatrix st') = replicate 4 (Fin 1) \<and>
         reduce_sum (initialProbs st') = Fin 1"
proof -
  obtain st2 observations h where l: "length observations = length cs - windowSize"
    and m: "minTrainingData \<le> length cs"
    and lt: "\<forall>ob \<in> set observations. ob < numSymbols st2"
    and st': "st' = (reestimated st2 observations)\<lparr>isTrained := True, trainingHistory := h\<rparr>"
    using trainModel_reestimated[OF t km] by blast
  have "observations \<noteq> []"
    using l m by (auto simp: minTrainingData_def windowSize_def)
  from reestimated_row_sums[OF this lt] show ?thesis
    by (simp add: st')
qed

theorem trainModel_transition_rows_sum_to_four_witness:
  "\<exists>st' res. trainModel km0 new_hmm (replicate 100 (flat_candle 1 1)) = (st', Inr res) \<and>
      map reduce_sum (transitionMatrix st') = replicate 4 (Fin 4) \<and>
      map reduce_sum (emissionMatrix st') = replicate 4 (Fin 1) \<and>
      reduce_sum (initialProbs st') = Fin 1"
proof -
  obtain st' res where t: "trainModel km0 new_hmm (replicate 100 (flat_candle 1 1)) = (st', Inr res)"
    using trainModel_example by blast
  from trainModel_transition_rows_sum_to_four[OF t km0_labels_every_point] t
  show ?thesis by blast
qed

text \<open>
  C6. After a training that has succeeded, no result of \<open>predictMarketRegime\<close> has
  next-state probabilities that sum to 1. A result of the trained path has, as its
  next-state probabilities, the row of the transition matrix for the current state:
  one entry for each of the four regimes, each of them 1, so they sum to 4 (the
  re-estimation leaves a transition matrix of ones, see C1). A result of the
  heuristic classification has the method \<open>HEURISTIC\<close>, no next-state probabilities,
  and state probabilities with the single entry of the regime and its confidence
  (0.6, 0.7 or 0.8), which sum to that confidence.
\<close>

theorem predictMarketRegime_next_probabilities_sum_to_four:
  assumes t: "trainModel km st0 cs = (st, Inr res)"
    and km: "labels_every_point km"
    and p: "predictMarketRegime km st recent = (st', Inr p)"
  shows "(pr_method p = Some ''HEURISTIC'' \<and> nextStateProbabilities p = None \<and>
          stateProbabilities p = [(currentRegime p, confidence p)] \<and>
          confidence p \<in> {Fin (6 / 10), Fin (7 / 10), Fin (8 / 10)} \<and>
          reduce_sum (map snd (stateProbabilities p)) = confidence p)
       \<or> (pr_method p = None \<and>
          (\<exists>q. nextStateProbabilities p = Some q \<and> map fst q = states \<and>
                map snd q = replicate 4 (Fin 1) \<and> reduce_sum (map snd q) = Fin 4))"
proof -
  have n4: "numStates = 4" by (simp add: numStates_def states_def)
  obtain st2 observations h where
    st: "st = (reestimated st2 observations)\<lparr>isTrained := True, trainingHistory := h\<rparr>"
    using trainModel_reestimated[OF t km] by blast
  have tm: "transitionMatrix st = replicate numStates (replicate numStates (Fin 1))"
    by (simp add: st reestimated_def)
  from predictMarketRegime_result_cases[OF p]
  show ?thesis
  proof
    assume a: "pr_method p = Some ''HEURISTIC'' \<and> nextStateProbabilities p = None \<and>
          stateProbabilities p = [(currentRegime p, confidence p)] \<and>
          confidence p \<in> {Fin (6 / 10), Fin (7 / 10), Fin (8 / 10)}"
    then have "reduce_sum (map snd (stateProbabilities p)) = confidence p"
      by (auto simp: reduce_sum_def)
    with a show ?thesis by blast
  next
    assume b: "pr_method p = None \<and> map fst (stateProbabilities p) = states \<and>
          transitionMatrix st' = transitionMatrix st \<and>
          ((\<forall>x \<in> set (map snd (stateProbabilities p)). isFinite x)
             \<longrightarrow> reduce_sum (map snd (stateProbabilities p)) = Fin 1) \<and>
          (\<exists>s<numStates. currentRegime p = states ! s \<and>
             nextStateProbabilities p
               = Some (map (\<lambda>i. (states ! i, mget (transitionMatrix st') s i)) [0..<numStates]))"
    then obtain s where s: "s < numStates"
      and nx: "nextStateProbabilities p
               = Some (map (\<lambda>i. (states ! i, mget (transitionMatrix st') s i)) [0..<numStates])"
      by blast
    let ?q = "map (\<lambda>i. (states ! i, mget (transitionMatrix st') s i)) [0..<numStates]"
    have tm': "transitionMatrix st' = replicate numStates (replicate numStates (Fin 1))"
      using b tm by simp
    have e: "mget (transitionMatrix st') s i = Fin 1" if "i < numStates" for i
      by (rule mget_rows[of _ _ numStates]) (use s that in \<open>simp_all add: tm'\<close>)
    have "map snd ?q = map (\<lambda>i. mget (transitionMatrix st') s i) [0..<numStates]"
      by (simp add: comp_def)
    also have "\<dots> = replicate numStates (Fin 1)"
      by (rule map_upt_const) (rule e)
    finally have sn: "map snd ?q = replicate 4 (Fin 1)" by (simp add: n4)
    have fs: "map fst ?q = states"
      by (simp add: comp_def numStates_def map_nth)
    have "reduce_sum (map snd ?q) = Fin 4"
      unfolding sn by (simp add: reduce_sum_replicate)
    with b nx sn fs show ?thesis by blast
  qed
qed

text \<open>The analyzer trained on 100 equal candles: on 28 candles the trained path
  answers, with state probabilities that sum to 1 and next-state probabilities
  that sum to 4; on 20 candles the clustering throws and the heuristic answers,
  without next-state probabilities.\<close>

theorem predictMarketRegime_next_probabilities_sum_to_four_witness:
  "\<exists>res st' p q st'' p'.
      trainModel km0 new_hmm (replicate 100 (flat_candle 1 1)) = (trained_example, Inr res) \<and>
      predictMarketRegime km0 trained_example (replicate 28 (flat_candle 1 1)) = (st', Inr p) \<and>
      pr_method p = None \<and>
      reduce_sum (map snd (stateProbabilities p)) = Fin 1 \<and>
      nextStateProbabilities p = Some q \<and> map fst q = states \<and>
      reduce_sum (map snd q) = Fin 4 \<and>
      predictMarketRegime km0 trained_example (replicate 20 (flat_candle 1 1)) = (st'', Inr p') \<and>
      pr_method p' = Some ''HEURISTIC'' \<and> nextStateProbabilities p' = None \<and>
      reduce_sum (map snd (stateProbabilities p')) = confidence p' \<and>
      confidence p' \<in> {Fin (6 / 10), Fin (7 / 10), Fin (8 / 10)}"
proof -
  let ?c100 = "replicate 100 (flat_candle 1 1)"
  obtain st0 res where "trainModel km0 new_hmm ?c100 = (st0, Inr res)"
    using trainModel_example by blast
  then have t: "trainModel km0 new_hmm ?c100 = (trained_example, Inr res)"
    by (simp add: trained_example_def)
  obtain st' p where pm: "predictMarketRegime km0 trained_example (replicate 28 (flat_candle 1 1)) = (st', Inr p)"
    and m: "pr_method p = None"
    and sp: "map snd (stateProbabilities p) = replicate numStates (Fin (1 / real numStates))"
    using trained_example_prediction by blast
  have n4: "numStates = 4" by (simp add: numStates_def states_def)
  have s1: "reduce_sum (map snd (stateProbabilities p)) = Fin 1"
    unfolding sp by (simp add: reduce_sum_replicate n4)
  from predictMarketRegime_next_probabilities_sum_to_four[OF t km0_labels_every_point pm] m
  obtain q where q: "nextStateProbabilities p = Some q" "map fst q = states"
    "reduce_sum (map snd q) = Fin 4"
    by auto
  let ?c20 = "replicate 20 (flat_candle 1 1)"
  obtain st1 where tp: "trained_prediction km0 trained_example ?c20 = (st1, Inl KMeansError)"
    using trained_prediction_short[of ?c20 trained_example] by (auto simp: windowSize_def)
  obtain p' where h: "heuristicClassification ?c20 = Inr p'" "pr_method p' = Some ''HEURISTIC''"
    using heuristicClassification_ok[of ?c20] by auto
  have pm': "predictMarketRegime km0 trained_example ?c20 = (st1, Inr p')"
    using trained_example_isTrained tp h(1) by (simp add: predictMarketRegime_def)
  from predictMarketRegime_next_probabilities_sum_to_four[OF t km0_labels_every_point pm'] h(2)
  have hp: "nextStateProbabilities p' = None"
    "reduce_sum (map snd (stateProbabilities p')) = confidence p'"
    "confidence p' \<in> {Fin (6 / 10), Fin (7 / 10), Fin (8 / 10)}"
    by auto
  from t pm m s1 q pm' h(2) hp show ?thesis by (simp only:) blast
qed

end
